(* ===== verification/Scry_Prelude.thy ===== *)
theory Scry_Prelude
  imports "HOL-Library.Word"
begin

text \<open>
  Shared vocabulary of the development: the outcome of a Rust computation that may panic,
  \<open>usize\<close> arithmetic with the overflow behaviour of the two Cargo profiles, byte strings and
  big-endian integers, slices, and the list and map lemmas the component theories share.
\<close>

section \<open>Named theorem collections\<close>

named_theorems run_simps \<open>evaluation of computations that may panic\<close>
named_theorems wire_simps \<open>evaluation of byte-level encoders and decoders\<close>
named_theorems op_defs \<open>the operations of a stateful component\<close>

section \<open>Computations that may panic\<close>

text \<open>
  \<open>Ret v\<close> is normal return, \<open>Panic\<close> is a Rust panic (slice index out of range, capacity
  overflow, arithmetic overflow in a build with overflow checks).
\<close>

datatype 'a run = Ret (returned: 'a) | Panic

fun run_bind :: "'a run \<Rightarrow> ('a \<Rightarrow> 'b run) \<Rightarrow> 'b run" where
  "run_bind (Ret v) f = f v"
| "run_bind Panic f = Panic"

definition run_map :: "('a \<Rightarrow> 'b) \<Rightarrow> 'a run \<Rightarrow> 'b run" where
  "run_map f m = run_bind m (\<lambda>v. Ret (f v))"

text \<open>The \<open>?\<close> operator on an \<open>Option\<close> inside a computation that may panic.\<close>

definition try_opt :: "'a option run \<Rightarrow> ('a \<Rightarrow> 'b option run) \<Rightarrow> 'b option run" where
  "try_opt m f = run_bind m (\<lambda>r. case r of None \<Rightarrow> Ret None | Some v \<Rightarrow> f v)"

section \<open>Machine integers\<close>

text \<open>
  A \<open>usize\<close> is a \<open>nat\<close> below \<open>2 ^ 64\<close>.  The flag \<open>oc\<close> is rustc's overflow-checks
  setting: the workspace has no \<open>[profile]\<close> section, so it is on in a dev build (overflow
  panics) and off in a release build (overflow wraps).
\<close>

definition usize_modulus :: nat where
  "usize_modulus = 2 ^ 64"

definition usize_add :: "bool \<Rightarrow> nat \<Rightarrow> nat \<Rightarrow> nat run" where
  "usize_add oc a b =
     (if a + b < usize_modulus then Ret (a + b)
      else if oc then Panic else Ret ((a + b) mod usize_modulus))"

definition usize_sub :: "bool \<Rightarrow> nat \<Rightarrow> nat \<Rightarrow> nat run" where
  "usize_sub oc a b =
     (if b \<le> a then Ret (a - b)
      else if oc then Panic else Ret (a + usize_modulus - b))"

text \<open>\<open>x as usize\<close> for a signed \<open>x\<close>: sign extension to 64 bits.\<close>

definition as_usize :: "int \<Rightarrow> nat" where
  "as_usize i = nat (i mod 2 ^ 64)"

text \<open>
  \<open>Vec::with_capacity(n)\<close> for elements of \<open>sz\<close> bytes panics with ``capacity overflow'' when
  the allocation would exceed \<open>isize::MAX\<close> bytes.
\<close>

definition with_capacity_ok :: "nat \<Rightarrow> nat \<Rightarrow> bool" where
  "with_capacity_ok sz n = (sz * n < 2 ^ 63)"

type_synonym byte = "8 word"
type_synonym bytes = "8 word list"

definition byte_of :: "nat \<Rightarrow> byte" where
  "byte_of n = word_of_nat n"

text \<open>\<open>u16\<close>/\<open>u32\<close>/\<open>u64::from_be_bytes\<close> as a natural number, and the two's complement reading.\<close>

fun be_nat_acc :: "nat \<Rightarrow> bytes \<Rightarrow> nat" where
  "be_nat_acc acc [] = acc"
| "be_nat_acc acc (b # bs) = be_nat_acc (256 * acc + unat b) bs"

definition be_nat :: "bytes \<Rightarrow> nat" where
  "be_nat bs = be_nat_acc 0 bs"

definition signed_of :: "nat \<Rightarrow> nat \<Rightarrow> int" where
  "signed_of w n = (if n < 2 ^ (w - 1) then int n else int n - 2 ^ w)"

definition i16_from_be :: "byte \<Rightarrow> byte \<Rightarrow> int" where
  "i16_from_be a b = signed_of 16 (be_nat [a, b])"

definition i32_from_be :: "byte \<Rightarrow> byte \<Rightarrow> byte \<Rightarrow> byte \<Rightarrow> int" where
  "i32_from_be a b c d = signed_of 32 (be_nat [a, b, c, d])"

definition u32_from_be :: "byte \<Rightarrow> byte \<Rightarrow> byte \<Rightarrow> byte \<Rightarrow> nat" where
  "u32_from_be a b c d = be_nat [a, b, c, d]"

text \<open>\<open>to_be_bytes\<close> of a 16- and a 32-bit integer; the argument is reduced to its width.\<close>

definition be16 :: "int \<Rightarrow> bytes" where
  "be16 i = (let n = nat (i mod 2 ^ 16) in
     [byte_of (n div 2 ^ 8), byte_of (n mod 2 ^ 8)])"

definition be32 :: "int \<Rightarrow> bytes" where
  "be32 i = (let n = nat (i mod 2 ^ 32) in
     [byte_of (n div 2 ^ 24), byte_of (n div 2 ^ 16 mod 2 ^ 8),
      byte_of (n div 2 ^ 8 mod 2 ^ 8), byte_of (n mod 2 ^ 8)])"

text \<open>\<open>x as i32\<close> for a \<open>usize\<close>: truncation to 32 bits, read as two's complement.\<close>

definition as_i32 :: "nat \<Rightarrow> int" where
  "as_i32 n = signed_of 32 (n mod 2 ^ 32)"

section \<open>Slices\<close>

text \<open>\<open>&data[a..b]\<close> panics unless \<open>a \<le> b\<close> and \<open>b \<le> data.len()\<close>.\<close>

definition slice :: "'a list \<Rightarrow> nat \<Rightarrow> nat \<Rightarrow> 'a list run" where
  "slice xs a b = (if a \<le> b \<and> b \<le> length xs then Ret (take (b - a) (drop a xs)) else Panic)"

section \<open>Lemmas on computations\<close>

lemma run_bind_Ret_iff: "run_bind m f = Ret v \<longleftrightarrow> (\<exists>u. m = Ret u \<and> f u = Ret v)"
  by (cases m) auto

lemma run_map_Ret_iff: "run_map f m = Ret y \<longleftrightarrow> (\<exists>x. m = Ret x \<and> y = f x)"
  by (auto simp: run_map_def run_bind_Ret_iff)

lemma run_bind_Panic_iff: "run_bind m f = Panic \<longleftrightarrow> m = Panic \<or> (\<exists>u. m = Ret u \<and> f u = Panic)"
  by (cases m) auto

lemma run_bind_assoc: "run_bind (run_bind m f) g = run_bind m (\<lambda>v. run_bind (f v) g)"
  by (cases m) auto

lemma run_bind_return [simp]: "run_bind m Ret = m"
  by (cases m) auto

lemma run_map_simps [simp, run_simps]:
  "run_map f (Ret v) = Ret (f v)" "run_map f Panic = Panic"
  by (simp_all add: run_map_def)

lemma try_opt_simps [simp, run_simps]:
  "try_opt (Ret None) f = Ret None" "try_opt (Ret (Some v)) f = f v" "try_opt Panic f = Panic"
  by (simp_all add: try_opt_def)

lemma not_Panic_iff: "m \<noteq> Panic \<longleftrightarrow> (\<exists>v. m = Ret v)"
  by (cases m) auto

lemma usize_add_small [simp, run_simps]: "a + b < usize_modulus \<Longrightarrow> usize_add oc a b = Ret (a + b)"
  by (simp add: usize_add_def)

lemma usize_sub_ge [simp, run_simps]: "b \<le> a \<Longrightarrow> usize_sub oc a b = Ret (a - b)"
  by (simp add: usize_sub_def)

lemma slice_Ret_iff:
  "slice xs a b = Ret ys \<longleftrightarrow> a \<le> b \<and> b \<le> length xs \<and> ys = take (b - a) (drop a xs)"
  by (auto simp: slice_def)

lemma slice_in_range [simp, run_simps]:
  "a \<le> b \<Longrightarrow> b \<le> length xs \<Longrightarrow> slice xs a b = Ret (take (b - a) (drop a xs))"
  by (simp add: slice_def)

section \<open>Lemmas on big-endian integers\<close>

lemma be_nat2 [wire_simps]: "be_nat [a, b] = 256 * unat a + unat b"
  by (simp add: be_nat_def)

lemma be_nat4 [wire_simps]:
  "be_nat [a, b, c, d] = 256 * (256 * (256 * unat a + unat b) + unat c) + unat d"
  by (simp add: be_nat_def)

lemma unat_byte_of [simp]: "n < 256 \<Longrightarrow> unat (byte_of n) = n"
  by (simp add: byte_of_def unat_of_nat)

lemma byte_of_unat [simp]: "byte_of (unat b) = b"
  by (simp add: byte_of_def)

lemma byte_of_numeral [wire_simps]: "byte_of (numeral n) = numeral n" "byte_of 0 = 0" "byte_of 1 = 1"
  by (simp_all add: byte_of_def)

lemma unat_byte_less [simp]: "unat (b :: byte) < 256"
  using unsigned_less [of b] by simp

lemma unat_byte_le: "unat (b :: byte) \<le> 255"
  using unat_byte_less [of b] by linarith

lemma length_be16 [simp]: "length (be16 i) = 2"
  by (simp add: be16_def Let_def)

lemma length_be32 [simp]: "length (be32 i) = 4"
  by (simp add: be32_def Let_def)

lemma be_nat_be16: "be_nat (be16 i) = nat (i mod 2 ^ 16)"
proof -
  define n where "n = nat (i mod 2 ^ 16)"
  have "n < 65536" by (simp add: n_def nat_less_iff)
  then have "n div 256 < 256" and "256 * (n div 256) + n mod 256 = n" by simp_all
  then show ?thesis unfolding be16_def Let_def n_def [symmetric] by (simp add: be_nat2)
qed

lemma base256_sum:
  fixes n :: nat
  assumes "n = 256 * a + r" and "a = 256 * b + s" and "b = 256 * c + t"
  shows "16777216 * c + 65536 * t + 256 * s + r = n"
  using assms by simp

lemma base256_bound:
  fixes a b c d :: nat
  assumes "a \<le> 255" "b \<le> 255" "c \<le> 255" "d \<le> 255"
  shows "256 * (256 * (256 * a + b) + c) + d < 4294967296"
  using assms by simp

lemma base256_digits:
  fixes n :: nat
  shows "16777216 * (n div 16777216) + 65536 * (n div 65536 mod 256) + 256 * (n div 256 mod 256)
           + n mod 256 = n"
proof -
  have "n div 65536 = n div 256 div 256" and "n div 16777216 = n div 256 div 256 div 256"
    by (simp_all add: div_mult2_eq [symmetric])
  then show ?thesis
    by (simp only:) (rule base256_sum [OF mult_div_mod_eq [symmetric] mult_div_mod_eq [symmetric]
        mult_div_mod_eq [symmetric]])
qed

lemma be_nat_be32: "be_nat (be32 i) = nat (i mod 2 ^ 32)"
proof -
  define n where "n = nat (i mod 2 ^ 32)"
  have "n < 4294967296" by (simp add: n_def nat_less_iff)
  then have "n div 16777216 < 256" by simp
  then show ?thesis
    unfolding be32_def Let_def n_def [symmetric] by (simp add: be_nat4 base256_digits)
qed

lemma signed_of_mod:
  assumes "- (2 ^ (w - 1)) \<le> i" and "i < 2 ^ (w - 1)" and "0 < w"
  shows "signed_of w (nat (i mod 2 ^ w)) = i"
proof -
  have w: "(2::int) ^ w = 2 * 2 ^ (w - 1)" using assms(3) by (cases w) simp_all
  show ?thesis
  proof (cases "0 \<le> i")
    case True
    then have "i mod 2 ^ w = i" using assms w by simp
    then show ?thesis using True assms by (simp add: signed_of_def nat_less_iff)
  next
    case False
    have "i mod 2 ^ w = (i + 2 ^ w) mod 2 ^ w" by simp
    also have "\<dots> = i + 2 ^ w" using False assms w by (intro mod_pos_pos_trivial) auto
    finally have m: "i mod 2 ^ w = i + 2 ^ w" .
    then have "\<not> nat (i mod 2 ^ w) < 2 ^ (w - 1)" using assms w by (simp add: nat_less_iff)
    then show ?thesis using m False assms w by (simp add: signed_of_def)
  qed
qed

text \<open>Encoding then decoding a 16- or 32-bit integer is the identity.\<close>

lemma i16_be16:
  assumes "- 32768 \<le> i" and "i < 32768" and "be16 i = [a, b]"
  shows "i16_from_be a b = i"
  using signed_of_mod [of 16 i] assms be_nat_be16 [of i] by (simp add: i16_from_be_def)

lemma i32_be32:
  assumes "- 2147483648 \<le> i" and "i < 2147483648" and "be32 i = [a, b, c, d]"
  shows "i32_from_be a b c d = i"
  using signed_of_mod [of 32 i] assms be_nat_be32 [of i] by (simp add: i32_from_be_def)

lemma u32_be32:
  assumes "n < 4294967296" and "be32 (int n) = [a, b, c, d]"
  shows "u32_from_be a b c d = n"
  using assms be_nat_be32 [of "int n"] by (simp add: u32_from_be_def)

lemma be16_elems: obtains a b where "be16 i = [a, b]"
  by (simp add: be16_def Let_def)

lemma be32_elems: obtains a b c d where "be32 i = [a, b, c, d]"
  by (simp add: be32_def Let_def)

lemma signed_of_bounds:
  assumes "n < 2 ^ w" and "0 < w"
  shows "- (2 ^ (w - 1)) \<le> signed_of w n" and "signed_of w n < 2 ^ (w - 1)"
proof -
  have w: "(2::int) ^ w = 2 * 2 ^ (w - 1)" using assms(2) by (cases w) simp_all
  have "int n < 2 ^ w" using assms(1) by (metis of_nat_less_iff of_nat_numeral of_nat_power)
  moreover have "\<not> n < 2 ^ (w - 1) \<longleftrightarrow> 2 ^ (w - 1) \<le> int n"
    by (metis not_less of_nat_le_iff of_nat_numeral of_nat_power)
  moreover have "n < 2 ^ (w - 1) \<longleftrightarrow> int n < 2 ^ (w - 1)"
    by (metis of_nat_less_iff of_nat_numeral of_nat_power)
  ultimately show "- (2 ^ (w - 1)) \<le> signed_of w n" and "signed_of w n < 2 ^ (w - 1)"
    using w by (auto simp: signed_of_def)
qed

lemma i32_bounds: "- 2147483648 \<le> i32_from_be a b c d" "i32_from_be a b c d < 2147483648"
proof -
  have "be_nat [a, b, c, d] < 4294967296"
    unfolding be_nat4 by (intro base256_bound unat_byte_le)
  then have "be_nat [a, b, c, d] < 2 ^ 32" by simp
  from signed_of_bounds [OF this]
  show "- 2147483648 \<le> i32_from_be a b c d" "i32_from_be a b c d < 2147483648"
    by (simp_all add: i32_from_be_def)
qed

lemma i16_bounds: "- 32768 \<le> i16_from_be a b" "i16_from_be a b < 32768"
proof -
  have "be_nat [a, b] < 65536"
    using unat_byte_le [of a] unat_byte_le [of b] by (simp add: be_nat2)
  then have "be_nat [a, b] < 2 ^ 16" by simp
  from signed_of_bounds [OF this]
  show "- 32768 \<le> i16_from_be a b" "i16_from_be a b < 32768"
    by (simp_all add: i16_from_be_def)
qed

lemma as_usize_nonneg: "0 \<le> i \<Longrightarrow> i < 2 ^ 63 \<Longrightarrow> as_usize i = nat i"
  by (simp add: as_usize_def)

lemma as_usize_neg: "i < 0 \<Longrightarrow> - (2 ^ 63) \<le> i \<Longrightarrow> int (as_usize i) = 2 ^ 64 + i"
proof -
  assume a: "i < 0" "- (2 ^ 63) \<le> i"
  have "i mod 2 ^ 64 = (i + 2 ^ 64) mod 2 ^ 64" by simp
  also have "\<dots> = i + 2 ^ 64" using a by (intro mod_pos_pos_trivial) auto
  finally show ?thesis using a by (simp add: as_usize_def)
qed

lemma as_i32_small: "n < 2147483648 \<Longrightarrow> as_i32 n = int n"
  by (simp add: as_i32_def signed_of_def)

section \<open>Lemmas on lists and maps\<close>

lemma dom_map_upd_notin: "k \<notin> dom m \<Longrightarrow> finite (dom m) \<Longrightarrow> card (dom (m(k \<mapsto> v))) = Suc (card (dom m))"
  by simp

lemma dom_map_remove: "dom (m(k := None)) = dom m - {k}"
  by auto

lemma takeWhile_eq_all: "\<forall>x\<in>set xs. P x \<Longrightarrow> takeWhile P (xs @ ys) = xs @ takeWhile P ys"
  by simp

lemma removeAll_notin [simp]: "x \<notin> set xs \<Longrightarrow> removeAll x xs = xs"
  by (induction xs) auto

lemma filter_neq_removeAll: "filter (\<lambda>n. n \<noteq> x) xs = removeAll x xs"
  by (induction xs) auto

lemma filter_neq_set [simp]: "set (filter (\<lambda>n. n \<noteq> x) xs) = set xs - {x}"
  by auto

end
