(* ===== verification/Rust_Str.thy ===== *)
theory Rust_Str
  imports Scry_Prelude
begin

text \<open>
  The part of Rust's string library the proxy uses.  A \<open>str\<close> is the list of its Unicode scalar
  values (\<open>rstr\<close>); byte offsets are computed through the UTF-8 widths, so that slicing at an
  offset that is not a character boundary is visible (\<open>None\<close> for \<open>get\<close>, a panic for indexing).
  UTF-8 decoding follows the byte ranges \<open>core::str::from_utf8\<close> accepts.

  Unicode case conversion is table driven outside ASCII.  The tables are the fields of the record
  \<open>unicode\<close>, an argument of every definition that uses them: no theorem assumes anything of them
  unless it says so.
\<close>

type_synonym rchar = nat
type_synonym rstr = "nat list"

named_theorems str_simps \<open>evaluation of string operations on concrete strings\<close>

section \<open>Literals and characters\<close>

definition lit :: "string \<Rightarrow> rstr" where
  [str_simps]: "lit s = map of_char s"

definition ascii_upper :: "rchar \<Rightarrow> rchar" where
  [str_simps]: "ascii_upper c = (if 97 \<le> c \<and> c \<le> 122 then c - 32 else c)"

definition ascii_lower :: "rchar \<Rightarrow> rchar" where
  [str_simps]: "ascii_lower c = (if 65 \<le> c \<and> c \<le> 90 then c + 32 else c)"

text \<open>\<open>char::is_whitespace\<close>: the Unicode property White\_Space.\<close>

definition is_whitespace :: "rchar \<Rightarrow> bool" where
  [str_simps]: "is_whitespace c =
     (c = 32 \<or> 9 \<le> c \<and> c \<le> 13 \<or> c = 133 \<or> c = 160 \<or> c = 5760 \<or> 8192 \<le> c \<and> c \<le> 8202
      \<or> c = 8232 \<or> c = 8233 \<or> c = 8239 \<or> c = 8287 \<or> c = 12288)"

record unicode =
  upper_tab :: "rchar \<Rightarrow> rchar list"
  lower_tab :: "rstr \<Rightarrow> nat \<Rightarrow> rchar list"

text \<open>Tables that leave every character beyond ASCII alone, for evaluation on concrete text.\<close>

definition plain_tables :: unicode where
  [str_simps]: "plain_tables = \<lparr>upper_tab = (\<lambda>c. [c]), lower_tab = (\<lambda>s i. [s ! i])\<rparr>"

text \<open>
  \<open>str::to_uppercase\<close> maps each character on its own; \<open>str::to_lowercase\<close> may look at the
  neighbours of a non-ASCII character (the final sigma rule), so its table sees the whole string
  and the position.
\<close>

definition to_uppercase :: "unicode \<Rightarrow> rstr \<Rightarrow> rstr" where
  [str_simps]: "to_uppercase U s = concat (map (\<lambda>c. if c < 128 then [ascii_upper c] else upper_tab U c) s)"

definition to_lowercase :: "unicode \<Rightarrow> rstr \<Rightarrow> rstr" where
  [str_simps]: "to_lowercase U s =
     concat (map (\<lambda>i. if s ! i < 128 then [ascii_lower (s ! i)] else lower_tab U s i)
       [0..<length s])"

section \<open>UTF-8\<close>

definition scalar :: "nat \<Rightarrow> bool" where
  "scalar c = (c < 55296 \<or> 57344 \<le> c \<and> c < 1114112)"

definition len_utf8 :: "rchar \<Rightarrow> nat" where
  [str_simps]: "len_utf8 c = (if c < 128 then 1 else if c < 2048 then 2 else if c < 65536 then 3 else 4)"

definition utf8_enc :: "rchar \<Rightarrow> bytes" where
  "utf8_enc c =
     (if c < 128 then [byte_of c]
      else if c < 2048 then [byte_of (192 + c div 64), byte_of (128 + c mod 64)]
      else if c < 65536 then
        [byte_of (224 + c div 4096), byte_of (128 + c div 64 mod 64),
         byte_of (128 + c mod 64)]
      else
        [byte_of (240 + c div 262144), byte_of (128 + c div 4096 mod 64),
         byte_of (128 + c div 64 mod 64), byte_of (128 + c mod 64)])"

text \<open>\<open>str::as_bytes\<close>.\<close>

definition as_bytes :: "rstr \<Rightarrow> bytes" where
  "as_bytes s = concat (map utf8_enc s)"

definition cont_byte :: "byte \<Rightarrow> bool" where
  "cont_byte b = (128 \<le> unat b \<and> unat b < 192)"

text \<open>The range the second byte must lie in, by the first byte of a 3- or 4-byte sequence.\<close>

definition second_ok :: "nat \<Rightarrow> nat \<Rightarrow> bool" where
  "second_ok x y =
     (if x = 224 then 160 \<le> y \<and> y < 192
      else if x = 237 then 128 \<le> y \<and> y < 160
      else if x = 240 then 144 \<le> y \<and> y < 192
      else if x = 244 then 128 \<le> y \<and> y < 144
      else 128 \<le> y \<and> y < 192)"

fun utf8_next :: "bytes \<Rightarrow> (rchar \<times> bytes) option" where
  "utf8_next [] = None"
| "utf8_next (b0 # bs) =
     (let x = unat b0 in
      if x < 128 then Some (x, bs)
      else if 194 \<le> x \<and> x < 224 then
        (case bs of b1 # r \<Rightarrow>
           if cont_byte b1 then Some ((x - 192) * 64 + (unat b1 - 128), r) else None
         | _ \<Rightarrow> None)
      else if 224 \<le> x \<and> x < 240 then
        (case bs of b1 # b2 # r \<Rightarrow>
           if second_ok x (unat b1) \<and> cont_byte b2
           then Some ((x - 224) * 4096 + (unat b1 - 128) * 64 + (unat b2 - 128), r) else None
         | _ \<Rightarrow> None)
      else if 240 \<le> x \<and> x < 245 then
        (case bs of b1 # b2 # b3 # r \<Rightarrow>
           if second_ok x (unat b1) \<and> cont_byte b2 \<and> cont_byte b3
           then Some ((x - 240) * 262144 + (unat b1 - 128) * 4096 + (unat b2 - 128) * 64
                        + (unat b3 - 128), r)
           else None
         | _ \<Rightarrow> None)
      else None)"

lemma utf8_next_shorter: "utf8_next bs = Some (c, r) \<Longrightarrow> length r < length bs"
  by (cases bs) (auto simp: Let_def split: if_splits list.splits)

text \<open>\<open>String::from_utf8\<close> / \<open>str::from_utf8\<close>: \<open>None\<close> for the error result.\<close>

function from_utf8 :: "bytes \<Rightarrow> rstr option" where
  "from_utf8 bs =
     (if bs = [] then Some []
      else case utf8_next bs of
        None \<Rightarrow> None
      | Some (c, r) \<Rightarrow> map_option (Cons c) (from_utf8 r))"
  by pat_completeness auto
termination
  by (relation "measure length") (auto dest: utf8_next_shorter)

declare from_utf8.simps [simp del]

text \<open>
  \<open>String::from_utf8_lossy\<close> replaces every maximal ill-formed part by U+FFFD.
  \<open>utf8_bad_len\<close> is the length of that part at the head of an ill-formed input.
\<close>

fun utf8_bad_len :: "bytes \<Rightarrow> nat" where
  "utf8_bad_len [] = 1"
| "utf8_bad_len (b0 # bs) =
     (let x = unat b0 in
      if 224 \<le> x \<and> x < 240 then
        (case bs of b1 # _ \<Rightarrow> if second_ok x (unat b1) then 2 else 1 | [] \<Rightarrow> 1)
      else if 240 \<le> x \<and> x < 245 then
        (case bs of
           b1 # r1 \<Rightarrow>
             if second_ok x (unat b1)
             then (case r1 of b2 # _ \<Rightarrow> if cont_byte b2 then 3 else 2 | [] \<Rightarrow> 2)
             else 1
         | [] \<Rightarrow> 1)
      else 1)"

lemma utf8_bad_len_pos [simp]: "0 < utf8_bad_len bs"
  by (cases bs) (auto simp: Let_def split: list.splits)

function from_utf8_lossy :: "bytes \<Rightarrow> rstr" where
  "from_utf8_lossy bs =
     (if bs = [] then []
      else case utf8_next bs of
        None \<Rightarrow> 65533 # from_utf8_lossy (drop (utf8_bad_len bs) bs)
      | Some (c, r) \<Rightarrow> c # from_utf8_lossy r)"
  by pat_completeness auto
termination
proof (relation "measure length")
  fix bs :: bytes
  assume "bs \<noteq> []"
  then show "(drop (utf8_bad_len bs) bs, bs) \<in> measure length"
    using utf8_bad_len_pos [of bs] by (simp del: utf8_bad_len_pos)
qed (auto dest: utf8_next_shorter)

declare from_utf8_lossy.simps [simp del]

section \<open>Slicing and searching\<close>

definition blen :: "rstr \<Rightarrow> nat" where
  "blen s = sum_list (map len_utf8 s)"

text \<open>\<open>s.get(n..)\<close> and \<open>s.get(..n)\<close> with a byte offset.\<close>

fun str_from :: "rstr \<Rightarrow> nat \<Rightarrow> rstr option" where
  "str_from [] n = (if n = 0 then Some [] else None)"
| "str_from (c # s) n =
     (if n = 0 then Some (c # s)
      else if len_utf8 c \<le> n then str_from s (n - len_utf8 c) else None)"

fun str_to :: "rstr \<Rightarrow> nat \<Rightarrow> rstr option" where
  "str_to [] n = (if n = 0 then Some [] else None)"
| "str_to (c # s) n =
     (if n = 0 then Some []
      else if len_utf8 c \<le> n then map_option (Cons c) (str_to s (n - len_utf8 c)) else None)"

text \<open>\<open>&s[n..]\<close> and \<open>&s[..n]\<close> panic where \<open>get\<close> gives \<open>None\<close>.\<close>

definition index_from :: "rstr \<Rightarrow> nat \<Rightarrow> rstr run" where
  [str_simps]: "index_from s n = (case str_from s n of None \<Rightarrow> Panic | Some r \<Rightarrow> Ret r)"

definition index_to :: "rstr \<Rightarrow> nat \<Rightarrow> rstr run" where
  [str_simps]: "index_to s n = (case str_to s n of None \<Rightarrow> Panic | Some r \<Rightarrow> Ret r)"

definition starts_with :: "rstr \<Rightarrow> rstr \<Rightarrow> bool" where
  [str_simps]: "starts_with s p = (take (length p) s = p)"

definition strip_prefix :: "rstr \<Rightarrow> rstr \<Rightarrow> rstr option" where
  [str_simps]: "strip_prefix s p = (if starts_with s p then Some (drop (length p) s) else None)"

text \<open>\<open>str::find\<close> with a string or a one-character pattern: the byte offset of the first match.\<close>

fun str_find :: "rstr \<Rightarrow> rstr \<Rightarrow> nat option" where
  "str_find [] p = (if p = [] then Some 0 else None)"
| "str_find (c # s) p =
     (if starts_with (c # s) p then Some 0 else map_option ((+) (len_utf8 c)) (str_find s p))"

definition contains :: "rstr \<Rightarrow> rstr \<Rightarrow> bool" where
  [str_simps]: "contains s p = (str_find s p \<noteq> None)"

definition trim_start :: "rstr \<Rightarrow> rstr" where
  [str_simps]: "trim_start s = dropWhile is_whitespace s"

definition trim :: "rstr \<Rightarrow> rstr" where
  [str_simps]: "trim s = rev (dropWhile is_whitespace (rev (dropWhile is_whitespace s)))"

text \<open>\<open>s.trim_matches(q)\<close> for a character \<open>q\<close>.\<close>

definition trim_matches :: "rchar \<Rightarrow> rstr \<Rightarrow> rstr" where
  [str_simps]: "trim_matches q s = rev (dropWhile (\<lambda>c. c = q) (rev (dropWhile (\<lambda>c. c = q) s)))"

text \<open>\<open>s.split_whitespace().next()\<close>.\<close>

definition first_word :: "rstr \<Rightarrow> rstr option" where
  [str_simps]: "first_word s =
     (let w = takeWhile (\<lambda>c. \<not> is_whitespace c) (dropWhile is_whitespace s)
      in if w = [] then None else Some w)"

text \<open>\<open>s.split(q)\<close> for a character \<open>q\<close>: always at least one part.\<close>

fun split_char :: "rchar \<Rightarrow> rstr \<Rightarrow> rstr list" where
  "split_char q [] = [[]]"
| "split_char q (c # s) =
     (if c = q then [] # split_char q s
      else case split_char q s of p # ps \<Rightarrow> (c # p) # ps | [] \<Rightarrow> [[c]])"

definition eq_ignore_ascii_case :: "rstr \<Rightarrow> rstr \<Rightarrow> bool" where
  [str_simps]: "eq_ignore_ascii_case a b = (map ascii_lower a = map ascii_lower b)"

section \<open>Integers as text\<close>

definition is_digit :: "rchar \<Rightarrow> bool" where
  [str_simps]: "is_digit c = (48 \<le> c \<and> c \<le> 57)"

fun digits_value :: "nat \<Rightarrow> rstr \<Rightarrow> nat option" where
  "digits_value acc [] = Some acc"
| "digits_value acc (c # s) = (if is_digit c then digits_value (10 * acc + (c - 48)) s else None)"

text \<open>
  \<open>str::parse\<close> for a signed integer type with the range \<open>lo..=hi\<close>: an optional sign, then at
  least one digit; out of range is an error.
\<close>

definition parse_signed :: "int \<Rightarrow> int \<Rightarrow> rstr \<Rightarrow> int option" where
  [str_simps]: "parse_signed lo hi s =
     (let (neg, ds) = (case s of c # r \<Rightarrow> if c = 45 then (True, r) else if c = 43 then (False, r)
                                      else (False, s) | [] \<Rightarrow> (False, []))
      in if ds = [] then None
         else case digits_value 0 ds of
           None \<Rightarrow> None
         | Some n \<Rightarrow> let v = (if neg then - int n else int n)
                     in if lo \<le> v \<and> v \<le> hi then Some v else None)"

abbreviation parse_i16 :: "rstr \<Rightarrow> int option" where
  "parse_i16 \<equiv> parse_signed (- 32768) 32767"

abbreviation parse_i32 :: "rstr \<Rightarrow> int option" where
  "parse_i32 \<equiv> parse_signed (- 2147483648) 2147483647"

abbreviation parse_i64 :: "rstr \<Rightarrow> int option" where
  "parse_i64 \<equiv> parse_signed (- 9223372036854775808) 9223372036854775807"

text \<open>For an unsigned type with the maximum \<open>hi\<close> a minus sign is an error.\<close>

definition parse_unsigned :: "nat \<Rightarrow> rstr \<Rightarrow> nat option" where
  "parse_unsigned hi s =
     (if starts_with s (lit ''-'') then None else map_option nat (parse_signed 0 (int hi) s))"

abbreviation parse_u16 :: "rstr \<Rightarrow> nat option" where
  "parse_u16 \<equiv> parse_unsigned 65535"

abbreviation parse_u32 :: "rstr \<Rightarrow> nat option" where
  "parse_u32 \<equiv> parse_unsigned 4294967295"

abbreviation parse_u64 :: "rstr \<Rightarrow> nat option" where
  "parse_u64 \<equiv> parse_unsigned 18446744073709551615"

text \<open>\<open>Display\<close> of an unsigned integer.\<close>

fun show_nat :: "nat \<Rightarrow> rstr" where
  "show_nat n = (if n < 10 then [48 + n] else show_nat (n div 10) @ [48 + n mod 10])"

declare show_nat.simps [simp del]

lemmas str_eval = str_simps str_from.simps str_to.simps str_find.simps split_char.simps
  digits_value.simps Let_def

section \<open>UTF-8 round trips\<close>

lemma length_utf8_enc: "length (utf8_enc c) = len_utf8 c"
  by (simp add: utf8_enc_def len_utf8_def)

lemma length_as_bytes: "length (as_bytes s) = blen s"
  by (simp add: as_bytes_def blen_def length_concat comp_def length_utf8_enc)

lemma len_utf8_pos [simp]: "0 < len_utf8 c"
  by (simp add: len_utf8_def)

lemma as_bytes_simps [simp]:
  "as_bytes [] = []" "as_bytes (c # s) = utf8_enc c @ as_bytes s"
  "as_bytes (s @ t) = as_bytes s @ as_bytes t"
  by (simp_all add: as_bytes_def)

lemma utf8_next_enc2:
  assumes "128 \<le> c" "c < 2048"
  shows "utf8_next (utf8_enc c @ r) = Some (c, r)"
proof -
  have d: "c div 64 < 32" "2 \<le> c div 64"
    using assms by (simp_all add: div_le_mono [of 128 c 64, simplified])
  moreover have "c div 64 * 64 + c mod 64 = c" by simp
  ultimately show ?thesis using assms by (simp add: utf8_enc_def cont_byte_def Let_def)
qed

lemma utf8_next_enc3:
  assumes "2048 \<le> c" "c < 65536" "scalar c"
  shows "utf8_next (utf8_enc c @ r) = Some (c, r)"
proof -
  define a where "a = c div 4096"
  define b where "b = c div 64 mod 64"
  define d where "d = c mod 64"
  have lt: "a < 16" "b < 64" "d < 64" using assms by (simp_all add: a_def b_def d_def)
  have "c div 64 = 64 * (c div 64 div 64) + b" and "c = 64 * (c div 64) + d"
    unfolding b_def d_def by (rule mult_div_mod_eq [symmetric])+
  moreover have "c div 64 div 64 = a" by (simp add: a_def div_mult2_eq [symmetric])
  ultimately have c: "c = a * 4096 + b * 64 + d" by simp
  have "second_ok (224 + a) (128 + b)"
    using assms lt unfolding c scalar_def second_ok_def by (cases "a = 0"; cases "a = 13") auto
  moreover have "utf8_enc c = [byte_of (224 + a), byte_of (128 + b), byte_of (128 + d)]"
    using assms by (simp add: utf8_enc_def a_def b_def d_def)
  ultimately show ?thesis using lt by (simp add: cont_byte_def Let_def c [symmetric])
qed

lemma utf8_next_enc4:
  assumes "65536 \<le> c" "scalar c"
  shows "utf8_next (utf8_enc c @ r) = Some (c, r)"
proof -
  define a where "a = c div 262144"
  define b where "b = c div 4096 mod 64"
  define d where "d = c div 64 mod 64"
  define e where "e = c mod 64"
  have lt: "a < 5" "b < 64" "d < 64" "e < 64"
    using assms by (auto simp: a_def b_def d_def e_def scalar_def)
  have "c div 64 = 64 * (c div 64 div 64) + d" and "c = 64 * (c div 64) + e"
    unfolding d_def e_def by (rule mult_div_mod_eq [symmetric])+
  moreover have "c div 64 div 64 = c div 4096" and "c div 4096 = 64 * (c div 4096 div 64) + b"
    unfolding b_def by (simp add: div_mult2_eq [symmetric], rule mult_div_mod_eq [symmetric])
  moreover have "c div 4096 div 64 = a" by (simp add: a_def div_mult2_eq [symmetric])
  ultimately have c: "c = a * 262144 + b * 4096 + d * 64 + e" by simp
  have "second_ok (240 + a) (128 + b)"
    using assms lt unfolding c scalar_def second_ok_def by (cases "a = 0"; cases "a = 4") auto
  moreover have "utf8_enc c
      = [byte_of (240 + a), byte_of (128 + b), byte_of (128 + d), byte_of (128 + e)]"
    using assms by (simp add: utf8_enc_def a_def b_def d_def e_def)
  ultimately show ?thesis using lt by (simp add: cont_byte_def Let_def c [symmetric])
qed

lemma utf8_next_enc: "scalar c \<Longrightarrow> utf8_next (utf8_enc c @ r) = Some (c, r)"
proof -
  assume "scalar c"
  consider "c < 128" | "128 \<le> c" "c < 2048" | "2048 \<le> c" "c < 65536" | "65536 \<le> c" by linarith
  then show ?thesis
  proof cases
    case 1
    then show ?thesis by (simp add: utf8_enc_def Let_def)
  qed (simp_all add: utf8_next_enc2 utf8_next_enc3 utf8_next_enc4 \<open>scalar c\<close>)
qed

lemma utf8_enc_nonempty [simp]: "utf8_enc c \<noteq> []"
  by (simp add: utf8_enc_def)

lemma from_utf8_Nil [simp]: "from_utf8 [] = Some []"
  by (simp add: from_utf8.simps)

lemma from_utf8_enc_Cons:
  "scalar c \<Longrightarrow> from_utf8 (utf8_enc c @ bs) = map_option (Cons c) (from_utf8 bs)"
  by (subst from_utf8.simps) (simp add: utf8_next_enc)

lemma from_utf8_as_bytes: "list_all scalar s \<Longrightarrow> from_utf8 (as_bytes s) = Some s"
  by (induction s) (simp_all add: from_utf8_enc_Cons)

lemma byte_of_diff: "k \<le> unat b \<Longrightarrow> byte_of (k + (unat b - k)) = (b :: byte)"
  by simp

lemma digits64_2:
  fixes a d :: nat
  assumes "d < 64"
  shows "(a * 64 + d) div 64 = a" and "(a * 64 + d) mod 64 = d"
  using assms by simp_all

lemma digits64_3:
  fixes a b d :: nat
  assumes "b < 64" "d < 64"
  shows "(a * 4096 + b * 64 + d) div 4096 = a" and "(a * 4096 + b * 64 + d) div 64 mod 64 = b"
    and "(a * 4096 + b * 64 + d) mod 64 = d"
proof -
  have "a * 4096 + b * 64 + d = (a * 64 + b) * 64 + d" by simp
  with assms show "(a * 4096 + b * 64 + d) div 64 mod 64 = b"
    and "(a * 4096 + b * 64 + d) mod 64 = d"
    by (simp_all only: digits64_2)
  show "(a * 4096 + b * 64 + d) div 4096 = a" using assms by simp
qed

lemma digits64_4:
  fixes a b d e :: nat
  assumes "b < 64" "d < 64" "e < 64"
  shows "(a * 262144 + b * 4096 + d * 64 + e) div 262144 = a"
    and "(a * 262144 + b * 4096 + d * 64 + e) div 4096 mod 64 = b"
    and "(a * 262144 + b * 4096 + d * 64 + e) div 64 mod 64 = d"
    and "(a * 262144 + b * 4096 + d * 64 + e) mod 64 = e"
proof -
  have c: "a * 262144 + b * 4096 + d * 64 + e = (a * 64 + b) * 4096 + d * 64 + e" by simp
  show "(a * 262144 + b * 4096 + d * 64 + e) div 4096 mod 64 = b"
    and "(a * 262144 + b * 4096 + d * 64 + e) div 64 mod 64 = d"
    and "(a * 262144 + b * 4096 + d * 64 + e) mod 64 = e"
    unfolding c using assms by (simp_all only: digits64_3 digits64_2)
  show "(a * 262144 + b * 4096 + d * 64 + e) div 262144 = a" using assms by simp
qed

lemma second_ok_bounds: "second_ok x y \<Longrightarrow> 128 \<le> y \<and> y < 192"
  by (auto simp: second_ok_def split: if_splits)

lemma second_ok_scalar3:
  assumes "second_ok (224 + a) (128 + b)" "b < 64" "d < 64" "a < 16"
  shows "2048 \<le> a * 4096 + b * 64 + d \<and> a * 4096 + b * 64 + d < 65536
    \<and> scalar (a * 4096 + b * 64 + d)"
  using assms by (auto simp: second_ok_def scalar_def split: if_splits)

lemma second_ok_scalar4:
  assumes "second_ok (240 + a) (128 + b)" "b < 64" "d < 64" "e < 64" "a < 5"
  shows "65536 \<le> a * 262144 + b * 4096 + d * 64 + e
    \<and> scalar (a * 262144 + b * 4096 + d * 64 + e)"
  using assms by (auto simp: second_ok_def scalar_def split: if_splits)

lemma utf8_sound2:
  assumes "194 \<le> unat b0" "unat b0 < 224" "cont_byte b1"
    and "c = (unat b0 - 192) * 64 + (unat b1 - 128)"
  shows "scalar c \<and> [b0, b1] = utf8_enc c"
proof -
  have b1: "128 \<le> unat b1" "unat b1 - 128 < 64" using assms(3) by (auto simp: cont_byte_def)
  then have d: "c div 64 = unat b0 - 192" "c mod 64 = unat b1 - 128"
    using digits64_2 assms(4) by blast+
  have "128 \<le> c" "c < 2048" using assms b1 by auto
  then show ?thesis using d assms b1 by (simp add: utf8_enc_def byte_of_diff scalar_def)
qed

lemma utf8_sound3:
  assumes "224 \<le> unat b0" "unat b0 < 240" "second_ok (unat b0) (unat b1)" "cont_byte b2"
    and "c = (unat b0 - 224) * 4096 + (unat b1 - 128) * 64 + (unat b2 - 128)"
  shows "scalar c \<and> [b0, b1, b2] = utf8_enc c"
proof -
  have b: "128 \<le> unat b1" "unat b1 - 128 < 64" "128 \<le> unat b2" "unat b2 - 128 < 64"
    using second_ok_bounds [OF assms(3)] assms(4) by (auto simp: cont_byte_def)
  then have d: "c div 4096 = unat b0 - 224" "c div 64 mod 64 = unat b1 - 128"
      "c mod 64 = unat b2 - 128"
    unfolding assms(5) by (simp_all only: digits64_3)
  have "2048 \<le> c \<and> c < 65536 \<and> scalar c"
    unfolding assms(5) by (rule second_ok_scalar3) (use assms b in auto)
  then show ?thesis using d assms(1) b by (simp add: utf8_enc_def byte_of_diff)
qed

lemma utf8_sound4:
  assumes "240 \<le> unat b0" "unat b0 < 245" "second_ok (unat b0) (unat b1)"
    "cont_byte b2" "cont_byte b3"
    and "c = (unat b0 - 240) * 262144 + (unat b1 - 128) * 4096 + (unat b2 - 128) * 64
               + (unat b3 - 128)"
  shows "scalar c \<and> [b0, b1, b2, b3] = utf8_enc c"
proof -
  have b: "128 \<le> unat b1" "unat b1 - 128 < 64" "128 \<le> unat b2" "unat b2 - 128 < 64"
      "128 \<le> unat b3" "unat b3 - 128 < 64"
    using second_ok_bounds [OF assms(3)] assms(4,5) by (auto simp: cont_byte_def)
  then have d: "c div 262144 = unat b0 - 240" "c div 4096 mod 64 = unat b1 - 128"
      "c div 64 mod 64 = unat b2 - 128" "c mod 64 = unat b3 - 128"
    unfolding assms(6) by (simp_all only: digits64_4)
  have "65536 \<le> c \<and> scalar c"
    unfolding assms(6) by (rule second_ok_scalar4) (use assms b in auto)
  then show ?thesis using d assms(1) b by (simp add: utf8_enc_def byte_of_diff)
qed

lemma utf8_next_sound:
  assumes "utf8_next bs = Some (c, r)"
  shows "scalar c \<and> bs = utf8_enc c @ r"
proof -
  obtain b0 bs' where bs: "bs = b0 # bs'" using assms by (cases bs) auto
  consider "unat b0 < 128" | "194 \<le> unat b0" "unat b0 < 224" | "224 \<le> unat b0" "unat b0 < 240"
    | "240 \<le> unat b0" "unat b0 < 245"
    using assms bs by (fastforce simp: Let_def split: if_splits)
  then show ?thesis
  proof cases
    case 1
    then show ?thesis using assms bs by (auto simp: utf8_enc_def scalar_def Let_def)
  next
    case 2
    then obtain b1 where "bs' = b1 # r" "cont_byte b1"
        "c = (unat b0 - 192) * 64 + (unat b1 - 128)"
      using assms bs by (auto simp: Let_def split: list.splits if_splits)
    then show ?thesis using utf8_sound2 [OF 2] bs by fastforce
  next
    case 3
    then obtain b1 b2 where "bs' = b1 # b2 # r" "second_ok (unat b0) (unat b1)" "cont_byte b2"
        "c = (unat b0 - 224) * 4096 + (unat b1 - 128) * 64 + (unat b2 - 128)"
      using assms bs by (auto simp: Let_def split: list.splits if_splits)
    then show ?thesis using utf8_sound3 [OF 3] bs by fastforce
  next
    case 4
    then obtain b1 b2 b3 where "bs' = b1 # b2 # b3 # r" "second_ok (unat b0) (unat b1)"
        "cont_byte b2" "cont_byte b3"
        "c = (unat b0 - 240) * 262144 + (unat b1 - 128) * 4096 + (unat b2 - 128) * 64
               + (unat b3 - 128)"
      using assms bs by (auto simp: Let_def split: list.splits if_splits)
    then show ?thesis using utf8_sound4 [OF 4] bs by fastforce
  qed
qed

text \<open>Decoding is exactly the inverse of encoding.\<close>

lemma from_utf8_sound: "from_utf8 bs = Some s \<Longrightarrow> list_all scalar s \<and> as_bytes s = bs"
proof (induction bs arbitrary: s rule: from_utf8.induct)
  case (1 bs)
  show ?case
  proof (cases "bs = []")
    case True
    with "1.prems" show ?thesis by simp
  next
    case False
    then obtain c r s' where n: "utf8_next bs = Some (c, r)" and s: "from_utf8 r = Some s'" "s = c # s'"
      using "1.prems" by (subst (asm) from_utf8.simps) (auto split: option.splits)
    from "1.IH" [OF False n refl s(1)] utf8_next_sound [OF n] s(2) show ?thesis by simp
  qed
qed

lemma from_utf8_iff: "from_utf8 bs = Some s \<longleftrightarrow> list_all scalar s \<and> as_bytes s = bs"
  using from_utf8_sound from_utf8_as_bytes by blast

lemma from_utf8_lossy_valid: "from_utf8 bs = Some s \<Longrightarrow> from_utf8_lossy bs = s"
proof (induction bs arbitrary: s rule: from_utf8.induct)
  case (1 bs)
  then show ?case
    by (subst from_utf8_lossy.simps, subst (asm) (2) from_utf8.simps)
      (auto split: option.splits if_splits)
qed

section \<open>ASCII strings\<close>

definition ascii :: "rstr \<Rightarrow> bool" where
  "ascii s = list_all (\<lambda>c. c < 128) s"

lemma ascii_simps [simp]: "ascii []" "ascii (c # s) \<longleftrightarrow> c < 128 \<and> ascii s"
  "ascii (s @ t) \<longleftrightarrow> ascii s \<and> ascii t"
  by (simp_all add: ascii_def)

lemma ascii_scalar: "ascii s \<Longrightarrow> list_all scalar s"
  by (induction s) (auto simp: scalar_def)

lemma as_bytes_ascii: "ascii s \<Longrightarrow> as_bytes s = map byte_of s"
  by (induction s) (simp_all add: utf8_enc_def)

lemma to_uppercase_ascii: "ascii s \<Longrightarrow> to_uppercase U s = map ascii_upper s"
  by (induction s) (auto simp: to_uppercase_def)

section \<open>Lemmas on trimming, splitting and slicing\<close>

lemma str_from_0 [simp]: "str_from s 0 = Some s"
  by (cases s) simp_all

lemma str_to_0 [simp]: "str_to s 0 = Some []"
  by (cases s) simp_all

lemma str_from_append: "str_from (s @ t) (blen s) = Some t"
  by (induction s) (auto simp: blen_def)

lemma str_to_append: "str_to (s @ t) (blen s) = Some s"
  by (induction s) (auto simp: blen_def)

lemma ascii_str_from: "ascii s \<Longrightarrow> str_from s n = (if n \<le> length s then Some (drop n s) else None)"
  by (induction s arbitrary: n) (auto simp: len_utf8_def drop_Cons' split: nat.splits)

lemma ascii_str_to: "ascii s \<Longrightarrow> str_to s n = (if n \<le> length s then Some (take n s) else None)"
  by (induction s arbitrary: n) (auto simp: len_utf8_def take_Cons split: nat.splits)

lemma ascii_find_bound: "ascii s \<Longrightarrow> str_find s p = Some i \<Longrightarrow> i + length p \<le> length s"
proof (induction s arbitrary: i)
  case (Cons c s)
  then show ?case
    by (auto simp: starts_with_def len_utf8_def split: if_splits) (metis length_take min.absorb_iff2 min.commute length_Cons nle_le)
qed (auto split: if_splits)

lemma ascii_drop [simp]: "ascii s \<Longrightarrow> ascii (drop n s)"
  by (auto simp: ascii_def list_all_iff dest: in_set_dropD)

lemma trim_subset: "set (trim s) \<subseteq> set s"
  by (auto simp: trim_def dest!: set_dropWhileD)

lemma ascii_trim [simp]: "ascii s \<Longrightarrow> ascii (trim s)"
  using trim_subset [of s] by (auto simp: ascii_def list_all_iff)

lemma ascii_to_uppercase [simp]: "ascii s \<Longrightarrow> ascii (to_uppercase U s)"
  by (auto simp: ascii_def list_all_iff to_uppercase_def ascii_upper_def)

lemma length_to_uppercase [simp]: "ascii s \<Longrightarrow> length (to_uppercase U s) = length s"
  by (induction s) (auto simp: to_uppercase_def)

lemma starts_with_length: "starts_with s p \<Longrightarrow> length p \<le> length s"
  by (metis starts_with_def length_take min.absorb_iff2 min.commute)
lemma ascii_index_from [simp]: "ascii s \<Longrightarrow> n \<le> length s \<Longrightarrow> index_from s n = Ret (drop n s)"
  by (simp add: index_from_def ascii_str_from)

lemma ascii_index_to [simp]: "ascii s \<Longrightarrow> n \<le> length s \<Longrightarrow> index_to s n = Ret (take n s)"
  by (simp add: index_to_def ascii_str_to)

lemma ascii_take [simp]: "ascii s \<Longrightarrow> ascii (take n s)"
  by (auto simp: ascii_def list_all_iff dest: in_set_takeD)

text \<open>Splitting at a separator character, and searches that cannot succeed.\<close>

lemma split_char_not_Nil [simp]: "split_char q s \<noteq> []"
  by (cases s) (auto split: list.splits)

lemma split_char_notin: "q \<notin> set s \<Longrightarrow> split_char q s = [s]"
  by (induction s) auto

lemma split_char_append: "split_char q (a @ q # b) = split_char q a @ split_char q b"
  by (induction a) (auto split: list.splits)

lemma str_find_mem: "str_find s p = Some i \<Longrightarrow> set p \<subseteq> set s"
proof (induction s arbitrary: i)
  case (Cons c s)
  then show ?case
    by (auto simp: starts_with_def split: if_splits) (metis in_set_takeD set_ConsD)+
qed (auto split: if_splits)

lemma starts_with_mem: "starts_with s p \<Longrightarrow> set p \<subseteq> set s"
  by (metis starts_with_def set_take_subset)

section \<open>Printing and reading numbers\<close>

lemma digits_value_append:
  "digits_value acc (s @ t) = (case digits_value acc s of None \<Rightarrow> None | Some a \<Rightarrow> digits_value a t)"
  by (induction acc s rule: digits_value.induct) auto

lemma show_nat_digits: "list_all is_digit (show_nat n)"
  by (induction n rule: show_nat.induct) (subst show_nat.simps, auto simp: is_digit_def list_all_iff)

lemma show_nat_not_Nil [simp]: "show_nat n \<noteq> []"
  by (subst show_nat.simps) simp

lemma digits_value_show_nat: "digits_value 0 (show_nat n) = Some n"
proof (induction n rule: show_nat.induct)
  case (1 n)
  then show ?case
    by (subst show_nat.simps) (auto simp: digits_value_append is_digit_def)
qed

lemma parse_unsigned_show_nat: "n \<le> hi \<Longrightarrow> parse_unsigned hi (show_nat n) = Some n"
proof -
  assume n: "n \<le> hi"
  obtain c r where s: "show_nat n = c # r" by (cases "show_nat n") simp_all
  then have "is_digit c" using show_nat_digits [of n] by simp
  then have "c \<noteq> 45" "c \<noteq> 43" by (auto simp: is_digit_def)
  then show ?thesis
    using n digits_value_show_nat [of n] s by (simp add: parse_unsigned_def parse_signed_def starts_with_def lit_def)
qed

end
