(* ===== verification/Wire_Messages.thy ===== *)
theory Wire_Messages
  imports Rust_Str
begin

text \<open>
  The client-to-backend direction of \<open>protocol/extractor.rs\<close>: the \<open>Message\<close> type of
  \<open>protocol/mod.rs\<close>, the payload parsers, and the framing loop of \<open>extract_messages\<close> with its
  reassembly buffer.  The loop is written once over a frame classifier and a payload parser; the
  locale \<open>framing\<close> states what the loop needs of the classifier and proves that cutting the stream
  into reads does not change what is extracted.
\<close>

section \<open>Message types\<close>

definition MSG_QUERY :: byte where "MSG_QUERY = 81"
definition MSG_PARSE :: byte where "MSG_PARSE = 80"
definition MSG_BIND :: byte where "MSG_BIND = 66"
definition MSG_EXECUTE :: byte where "MSG_EXECUTE = 69"
definition MSG_SYNC :: byte where "MSG_SYNC = 83"
definition MSG_TERMINATE :: byte where "MSG_TERMINATE = 88"
definition MSG_CLOSE :: byte where "MSG_CLOSE = 67"

definition MSG_COMMAND_COMPLETE :: byte where "MSG_COMMAND_COMPLETE = 67"
definition MSG_READY_FOR_QUERY :: byte where "MSG_READY_FOR_QUERY = 90"
definition MSG_ERROR_RESPONSE :: byte where "MSG_ERROR_RESPONSE = 69"

lemmas msg_tags = MSG_QUERY_def MSG_PARSE_def MSG_BIND_def MSG_EXECUTE_def MSG_SYNC_def
  MSG_TERMINATE_def MSG_CLOSE_def MSG_COMMAND_COMPLETE_def MSG_READY_FOR_QUERY_def
  MSG_ERROR_RESPONSE_def

datatype message =
    Query rstr
  | Parse rstr rstr "nat list"
  | Bind rstr rstr "int list" "bytes option list"
  | Execute rstr
  | Close rchar rstr
  | Sync
  | Terminate

definition MAX_FRONTEND_MESSAGE_SIZE :: nat where
  "MAX_FRONTEND_MESSAGE_SIZE = 64 * 1024 * 1024"

section \<open>Payload parsers\<close>

definition read_cstring :: "bytes \<Rightarrow> nat \<Rightarrow> rstr option" where
  "read_cstring data offset =
     (let rest = drop offset data; s = takeWhile (\<lambda>b. b \<noteq> 0) rest
      in if length s = length rest then None else from_utf8 s)"

definition parse_query_message :: "bytes \<Rightarrow> message option" where
  "parse_query_message payload = map_option Query (read_cstring payload 0)"

fun read_oids :: "bytes \<Rightarrow> nat \<Rightarrow> nat \<Rightarrow> nat list option" where
  "read_oids payload offset 0 = Some []"
| "read_oids payload offset (Suc n) =
     (if offset + 4 > length payload then None
      else map_option
        (Cons (u32_from_be (payload ! offset) (payload ! (offset + 1)) (payload ! (offset + 2))
                 (payload ! (offset + 3))))
        (read_oids payload (offset + 4) n))"

definition parse_parse_message :: "bytes \<Rightarrow> message option run" where
  "parse_parse_message payload =
     (case read_cstring payload 0 of None \<Rightarrow> Ret None | Some name \<Rightarrow>
      (let offset = blen name + 1 in
       case read_cstring payload offset of None \<Rightarrow> Ret None | Some query \<Rightarrow>
       (let offset = offset + (blen query + 1) in
        if offset + 2 > length payload then Ret None
        else
          (let num_params = as_usize (i16_from_be (payload ! offset) (payload ! (offset + 1)));
               offset = offset + 2
           in if \<not> with_capacity_ok 4 num_params then Panic
              else Ret (map_option (Parse name query) (read_oids payload offset num_params))))))"

fun read_format_codes :: "bytes \<Rightarrow> nat \<Rightarrow> nat \<Rightarrow> (int list \<times> nat) option" where
  "read_format_codes payload offset 0 = Some ([], offset)"
| "read_format_codes payload offset (Suc n) =
     (if offset + 2 > length payload then None
      else map_option
        (\<lambda>(cs, off). (i16_from_be (payload ! offset) (payload ! (offset + 1)) # cs, off))
        (read_format_codes payload (offset + 2) n))"

text \<open>
  One parameter: its length field \<open>len\<close>, \<open>-1\<close> for NULL.  Any other negative \<open>len\<close> becomes a
  huge \<open>usize\<close>, and \<open>offset + len\<close> overflows.
\<close>

fun read_params :: "bool \<Rightarrow> bytes \<Rightarrow> nat \<Rightarrow> nat \<Rightarrow> bytes option list option run" where
  "read_params oc payload offset 0 = Ret (Some [])"
| "read_params oc payload offset (Suc n) =
     (if offset + 4 > length payload then Ret None
      else
        (let len = i32_from_be (payload ! offset) (payload ! (offset + 1)) (payload ! (offset + 2))
                     (payload ! (offset + 3));
             offset = offset + 4
         in if len = - 1
            then run_map (map_option (Cons None)) (read_params oc payload offset n)
            else run_bind (usize_add oc offset (as_usize len)) (\<lambda>stop.
              if stop > length payload then Ret None
              else run_bind (slice payload offset stop) (\<lambda>v.
                run_map (map_option (Cons (Some v))) (read_params oc payload stop n)))))"

definition parse_bind_message :: "bool \<Rightarrow> bytes \<Rightarrow> message option run" where
  "parse_bind_message oc payload =
     (case read_cstring payload 0 of None \<Rightarrow> Ret None | Some portal \<Rightarrow>
      (let offset = blen portal + 1 in
       case read_cstring payload offset of None \<Rightarrow> Ret None | Some statement \<Rightarrow>
       (let offset = offset + (blen statement + 1) in
        if offset + 2 > length payload then Ret None
        else
          (let num_format_codes = as_usize (i16_from_be (payload ! offset) (payload ! (offset + 1)));
               offset = offset + 2
           in if \<not> with_capacity_ok 2 num_format_codes then Panic
              else case read_format_codes payload offset num_format_codes of
                None \<Rightarrow> Ret None
              | Some (format_codes, offset) \<Rightarrow>
                  if offset + 2 > length payload then Ret None
                  else
                    (let num_params =
                           as_usize (i16_from_be (payload ! offset) (payload ! (offset + 1)));
                         offset = offset + 2
                     in if \<not> with_capacity_ok 24 num_params then Panic
                        else run_map (map_option (Bind portal statement format_codes))
                               (read_params oc payload offset num_params))))))"

definition parse_execute_message :: "bytes \<Rightarrow> message option" where
  "parse_execute_message payload = map_option Execute (read_cstring payload 0)"

definition parse_close_message :: "bytes \<Rightarrow> message option" where
  "parse_close_message payload =
     (case payload of [] \<Rightarrow> None
      | b # _ \<Rightarrow> map_option (Close (unat b)) (read_cstring payload 1))"

text \<open>The \<open>match msg_type\<close> of \<open>extract_message\<close> and \<open>extract_messages\<close>.\<close>

definition parse_payload :: "bool \<Rightarrow> byte \<Rightarrow> bytes \<Rightarrow> message option run" where
  "parse_payload oc msg_type payload =
     (if msg_type = MSG_QUERY then Ret (parse_query_message payload)
      else if msg_type = MSG_PARSE then parse_parse_message payload
      else if msg_type = MSG_BIND then parse_bind_message oc payload
      else if msg_type = MSG_EXECUTE then Ret (parse_execute_message payload)
      else if msg_type = MSG_CLOSE then Ret (parse_close_message payload)
      else if msg_type = MSG_SYNC then Ret (Some Sync)
      else if msg_type = MSG_TERMINATE then Ret (Some Terminate)
      else Ret None)"

section \<open>The framing loop\<close>

datatype frame_status = NeedMore | BadFrame | FrameOf nat

text \<open>
  The head of the loop body of \<open>extract_messages\<close>, on \<open>rest = buffer[offset..]\<close>: too short,
  a framing error, an incomplete message, or a complete one with its length field.
\<close>

definition front_status :: "bytes \<Rightarrow> frame_status" where
  "front_status rest =
     (if length rest < 5 then NeedMore
      else
        (let length_i32 = i32_from_be (rest ! 1) (rest ! 2) (rest ! 3) (rest ! 4)
         in if length_i32 < 4 \<or> as_usize length_i32 > MAX_FRONTEND_MESSAGE_SIZE then BadFrame
            else if 1 + as_usize length_i32 > length rest then NeedMore
            else FrameOf (as_usize length_i32)))"

text \<open>
  The loop and the clean-up after it: messages parsed, the bytes the buffer retains, and the
  \<open>framing_error\<close> flag.  A framing error clears the buffer; otherwise the unconsumed tail stays.
\<close>

function scan_frames ::
    "(bytes \<Rightarrow> frame_status) \<Rightarrow> (byte \<Rightarrow> bytes \<Rightarrow> 'm option run) \<Rightarrow> bytes
      \<Rightarrow> ('m list \<times> bytes \<times> bool) run" where
  "scan_frames st p [] = Ret ([], [], False)"
| "scan_frames st p (b # bs) =
     (case st (b # bs) of
        NeedMore \<Rightarrow> Ret ([], b # bs, False)
      | BadFrame \<Rightarrow> Ret ([], [], True)
      | FrameOf len \<Rightarrow>
          run_bind (p b (take (len - 4) (drop 4 bs))) (\<lambda>msg.
            run_map (\<lambda>(ms, buf, e). (case msg of None \<Rightarrow> ms | Some m \<Rightarrow> m # ms, buf, e))
              (scan_frames st p (drop len bs))))"
  by pat_completeness auto
termination
  by (relation "measure (\<lambda>(st, p, bs). length bs)") auto

definition extract_messages :: "bool \<Rightarrow> bytes \<Rightarrow> bytes \<Rightarrow> (message list \<times> bytes) run" where
  "extract_messages oc frontend_buffer data =
     run_map (\<lambda>(ms, buf, _). (ms, buf))
       (scan_frames front_status (parse_payload oc) (frontend_buffer @ data))"

text \<open>\<open>extract_message\<close>: the first message of \<open>data\<close>, with no lower bound on the length field.\<close>

definition extract_message :: "bool \<Rightarrow> bytes \<Rightarrow> message option run" where
  "extract_message oc data =
     (if length data < 5 then Ret None
      else
        (let len = as_usize (i32_from_be (data ! 1) (data ! 2) (data ! 3) (data ! 4))
         in run_bind (usize_add oc 1 len) (\<lambda>stop.
              if length data < stop then Ret None
              else run_bind (slice data 5 stop) (parse_payload oc (data ! 0)))))"

text \<open>A client's reads fed to the extractor one after the other.\<close>

fun extract_all :: "bool \<Rightarrow> bytes \<Rightarrow> bytes list \<Rightarrow> (message list \<times> bytes) run" where
  "extract_all oc buf [] = Ret ([], buf)"
| "extract_all oc buf (d # ds) =
     run_bind (extract_messages oc buf d) (\<lambda>(ms, buf').
       run_map (\<lambda>(ms', buf''). (ms @ ms', buf'')) (extract_all oc buf' ds))"

section \<open>Reads may be cut anywhere\<close>

text \<open>
  What the framing loop relies on in a frame classifier: a complete frame fits, and a verdict
  on a prefix of the stream does not change when more bytes arrive.
\<close>

locale framing =
  fixes st :: "bytes \<Rightarrow> frame_status"
  assumes frame_fits: "st xs = FrameOf n \<Longrightarrow> 4 \<le> n \<and> n < length xs"
    and frame_stable: "st xs = FrameOf n \<Longrightarrow> st (xs @ ys) = FrameOf n"
    and bad_stable: "st xs = BadFrame \<Longrightarrow> st (xs @ ys) = BadFrame"
begin

lemma frame_within:
  assumes "st (b # bs) = FrameOf len"
  shows "4 \<le> len" and "len \<le> length bs"
  using frame_fits [OF assms] by auto

lemma scan_append:
  assumes "scan_frames st p xs = Ret (ms, buf, False)"
  shows "scan_frames st p (xs @ ys) =
    run_map (\<lambda>(ms', b, e). (ms @ ms', b, e)) (scan_frames st p (buf @ ys))"
  using assms
proof (induction xs arbitrary: ms buf rule: length_induct)
  case (1 xs)
  show ?case
  proof (cases xs)
    case Nil
    then show ?thesis using 1 by (cases "scan_frames st p ys") auto
  next
    case xs: (Cons b bs)
    show ?thesis
    proof (cases "st (b # bs)")
      case NeedMore
      then show ?thesis using 1 xs by (cases "scan_frames st p (b # bs @ ys)") auto
    next
      case BadFrame
      then show ?thesis using 1 xs by simp
    next
      case (FrameOf len)
      then obtain m ms' where m: "p b (take (len - 4) (drop 4 bs)) = Ret m"
        and rec: "scan_frames st p (drop len bs) = Ret (ms', buf, False)"
        and ms: "ms = (case m of None \<Rightarrow> ms' | Some x \<Rightarrow> x # ms')"
        using "1.prems" xs by (auto simp: run_bind_Ret_iff run_map_def split: prod.splits)
      have "scan_frames st p (drop len bs @ ys) =
          run_map (\<lambda>(ms'', b, e). (ms' @ ms'', b, e)) (scan_frames st p (buf @ ys))"
        using "1.IH" rec xs by (simp add: less_Suc_eq_le)
      moreover have "st (b # bs @ ys) = FrameOf len" using frame_stable [OF FrameOf] by simp
      ultimately show ?thesis
        using m ms frame_within [OF FrameOf] xs
        by (cases "scan_frames st p (buf @ ys)") (auto split: option.splits)
    qed
  qed
qed

lemma scan_append_bad:
  assumes "scan_frames st p xs = Ret (ms, buf, True)"
  shows "scan_frames st p (xs @ ys) = Ret (ms, [], True)"
  using assms
proof (induction xs arbitrary: ms rule: length_induct)
  case (1 xs)
  show ?case
  proof (cases xs)
    case Nil
    then show ?thesis using 1 by simp
  next
    case xs: (Cons b bs)
    show ?thesis
    proof (cases "st (b # bs)")
      case NeedMore
      then show ?thesis using 1 xs by simp
    next
      case BadFrame
      then show ?thesis using 1 xs bad_stable [OF BadFrame] by simp
    next
      case (FrameOf len)
      then obtain m ms' where m: "p b (take (len - 4) (drop 4 bs)) = Ret m"
        and rec: "scan_frames st p (drop len bs) = Ret (ms', buf, True)"
        and ms: "ms = (case m of None \<Rightarrow> ms' | Some x \<Rightarrow> x # ms')"
        using "1.prems" xs by (auto simp: run_bind_Ret_iff run_map_def split: prod.splits)
      have "scan_frames st p (drop len bs @ ys) = Ret (ms', [], True)"
        using "1.IH" rec xs by (simp add: less_Suc_eq_le)
      moreover have "st (b # bs @ ys) = FrameOf len" using frame_stable [OF FrameOf] by simp
      ultimately show ?thesis using m ms frame_within [OF FrameOf] xs by simp
    qed
  qed
qed

lemma scan_append_panic:
  assumes "scan_frames st p xs = Panic"
  shows "scan_frames st p (xs @ ys) = Panic"
  using assms
proof (induction xs rule: length_induct)
  case (1 xs)
  then obtain b bs len where xs: "xs = b # bs" and len: "st (b # bs) = FrameOf len"
    by (cases xs) (auto split: frame_status.splits)
  then have "p b (take (len - 4) (drop 4 bs)) = Panic \<or> scan_frames st p (drop len bs) = Panic"
    using "1.prems" by (auto simp: run_bind_Panic_iff run_map_def)
  moreover have "scan_frames st p (drop len bs) = Panic \<Longrightarrow> scan_frames st p (drop len bs @ ys) = Panic"
    using "1.IH" xs by (simp add: less_Suc_eq_le)
  moreover have "st (b # bs @ ys) = FrameOf len" using frame_stable [OF len] by simp
  ultimately show ?case
    using frame_within [OF len] xs by (cases "p b (take (len - 4) (drop 4 bs))") auto
qed

text \<open>The retained bytes are a tail of the stream that is not a complete frame.\<close>

lemma scan_rest:
  assumes "scan_frames st p xs = Ret (ms, buf, e)"
  shows "buf = [] \<or> st buf = NeedMore \<and> length buf \<le> length xs"
  using assms
proof (induction xs arbitrary: ms rule: length_induct)
  case (1 xs)
  show ?case
  proof (cases xs)
    case Nil
    then show ?thesis using 1 by simp
  next
    case xs: (Cons b bs)
    show ?thesis
    proof (cases "st (b # bs)")
      case (FrameOf len)
      then obtain ms' where "scan_frames st p (drop len bs) = Ret (ms', buf, e)"
        using "1.prems" xs by (auto simp: run_bind_Ret_iff run_map_def split: prod.splits)
      then have "buf = [] \<or> st buf = NeedMore \<and> length buf \<le> length (drop len bs)"
        using "1.IH" xs by (metis length_Cons length_drop diff_less_Suc)
      then show ?thesis using xs by auto
    qed (use 1 xs in auto)
  qed
qed

lemma scan_need_more: "buf = [] \<or> st buf = NeedMore \<Longrightarrow> scan_frames st p buf = Ret ([], buf, False)"
  by (cases buf) auto

end

interpretation front: framing front_status
proof
  fix xs ys :: bytes and n
  show "front_status xs = FrameOf n \<Longrightarrow> 4 \<le> n \<and> n < length xs"
    using i32_bounds [of "xs ! 1" "xs ! 2" "xs ! 3" "xs ! 4"]
    by (auto simp: front_status_def Let_def as_usize_nonneg split: if_splits)
  show "front_status xs = FrameOf n \<Longrightarrow> front_status (xs @ ys) = FrameOf n"
    by (auto simp: front_status_def Let_def nth_append split: if_splits)
  show "front_status xs = BadFrame \<Longrightarrow> front_status (xs @ ys) = BadFrame"
    by (auto simp: front_status_def Let_def nth_append split: if_splits)
qed

section \<open>Reads of a stream\<close>

lemma extract_messages_rest:
  assumes "extract_messages oc buf d = Ret (ms, buf')"
  shows "buf' = [] \<or> front_status buf' = NeedMore"
proof -
  obtain e where "scan_frames front_status (parse_payload oc) (buf @ d) = Ret (ms, buf', e)"
    using assms by (auto simp: extract_messages_def run_map_def run_bind_Ret_iff)
  then show ?thesis using front.scan_rest by blast
qed

lemma extract_all_concat:
  assumes "buf = [] \<or> front_status buf = NeedMore"
    and "\<forall>ms b. scan_frames front_status (parse_payload oc) (buf @ concat ds) \<noteq> Ret (ms, b, True)"
  shows "extract_all oc buf ds = extract_messages oc buf (concat ds)"
  using assms
proof (induction ds arbitrary: buf)
  case Nil
  then show ?case by (simp add: extract_messages_def front.scan_need_more)
next
  case (Cons d ds)
  let ?scan = "scan_frames front_status (parse_payload oc)"
  show ?case
  proof (cases "?scan (buf @ d)")
    case Panic
    then show ?thesis
      using front.scan_append_panic [OF Panic, of "concat ds"] by (simp add: extract_messages_def)
  next
    case (Ret r)
    then obtain ms b e where r: "?scan (buf @ d) = Ret (ms, b, e)" by (cases r) auto
    then have e: "\<not> e"
      using Cons.prems front.scan_append_bad [of _ "buf @ d" ms b "concat ds"] by (cases e) auto
    have b: "b = [] \<or> front_status b = NeedMore" using front.scan_rest r by blast
    have app: "?scan (buf @ d @ concat ds) = run_map (\<lambda>(ms', b, e). (ms @ ms', b, e)) (?scan (b @ concat ds))"
      using front.scan_append [of _ "buf @ d" ms b "concat ds"] r e by simp
    then have "extract_all oc b ds = extract_messages oc b (concat ds)"
      using Cons.prems by (intro Cons.IH [OF b]) auto
    then show ?thesis
      using r app by (cases "?scan (b @ concat ds)") (auto simp: extract_messages_def)
  qed
qed

lemma front_need_more_bound: "front_status buf = NeedMore \<Longrightarrow> length buf \<le> MAX_FRONTEND_MESSAGE_SIZE"
  by (auto simp: front_status_def Let_def MAX_FRONTEND_MESSAGE_SIZE_def split: if_splits)

end
