(* ===== verification/Wire_Format.thy ===== *)
theory Wire_Format
  imports Wire_Messages
begin

text \<open>
  The frontend wire format as PostgreSQL documents it, written as an encoder, and what the
  extractor of \<open>Wire_Messages\<close> does with encoded traffic: every well-formed message comes back
  whatever the reads, the retained bytes stay bounded, and the fields that make a payload
  parser panic.
\<close>

section \<open>The wire format (PostgreSQL frontend protocol, version 3)\<close>

definition cstr :: "rstr \<Rightarrow> bytes" where
  "cstr s = as_bytes s @ [0]"

definition frame :: "byte \<Rightarrow> bytes \<Rightarrow> bytes" where
  "frame tag body = tag # be32 (int (4 + length body)) @ body"

fun encode_param :: "bytes option \<Rightarrow> bytes" where
  "encode_param None = be32 (- 1)"
| "encode_param (Some v) = be32 (int (length v)) @ v"

fun message_tag :: "message \<Rightarrow> byte" where
  "message_tag (Query _) = MSG_QUERY"
| "message_tag (Parse _ _ _) = MSG_PARSE"
| "message_tag (Bind _ _ _ _) = MSG_BIND"
| "message_tag (Execute _) = MSG_EXECUTE"
| "message_tag (Close _ _) = MSG_CLOSE"
| "message_tag Sync = MSG_SYNC"
| "message_tag Terminate = MSG_TERMINATE"

fun message_body :: "message \<Rightarrow> bytes" where
  "message_body (Query q) = cstr q"
| "message_body (Parse n q oids) =
     cstr n @ cstr q @ be16 (int (length oids)) @ concat (map (\<lambda>oid. be32 (int oid)) oids)"
| "message_body (Bind p s codes params) =
     cstr p @ cstr s @ be16 (int (length codes)) @ concat (map be16 codes)
       @ be16 (int (length params)) @ concat (map encode_param params)"
| "message_body (Execute p) = cstr p @ be32 0"
| "message_body (Close k n) = byte_of k # cstr n"
| "message_body Sync = []"
| "message_body Terminate = []"

definition encode_message :: "message \<Rightarrow> bytes" where
  "encode_message m = frame (message_tag m) (message_body m)"

text \<open>Text a NUL-terminated string can carry.\<close>

definition c_text :: "rstr \<Rightarrow> bool" where
  "c_text s = (list_all scalar s \<and> 0 \<notin> set s)"

fun wf_message :: "message \<Rightarrow> bool" where
  "wf_message (Query q) = c_text q"
| "wf_message (Parse n q oids) =
     (c_text n \<and> c_text q \<and> length oids < 32768 \<and> list_all (\<lambda>i. i < 2 ^ 32) oids)"
| "wf_message (Bind p s codes params) =
     (c_text p \<and> c_text s \<and> length codes < 32768 \<and> length params < 32768
      \<and> list_all (\<lambda>c. - 32768 \<le> c \<and> c < 32768) codes)"
| "wf_message (Execute p) = c_text p"
| "wf_message (Close k n) = (k < 256 \<and> c_text n)"
| "wf_message Sync = True"
| "wf_message Terminate = True"

definition sendable :: "message \<Rightarrow> bool" where
  "sendable m = (wf_message m \<and> 4 + length (message_body m) \<le> MAX_FRONTEND_MESSAGE_SIZE)"


section \<open>Reading back what was encoded\<close>

lemma byte_of_nonzero: "0 < n \<Longrightarrow> n < 256 \<Longrightarrow> byte_of n \<noteq> 0"
  by (metis less_irrefl unat_byte_of unsigned_0)

lemma utf8_enc_nonzero:
  assumes "scalar c" and "c \<noteq> 0"
  shows "0 \<notin> set (utf8_enc c)"
proof -
  have "c < 1114112" using assms by (auto simp: scalar_def)
  then have "c div 262144 < 5" "c div 4096 < 272" by (simp_all add: div_less_iff_less_mult)
  then show ?thesis
    using assms byte_of_nonzero
    by (auto simp: utf8_enc_def div_less_iff_less_mult)
qed

lemma as_bytes_nonzero: "c_text s \<Longrightarrow> 0 \<notin> set (as_bytes s)"
  by (induction s) (auto simp: c_text_def as_bytes_def dest!: utf8_enc_nonzero)

lemma length_cstr [simp]: "length (cstr s) = blen s + 1"
  by (simp add: cstr_def length_as_bytes)

lemma read_cstring_cstr [simp]:
  assumes "c_text s"
  shows "read_cstring (pre @ cstr s @ post) (length pre) = Some s"
proof -
  have "takeWhile (\<lambda>b. b \<noteq> 0) (cstr s @ post) = as_bytes s"
    using as_bytes_nonzero [OF assms] by (simp add: cstr_def takeWhile_append)
  then show ?thesis
    using assms by (simp add: read_cstring_def Let_def cstr_def c_text_def from_utf8_as_bytes)
qed

lemma Suc4: "Suc (Suc (Suc (Suc n))) = n + 4"
  by simp

lemma Suc6: "Suc (Suc (Suc (Suc (Suc (Suc n))))) = 6 + n"
  by simp

lemma read_oids_be32:
  "list_all (\<lambda>i. i < 2 ^ 32) oids \<Longrightarrow>
   read_oids (pre @ concat (map (\<lambda>oid. be32 (int oid)) oids) @ post) (length pre) (length oids) = Some oids"
proof (induction oids arbitrary: pre)
  case (Cons oid oids)
  obtain a b c d where w: "be32 (int oid) = [a, b, c, d]" by (rule be32_elems)
  then have "u32_from_be a b c d = oid" using Cons.prems u32_be32 by simp
  moreover have "read_oids ((pre @ [a, b, c, d]) @ concat (map (\<lambda>oid. be32 (int oid)) oids) @ post)
      (length (pre @ [a, b, c, d])) (length oids) = Some oids"
    using Cons.prems by (intro Cons.IH) simp
  ultimately show ?case using w by (simp add: nth_append Suc4)
qed simp

lemma read_format_codes_be16:
  "list_all (\<lambda>c. - 32768 \<le> c \<and> c < 32768) codes \<Longrightarrow>
   read_format_codes (pre @ concat (map be16 codes) @ post) (length pre) (length codes)
     = Some (codes, length pre + 2 * length codes)"
proof (induction codes arbitrary: pre)
  case (Cons code codes)
  obtain a b where w: "be16 code = [a, b]" by (rule be16_elems)
  then have "i16_from_be a b = code" using Cons.prems i16_be16 by simp
  moreover have "read_format_codes ((pre @ [a, b]) @ concat (map be16 codes) @ post)
      (length (pre @ [a, b])) (length codes) = Some (codes, length (pre @ [a, b]) + 2 * length codes)"
    using Cons.prems by (intro Cons.IH) simp
  ultimately show ?case using w by (simp add: nth_append add.commute)
qed simp

lemma read_params_encode:
  "length (pre @ concat (map encode_param params) @ post) < 2 ^ 31 \<Longrightarrow>
   read_params oc (pre @ concat (map encode_param params) @ post) (length pre) (length params)
     = Ret (Some params)"
proof (induction params arbitrary: pre)
  case (Cons param params)
  show ?case
  proof (cases param)
    case None
    obtain a b c d where w: "be32 (- 1) = [a, b, c, d]" by (rule be32_elems)
    then have "i32_from_be a b c d = - 1" using i32_be32 by simp
    moreover have "read_params oc ((pre @ [a, b, c, d]) @ concat (map encode_param params) @ post)
        (length (pre @ [a, b, c, d])) (length params) = Ret (Some params)"
      using Cons.prems w None by (intro Cons.IH) simp
    ultimately show ?thesis using w None by (simp add: nth_append Suc4)
  next
    case (Some v)
    obtain a b c d where w: "be32 (int (length v)) = [a, b, c, d]" by (rule be32_elems)
    have v: "length pre + length v < 2 ^ 31" using Cons.prems Some by simp
    then have "i32_from_be a b c d = int (length v)" using w i32_be32 by simp
    moreover have "usize_add oc (length pre + 4) (length v) = Ret (length pre + 4 + length v)"
      using v by (simp add: usize_modulus_def)
    moreover have "as_usize (int (length v)) = length v"
      using v by (simp add: as_usize_nonneg)
    moreover have "read_params oc ((pre @ [a, b, c, d] @ v) @ concat (map encode_param params) @ post)
        (length (pre @ [a, b, c, d] @ v)) (length params) = Ret (Some params)"
      using Cons.prems w Some by (intro Cons.IH) simp
    ultimately show ?thesis using w Some by (simp add: nth_append Suc4 add.commute add.left_commute)
  qed
qed simp

lemma read_cstring_first [simp]: "c_text s \<Longrightarrow> read_cstring (cstr s @ post) 0 = Some s"
  using read_cstring_cstr [of s "[]" post] by simp

lemma read_cstring_second [simp]:
  "c_text t \<Longrightarrow> read_cstring (cstr s @ cstr t @ post) (Suc (blen s)) = Some t"
  using read_cstring_cstr [of t "cstr s" post] by simp

lemma read_be16:
  assumes "- 32768 \<le> i" and "i < 32768"
  shows "i16_from_be ((pre @ be16 i @ post) ! length pre) ((pre @ be16 i @ post) ! Suc (length pre)) = i"
proof -
  obtain a b where "be16 i = [a, b]" by (rule be16_elems)
  then show ?thesis using i16_be16 assms by (simp add: nth_append)
qed

lemma parse_parse_encode:
  assumes "wf_message (Parse n q oids)"
  shows "parse_payload oc MSG_PARSE (message_body (Parse n q oids)) = Ret (Some (Parse n q oids))"
proof -
  let ?pre = "cstr n @ cstr q" and ?k = "int (length oids)"
  let ?oids = "concat (map (\<lambda>oid. be32 (int oid)) oids)"
  have k: "?k < 32768" using assms by simp
  have "i16_from_be ((?pre @ be16 ?k @ ?oids) ! length ?pre) ((?pre @ be16 ?k @ ?oids) ! Suc (length ?pre)) = ?k"
    using k by (intro read_be16) auto
  moreover have "read_oids ((?pre @ be16 ?k) @ ?oids @ []) (length (?pre @ be16 ?k)) (length oids) = Some oids"
    using assms by (intro read_oids_be32) auto
  ultimately show ?thesis
    using assms k
    by (simp add: parse_payload_def msg_tags parse_parse_message_def Let_def as_usize_nonneg
        with_capacity_ok_def)
qed

lemma parse_bind_encode:
  assumes "sendable (Bind p s codes params)"
  shows "parse_payload oc MSG_BIND (message_body (Bind p s codes params))
    = Ret (Some (Bind p s codes params))"
proof -
  let ?pre = "cstr p @ cstr s" and ?k = "int (length codes)" and ?m = "int (length params)"
  let ?codes = "concat (map be16 codes)" and ?params = "concat (map encode_param params)"
  let ?pre2 = "?pre @ be16 ?k" and ?post = "be16 ?m @ ?params"
  have k: "?k < 32768" "?m < 32768" using assms by (simp_all add: sendable_def)
  have len: "length (concat (map be16 codes)) = 2 * length codes" by (induction codes) auto
  have "i16_from_be ((?pre @ be16 ?k @ ?codes @ ?post) ! length ?pre)
      ((?pre @ be16 ?k @ ?codes @ ?post) ! Suc (length ?pre)) = ?k"
    using k by (intro read_be16) auto
  moreover have "read_format_codes (?pre2 @ ?codes @ ?post) (length ?pre2) (length codes)
      = Some (codes, length ?pre2 + 2 * length codes)"
    using assms by (intro read_format_codes_be16) (auto simp: sendable_def)
  moreover have "i16_from_be (((?pre2 @ ?codes) @ be16 ?m @ ?params) ! length (?pre2 @ ?codes))
      (((?pre2 @ ?codes) @ be16 ?m @ ?params) ! Suc (length (?pre2 @ ?codes))) = ?m"
    using k by (intro read_be16) auto
  moreover have "read_params oc ((?pre2 @ ?codes @ be16 ?m) @ ?params @ [])
      (length (?pre2 @ ?codes @ be16 ?m)) (length params) = Ret (Some params)"
    using assms by (intro read_params_encode) (auto simp: sendable_def MAX_FRONTEND_MESSAGE_SIZE_def)
  ultimately show ?thesis
    using assms k
    by (simp add: parse_payload_def msg_tags parse_bind_message_def Let_def as_usize_nonneg
        with_capacity_ok_def sendable_def len add.assoc)
qed

lemma parse_payload_encode:
  assumes "sendable m"
  shows "parse_payload oc (message_tag m) (message_body m) = Ret (Some m)"
proof (cases m)
  case (Parse n q oids)
  then show ?thesis using parse_parse_encode assms by (simp add: sendable_def)
next
  case (Bind p s codes params)
  then show ?thesis using parse_bind_encode assms by simp
next
  case (Query q)
  then show ?thesis
    using assms read_cstring_first [of q "[]"]
    by (simp add: sendable_def parse_payload_def msg_tags parse_query_message_def)
next
  case (Close k n)
  then show ?thesis
    using assms read_cstring_cstr [of n "[byte_of k]" "[]"]
    by (simp add: sendable_def parse_payload_def msg_tags parse_close_message_def)
qed (use assms in \<open>auto simp: sendable_def parse_payload_def msg_tags parse_execute_message_def\<close>)

section \<open>Frames\<close>

lemma front_status_frame:
  assumes "4 + length body \<le> MAX_FRONTEND_MESSAGE_SIZE"
  shows "front_status (frame tag body @ rest) = FrameOf (4 + length body)"
proof -
  let ?n = "int (4 + length body)"
  have n: "?n < 2147483648" using assms by (simp add: MAX_FRONTEND_MESSAGE_SIZE_def)
  obtain a b c d where w: "be32 ?n = [a, b, c, d]" by (rule be32_elems)
  have "i32_from_be a b c d = ?n" by (rule i32_be32 [OF _ n w]) simp
  moreover have "as_usize ?n = 4 + length body" using n by (simp add: as_usize_nonneg del: of_nat_add)
  ultimately show ?thesis
    using assms w by (simp add: front_status_def frame_def Let_def)
qed

lemma scan_frame:
  assumes "4 + length body \<le> MAX_FRONTEND_MESSAGE_SIZE"
  shows "scan_frames front_status p (frame tag body @ rest) =
    run_bind (p tag body) (\<lambda>msg.
      run_map (\<lambda>(ms, buf, e). (case msg of None \<Rightarrow> ms | Some m \<Rightarrow> m # ms, buf, e))
        (scan_frames front_status p rest))"
proof -
  have "front_status (tag # be32 (int (4 + length body)) @ body @ rest) = FrameOf (4 + length body)"
    using front_status_frame [OF assms, of tag rest] by (simp add: frame_def)
  then show ?thesis by (simp add: frame_def)
qed

lemma scan_encoded:
  "list_all sendable ms \<Longrightarrow>
   scan_frames front_status (parse_payload oc) (concat (map encode_message ms)) = Ret (ms, [], False)"
proof (induction ms)
  case (Cons m ms)
  then have "4 + length (message_body m) \<le> MAX_FRONTEND_MESSAGE_SIZE" by (simp add: sendable_def)
  then show ?case
    using Cons parse_payload_encode [of m oc] by (simp add: encode_message_def scan_frame)
qed simp

lemma front_need_more_prefix:
  assumes "front_status buf = NeedMore" "length buf \<ge> 5"
  shows "length buf \<le> as_usize (i32_from_be (buf ! 1) (buf ! 2) (buf ! 3) (buf ! 4))"
  using assms by (auto simp: front_status_def Let_def split: if_splits)

section \<open>Properties of the extractor\<close>

text \<open>
  C1.  Reassembly: any sequence of well-formed frontend messages, encoded in the wire format and
  cut into reads at arbitrary points, is extracted completely, in order and exactly once, and
  nothing is left in the buffer.  Holds with and without overflow checks.
\<close>

theorem extract_roundtrip:
  assumes "list_all sendable ms" and "concat reads = concat (map encode_message ms)"
  shows "extract_all oc [] reads = Ret (ms, [])"
  using extract_all_concat [of "[]" oc reads] scan_encoded [OF assms(1), of oc] assms(2)
  by (simp add: extract_messages_def)

theorem extract_roundtrip_witness:
  "extract_all True [] [[81, 0, 0], [0, 13, 83, 69, 76], [69, 67, 84, 32, 49, 0, 83, 0, 0, 0], [4]]
     = Ret ([Query (lit ''SELECT 1''), Sync], [])"
  by (rule extract_roundtrip)
    (simp_all add: sendable_def c_text_def scalar_def lit_def MAX_FRONTEND_MESSAGE_SIZE_def cstr_def
      encode_message_def frame_def msg_tags as_bytes_def utf8_enc_def be32_def byte_of_def Let_def)

text \<open>
  C20.  Chunk invariance for arbitrary bytes: unless the stream contains a framing error, feeding it
  read by read gives the same messages, the same retained bytes and the same panics as feeding it
  at once.
\<close>

theorem extract_chunking:
  assumes "\<forall>ms buf. scan_frames front_status (parse_payload oc) (concat reads) \<noteq> Ret (ms, buf, True)"
  shows "extract_all oc [] reads = extract_messages oc [] (concat reads)"
  using extract_all_concat assms by simp

theorem extract_chunking_witness:
  "extract_all False [] [[81, 0, 0], [0, 6, 72, 0, 83]]
     = extract_messages False [] [81, 0, 0, 0, 6, 72, 0, 83]"
  using extract_chunking [of False "[[81, 0, 0], [0, 6, 72, 0, 83]]"]
  by (simp add: front_status_def i32_from_be_def be_nat4 signed_of_def as_usize_def Let_def
      MAX_FRONTEND_MESSAGE_SIZE_def parse_payload_def msg_tags)

text \<open>
  The reassembly buffer is bounded: after any read it holds at most
  \<open>MAX_FRONTEND_MESSAGE_SIZE\<close> bytes, and they are a proper part of one message (or a header
  that is not complete yet).
\<close>

lemma extract_buffer_bounded:
  assumes "extract_messages oc buf data = Ret (ms, buf')"
  shows "length buf' \<le> MAX_FRONTEND_MESSAGE_SIZE \<and>
    (5 \<le> length buf' \<longrightarrow>
      length buf' \<le> as_usize (i32_from_be (buf' ! 1) (buf' ! 2) (buf' ! 3) (buf' ! 4)))"
  using extract_messages_rest [OF assms] front_need_more_bound front_need_more_prefix by auto

text \<open>
  A negative parameter-type count in a Parse message: the count is widened to \<open>usize\<close>, the
  vector's capacity overflows and the extractor panics, whatever follows in the stream and in
  both builds.
\<close>

lemma parse_negative_count_panics:
  assumes "c_text name" and "c_text query" and "- 32768 \<le> n" and "n < 0"
    and "8 + blen name + blen query + length rest \<le> MAX_FRONTEND_MESSAGE_SIZE"
  shows "extract_messages oc [] (frame MSG_PARSE (cstr name @ cstr query @ be16 n @ rest) @ later) = Panic"
proof -
  let ?pre = "cstr name @ cstr query" and ?body = "cstr name @ cstr query @ be16 n @ rest"
  have "i16_from_be ((?pre @ be16 n @ rest) ! length ?pre) ((?pre @ be16 n @ rest) ! Suc (length ?pre)) = n"
    using assms by (intro read_be16) auto
  moreover have "\<not> with_capacity_ok 4 (as_usize n)"
    using as_usize_neg [of n] assms by (simp add: with_capacity_ok_def)
  ultimately have "parse_parse_message ?body = Panic"
    using assms by (simp add: parse_parse_message_def Let_def)
  then show ?thesis
    using assms by (simp add: extract_messages_def scan_frame parse_payload_def msg_tags)
qed

lemma negative_length_panics:
  assumes "len < 0" and "- int off \<le> len" and "off \<le> 2147483647" and "off \<le> length xs"
  shows "run_bind (usize_add oc off (as_usize len))
    (\<lambda>stop. if stop > length xs then Ret None else run_bind (slice xs off stop) (f stop)) = Panic"
proof -
  have u: "int (as_usize len) = 2 ^ 64 + len" using as_usize_neg [of len] assms by simp
  have sum: "int (off + as_usize len) = 2 ^ 64 + (int off + len)" using u by simp
  define r where "r = nat (int off + len)"
  have r: "off + as_usize len = 2 ^ 64 + r" "r < off" using sum assms by (simp_all add: r_def)
  have m: "(2 ^ 64 + r) mod 2 ^ 64 = r" using r assms by simp
  show ?thesis
    unfolding usize_add_def r usize_modulus_def m using r assms by (simp add: slice_def)
qed

lemma read_params_negative:
  assumes "i32_from_be (xs ! off) (xs ! (off + 1)) (xs ! (off + 2)) (xs ! (off + 3)) = len"
    and "len < - 1" and "- int (off + 4) \<le> len" and "off + 4 \<le> 2147483647" and "off + 4 \<le> length xs"
  shows "read_params oc xs off (Suc n) = Panic"
  using assms negative_length_panics [of len "off + 4" xs oc] by (simp add: Let_def)

text \<open>
  A parameter length below \<open>-1\<close> in a Bind message, not below minus its offset in the
  payload, makes the extractor panic: with overflow checks on the addition, without them on the
  slice whose end wrapped below its start.
\<close>

lemma bind_negative_length_panics:
  assumes "c_text portal" and "c_text stmt" and "- int (blen portal + blen stmt + 10) \<le> len" and "len < - 1"
    and "0 < k" and "k < 32768"
    and "14 + blen portal + blen stmt + length rest \<le> MAX_FRONTEND_MESSAGE_SIZE"
  shows "extract_messages oc []
    (frame MSG_BIND (cstr portal @ cstr stmt @ be16 0 @ be16 k @ be32 len @ rest) @ later) = Panic"
proof -
  let ?pre = "cstr portal @ cstr stmt" and ?tail = "be32 len @ rest"
  let ?body = "cstr portal @ cstr stmt @ be16 0 @ be16 k @ be32 len @ rest"
  obtain a b c d where w: "be32 len = [a, b, c, d]" by (rule be32_elems)
  have off: "blen portal + blen stmt + 10 \<le> 2147483647"
    using assms by (simp add: MAX_FRONTEND_MESSAGE_SIZE_def)
  have len: "i32_from_be a b c d = len" using i32_be32 [OF _ _ w] assms off by simp
  obtain n where k: "nat k = Suc n" using assms by (cases "nat k") auto
  have "read_params oc ((?pre @ be16 0 @ be16 k) @ be32 len @ rest)
      (length (?pre @ be16 0 @ be16 k)) (Suc n) = Panic"
    by (rule read_params_negative [where len = len])
      (use assms off len w in \<open>simp_all add: nth_append\<close>)
  moreover have "i16_from_be ((?pre @ be16 0 @ be16 k @ ?tail) ! length ?pre)
      ((?pre @ be16 0 @ be16 k @ ?tail) ! Suc (length ?pre)) = 0"
    by (intro read_be16) auto
  moreover have "i16_from_be (((?pre @ be16 0) @ be16 k @ ?tail) ! length (?pre @ be16 0))
      (((?pre @ be16 0) @ be16 k @ ?tail) ! Suc (length (?pre @ be16 0))) = k"
    using assms by (intro read_be16) auto
  ultimately have "parse_bind_message oc ?body = Panic"
    using assms k
    by (simp add: parse_bind_message_def Let_def as_usize_nonneg with_capacity_ok_def Suc6
        del: read_params.simps)
  then show ?thesis
    using assms by (simp add: extract_messages_def scan_frame parse_payload_def msg_tags)
qed

end
