(* ===== verification/Bind_Params.thy ===== *)
theory Bind_Params
  imports Rust_Str
begin

text \<open>
  \<open>protocol/bind.rs\<close>, the decoding of Bind parameters, and \<open>redact_param\<close> of
  \<open>proxy/connection.rs\<close>.  Floating-point values are bit patterns; reading a float from text is a
  parameter.
\<close>

section \<open>Parameter values\<close>

text \<open>The variants of \<open>ParamValue\<close> that the sources construct or match.\<close>

datatype param_value =
    PNull
  | PBool bool
  | PInt16 int
  | PInt32 int
  | PInt64 int
  | PFloat32 "32 word"
  | PFloat64 "64 word"
  | PNumeric rstr
  | PText rstr
  | PBytes bytes
  | PDate int
  | PTime int
  | PTimestamp int
  | PTimestampTz int
  | PInterval int int int
  | PUuid bytes
  | PJson rstr
  | PArray "param_value list" "int list"
  | PRange "param_value option" "param_value option" bool bool
  | PComposite "param_value list"
  | PUnknown nat bytes

fun redact_param :: "param_value \<Rightarrow> param_value" where
  "redact_param PNull = PNull"
| "redact_param (PBool _) = PBool False"
| "redact_param (PInt16 _) = PInt16 0"
| "redact_param (PInt32 _) = PInt32 0"
| "redact_param (PInt64 _) = PInt64 0"
| "redact_param (PFloat32 _) = PFloat32 0"
| "redact_param (PFloat64 _) = PFloat64 0"
| "redact_param (PNumeric _) = PNumeric []"
| "redact_param (PText _) = PText []"
| "redact_param (PBytes _) = PBytes []"
| "redact_param (PDate _) = PDate 0"
| "redact_param (PTime _) = PTime 0"
| "redact_param (PTimestamp _) = PTimestamp 0"
| "redact_param (PTimestampTz _) = PTimestampTz 0"
| "redact_param (PInterval _ _ _) = PInterval 0 0 0"
| "redact_param (PUuid _) = PUuid (replicate 16 0)"
| "redact_param (PJson _) = PJson []"
| "redact_param (PArray elements dimensions) = PArray (map redact_param elements) dimensions"
| "redact_param (PRange lower upper lower_inc upper_inc) =
     PRange (map_option redact_param lower) (map_option redact_param upper) lower_inc upper_inc"
| "redact_param (PComposite fs) = PComposite (map redact_param fs)"
| "redact_param (PUnknown oid _) = PUnknown oid []"

section \<open>Type OIDs\<close>

definition OID_BOOL :: nat where "OID_BOOL = 16"
definition OID_BYTEA :: nat where "OID_BYTEA = 17"
definition OID_INT8 :: nat where "OID_INT8 = 20"
definition OID_INT2 :: nat where "OID_INT2 = 21"
definition OID_INT4 :: nat where "OID_INT4 = 23"
definition OID_TEXT :: nat where "OID_TEXT = 25"
definition OID_OID :: nat where "OID_OID = 26"
definition OID_FLOAT4 :: nat where "OID_FLOAT4 = 700"
definition OID_FLOAT8 :: nat where "OID_FLOAT8 = 701"
definition OID_VARCHAR :: nat where "OID_VARCHAR = 1043"
definition OID_NUMERIC :: nat where "OID_NUMERIC = 1700"
definition OID_UUID :: nat where "OID_UUID = 2950"
definition OID_JSON :: nat where "OID_JSON = 114"
definition OID_JSONB :: nat where "OID_JSONB = 3802"

lemmas oids = OID_BOOL_def OID_BYTEA_def OID_INT8_def OID_INT2_def OID_INT4_def OID_TEXT_def OID_OID_def
  OID_FLOAT4_def OID_FLOAT8_def OID_VARCHAR_def OID_NUMERIC_def OID_UUID_def OID_JSON_def OID_JSONB_def

section \<open>Text format\<close>

definition hex_digit :: "rchar \<Rightarrow> nat option" where
  "hex_digit c = (if 48 \<le> c \<and> c \<le> 57 then Some (c - 48)
                  else if 65 \<le> c \<and> c \<le> 70 then Some (c - 55)
                  else if 97 \<le> c \<and> c \<le> 102 then Some (c - 87) else None)"

text \<open>
  \<open>u8::from_str_radix(_, 16)\<close> on a slice of two bytes: a plus sign is allowed before a digit.
\<close>

definition u8_from_hex :: "rstr \<Rightarrow> byte option" where
  "u8_from_hex s =
     (case s of
        [a, b] \<Rightarrow>
          (if a = 43 then map_option byte_of (hex_digit b)
           else case hex_digit a of
                  None \<Rightarrow> None
                | Some x \<Rightarrow> map_option (\<lambda>y. byte_of (16 * x + y)) (hex_digit b))
      | _ \<Rightarrow> None)"

text \<open>The bytes of \<open>hex[i..i + 2]\<close> for every other \<open>i\<close>; collecting stops at the first error.\<close>

function hex_pairs :: "rstr \<Rightarrow> nat \<Rightarrow> bytes option run" where
  "hex_pairs hex i =
     (if i < blen hex then
        run_bind (index_from hex i) (\<lambda>r. run_bind (index_to r 2) (\<lambda>pair.
          case u8_from_hex pair of
            None \<Rightarrow> Ret None
          | Some b \<Rightarrow> run_map (map_option (Cons b)) (hex_pairs hex (i + 2))))
      else Ret (Some []))"
  by pat_completeness auto
termination by (relation "measure (\<lambda>(hex, i). blen hex - i)") auto

declare hex_pairs.simps [simp del]

definition uuid_bytes :: "rstr \<Rightarrow> bytes" where
  "uuid_bytes hex =
     map (\<lambda>i. case u8_from_hex (take 2 (drop (2 * i) hex)) of Some b \<Rightarrow> b | None \<Rightarrow> 0) [0..<16]"

record float_text =
  parse_f32 :: "rstr \<Rightarrow> 32 word option"
  parse_f64 :: "rstr \<Rightarrow> 64 word option"

definition or_text :: "rstr \<Rightarrow> param_value option \<Rightarrow> param_value" where
  "or_text s p = (case p of Some v \<Rightarrow> v | None \<Rightarrow> PText s)"

definition decode_text_param :: "float_text \<Rightarrow> bytes \<Rightarrow> nat \<Rightarrow> param_value run" where
  "decode_text_param F data oid =
     (case from_utf8 data of
        None \<Rightarrow> Ret (PBytes data)
      | Some s \<Rightarrow>
          if oid = OID_BOOL then
            Ret (if s = lit ''t'' \<or> s = lit ''true'' \<or> s = lit ''TRUE'' \<or> s = lit ''1'' then PBool True
                 else if s = lit ''f'' \<or> s = lit ''false'' \<or> s = lit ''FALSE'' \<or> s = lit ''0'' then PBool False
                 else PText s)
          else if oid = OID_INT2 then Ret (or_text s (map_option PInt16 (parse_i16 s)))
          else if oid = OID_INT4 \<or> oid = OID_OID then Ret (or_text s (map_option PInt32 (parse_i32 s)))
          else if oid = OID_INT8 then Ret (or_text s (map_option PInt64 (parse_i64 s)))
          else if oid = OID_FLOAT4 then Ret (or_text s (map_option PFloat32 (parse_f32 F s)))
          else if oid = OID_FLOAT8 then Ret (or_text s (map_option PFloat64 (parse_f64 F s)))
          else if oid = OID_NUMERIC then Ret (PNumeric s)
          else if oid = OID_TEXT \<or> oid = OID_VARCHAR then Ret (PText s)
          else if oid = OID_JSON \<or> oid = OID_JSONB then Ret (PJson s)
          else if oid = OID_UUID then
            (let hex = filter (\<lambda>c. hex_digit c \<noteq> None) s
             in Ret (if length hex = 32 then PUuid (uuid_bytes hex) else PText s))
          else if oid = OID_BYTEA then
            (case strip_prefix s [92, 120] of
               Some hex \<Rightarrow> run_map (\<lambda>bs. or_text s (map_option PBytes bs)) (hex_pairs hex 0)
             | None \<Rightarrow> Ret (PText s))
          else Ret (PText s))"

section \<open>Binary format\<close>

definition i64_from_be :: "bytes \<Rightarrow> int" where
  "i64_from_be bs = signed_of 64 (be_nat bs)"

definition decode_binary_param :: "bytes \<Rightarrow> nat \<Rightarrow> param_value" where
  "decode_binary_param data oid =
     (if oid = OID_BOOL then
        if length data = 1 then PBool (data ! 0 \<noteq> 0) else PUnknown oid data
      else if oid = OID_INT2 then
        if length data = 2 then PInt16 (i16_from_be (data ! 0) (data ! 1)) else PUnknown oid data
      else if oid = OID_INT4 \<or> oid = OID_OID then
        if length data = 4 then PInt32 (i32_from_be (data ! 0) (data ! 1) (data ! 2) (data ! 3))
        else PUnknown oid data
      else if oid = OID_INT8 then
        if length data = 8 then PInt64 (i64_from_be data) else PUnknown oid data
      else if oid = OID_FLOAT4 then
        if length data = 4 then PFloat32 (word_of_nat (be_nat data)) else PUnknown oid data
      else if oid = OID_FLOAT8 then
        if length data = 8 then PFloat64 (word_of_nat (be_nat data)) else PUnknown oid data
      else if oid = OID_UUID then
        if length data = 16 then PUuid data else PUnknown oid data
      else if oid = OID_TEXT \<or> oid = OID_VARCHAR then
        (case from_utf8 data of Some s \<Rightarrow> PText s | None \<Rightarrow> PBytes data)
      else if oid = OID_BYTEA then PBytes data
      else if oid = OID_JSON \<or> oid = OID_JSONB then
        (let json_data = (if oid = OID_JSONB \<and> data \<noteq> [] then drop 1 data else data)
         in case from_utf8 json_data of Some s \<Rightarrow> PJson s | None \<Rightarrow> PUnknown oid data)
      else PUnknown oid data)"

section \<open>Decoding the parameters of a Bind\<close>

definition decode_param :: "float_text \<Rightarrow> bytes \<Rightarrow> nat \<Rightarrow> int \<Rightarrow> param_value run" where
  "decode_param F data oid format =
     (if format = 0 then decode_text_param F data oid else Ret (decode_binary_param data oid))"

definition get_format_code :: "int list \<Rightarrow> nat \<Rightarrow> int" where
  "get_format_code format_codes index =
     (if length format_codes = 0 then 0
      else if length format_codes = 1 then format_codes ! 0
      else if index < length format_codes then format_codes ! index else 0)"

definition oid_at :: "nat list \<Rightarrow> nat \<Rightarrow> nat" where
  "oid_at param_oids i = (if i < length param_oids then param_oids ! i else 0)"

fun decode_from ::
    "float_text \<Rightarrow> nat \<Rightarrow> bytes option list \<Rightarrow> int list \<Rightarrow> nat list \<Rightarrow> param_value list run" where
  "decode_from F i [] format_codes param_oids = Ret []"
| "decode_from F i (raw # raws) format_codes param_oids =
     run_bind (case raw of
                 None \<Rightarrow> Ret PNull
               | Some data \<Rightarrow> decode_param F data (oid_at param_oids i) (get_format_code format_codes i))
       (\<lambda>v. run_map (Cons v) (decode_from F (Suc i) raws format_codes param_oids))"

definition decode_params ::
    "float_text \<Rightarrow> bytes option list \<Rightarrow> int list \<Rightarrow> nat list \<Rightarrow> param_value list run" where
  "decode_params F params_raw format_codes param_oids = decode_from F 0 params_raw format_codes param_oids"

section \<open>Redaction\<close>

text \<open>
  Equality up to the values: same variant, same OID, same array dimensions and range bounds, same
  shape of the components.
\<close>

fun same_shape :: "param_value \<Rightarrow> param_value \<Rightarrow> bool" where
  "same_shape PNull q = (q = PNull)"
| "same_shape (PBool _) q = (\<exists>x. q = PBool x)"
| "same_shape (PInt16 _) q = (\<exists>x. q = PInt16 x)"
| "same_shape (PInt32 _) q = (\<exists>x. q = PInt32 x)"
| "same_shape (PInt64 _) q = (\<exists>x. q = PInt64 x)"
| "same_shape (PFloat32 _) q = (\<exists>x. q = PFloat32 x)"
| "same_shape (PFloat64 _) q = (\<exists>x. q = PFloat64 x)"
| "same_shape (PNumeric _) q = (\<exists>x. q = PNumeric x)"
| "same_shape (PText _) q = (\<exists>x. q = PText x)"
| "same_shape (PBytes _) q = (\<exists>x. q = PBytes x)"
| "same_shape (PDate _) q = (\<exists>x. q = PDate x)"
| "same_shape (PTime _) q = (\<exists>x. q = PTime x)"
| "same_shape (PTimestamp _) q = (\<exists>x. q = PTimestamp x)"
| "same_shape (PTimestampTz _) q = (\<exists>x. q = PTimestampTz x)"
| "same_shape (PInterval _ _ _) q = (\<exists>x y z. q = PInterval x y z)"
| "same_shape (PUuid _) q = (\<exists>x. q = PUuid x)"
| "same_shape (PJson _) q = (\<exists>x. q = PJson x)"
| "same_shape (PArray es ds) q = (\<exists>es'. q = PArray es' ds \<and> list_all2 same_shape es es')"
| "same_shape (PRange lo up li ui) q =
     (\<exists>lo' up'. q = PRange lo' up' li ui \<and> rel_option same_shape lo lo' \<and> rel_option same_shape up up')"
| "same_shape (PComposite fs) q = (\<exists>fs'. q = PComposite fs' \<and> list_all2 same_shape fs fs')"
| "same_shape (PUnknown oid _) q = (\<exists>x. q = PUnknown oid x)"

lemma map_eq_list_all2:
  "(\<And>x y. x \<in> set xs \<Longrightarrow> f x = f y \<longleftrightarrow> R x y) \<Longrightarrow> map f xs = map f ys \<longleftrightarrow> list_all2 R xs ys"
proof (induction xs arbitrary: ys)
  case (Cons x xs)
  then show ?case by (cases ys) auto
qed auto


lemma redact_eq_iff: "redact_param p = redact_param q \<longleftrightarrow> same_shape p q"
proof (induction p arbitrary: q)
  case (PArray es ds)
  then show ?case by (cases q) (auto simp: map_eq_list_all2)
next
  case (PRange lo up li ui)
  then show ?case by (cases q) (auto simp: rel_option_iff map_option_case split: option.splits)
next
  case (PComposite fs)
  then show ?case by (cases q) (auto simp: map_eq_list_all2)
qed (case_tac q; auto)+

section \<open>Hexadecimal text\<close>

fun hex_bytes :: "rstr \<Rightarrow> bytes" where
  "hex_bytes (a # b # r) = byte_of (16 * the (hex_digit a) + the (hex_digit b)) # hex_bytes r"
| "hex_bytes _ = []"

definition hex_text :: "rstr \<Rightarrow> bool" where
  "hex_text s = list_all (\<lambda>c. hex_digit c \<noteq> None) s"

lemma hex_text_ascii: "hex_text s \<Longrightarrow> ascii s"
  by (auto simp: hex_text_def ascii_def list_all_iff hex_digit_def split: if_splits)

lemma hex_digit_not_plus: "hex_digit c \<noteq> None \<Longrightarrow> c \<noteq> 43"
  by (auto simp: hex_digit_def split: if_splits)

lemma blen_ascii: "ascii s \<Longrightarrow> blen s = length s"
  by (induction s) (auto simp: blen_def len_utf8_def)

lemma hex_pairs_hex:
  assumes "hex_text hex" and "i \<le> length hex"
  shows "hex_pairs hex i = (if even (length hex - i) then Ret (Some (hex_bytes (drop i hex))) else Panic)"
  using assms
proof (induction hex i rule: hex_pairs.induct)
  case (1 hex i)
  have asc: "ascii hex" using 1(2) by (rule hex_text_ascii)
  consider (fin) "i = length hex" | (odd) "length hex = i + 1" | (pair) "i + 2 \<le> length hex"
    using 1(3) by linarith
  then show ?case
  proof cases
    case fin
    then show ?thesis by (subst hex_pairs.simps) (simp add: blen_ascii [OF asc])
  next
    case odd
    have "index_to (drop i hex) 2 = Panic"
      using odd asc by (simp add: index_to_def ascii_str_to)
    then show ?thesis
      using odd asc by (subst hex_pairs.simps) (simp add: blen_ascii [OF asc])
  next
    case pair
    then obtain a b r where r: "drop i hex = a # b # r"
      by (cases "drop i hex"; cases "tl (drop i hex)") (auto simp: drop_eq_Nil Cons_nth_drop_Suc [symmetric])
    have "set (drop i hex) \<subseteq> set hex" by (rule set_drop_subset)
    then have ab: "hex_digit a \<noteq> None" "hex_digit b \<noteq> None"
      using 1(2) r by (auto simp: hex_text_def list_all_iff)
    have "ascii (drop i hex)" using asc by simp
    then have pr: "index_to (drop i hex) 2 = Ret [a, b]" unfolding r by simp
    have u: "u8_from_hex [a, b] = Some (byte_of (16 * the (hex_digit a) + the (hex_digit b)))"
      using ab hex_digit_not_plus [OF ab(1)] by (auto simp: u8_from_hex_def)
    have "drop (i + 2) hex = r" using r by (metis add.commute drop_drop drop_Suc_Cons drop0 numeral_2_eq_2)
    moreover have "even (length hex - (i + 2)) \<longleftrightarrow> even (length hex - i)" using pair by auto
    moreover have "hex_pairs hex (i + 2)
        = (if even (length hex - (i + 2)) then Ret (Some (hex_bytes (drop (i + 2) hex))) else Panic)"
      by (rule 1(1) [OF _ u]) (use pair 1(2) blen_ascii [OF asc] in simp_all)
    ultimately show ?thesis
      using pair asc r by (subst hex_pairs.simps) (simp add: pr [unfolded r] u blen_ascii [OF asc])
  qed
qed

lemma decode_from_Panic:
  "decode_from F i raws fcs oids = Panic \<Longrightarrow>
   \<exists>k < length raws. \<exists>data. raws ! k = Some data
     \<and> decode_param F data (oid_at oids (i + k)) (get_format_code fcs (i + k)) = Panic"
proof (induction F i raws fcs oids rule: decode_from.induct)
  case (2 F i raw raws fcs oids)
  from 2(2) consider data where "raw = Some data"
      "decode_param F data (oid_at oids i) (get_format_code fcs i) = Panic"
    | "decode_from F (Suc i) raws fcs oids = Panic"
    by (auto simp: run_bind_Panic_iff run_map_def split: option.splits)
  then show ?case
  proof cases
    case 1
    then show ?thesis by (intro exI [of _ 0]) auto
  next
    case 2
    then obtain k data where "k < length raws" "raws ! k = Some data"
      "decode_param F data (oid_at oids (Suc i + k)) (get_format_code fcs (Suc i + k)) = Panic"
      using "2.IH" by blast
    then show ?thesis by (intro exI [of _ "Suc k"]) auto
  qed
qed simp

lemma decode_param_Panic:
  assumes "decode_param F data oid format = Panic"
  shows "format = 0 \<and> oid = OID_BYTEA \<and> (\<exists>hex. from_utf8 data = Some ([92, 120] @ hex) \<and> hex_pairs hex 0 = Panic)"
proof -
  have t: "decode_text_param F data oid = Panic" and f: "format = 0"
    using assms by (auto simp: decode_param_def split: if_splits)
  obtain s hex where "from_utf8 data = Some s" "oid = OID_BYTEA" "strip_prefix s [92, 120] = Some hex"
    "hex_pairs hex 0 = Panic"
    using t unfolding decode_text_param_def
    by (auto simp: Let_def run_map_def run_bind_Panic_iff split: option.splits if_splits)
  then show ?thesis
    using f by (auto simp: strip_prefix_def starts_with_def split: if_splits)
       (metis append_Cons append_Nil append_take_drop_id)
qed

section \<open>Properties of parameters\<close>

text \<open>
  What redaction keeps of a parameter is exactly its shape: two parameters are redacted alike
  if and only if they differ only in values, at every depth of arrays, ranges and composites.
\<close>

lemma redaction_keeps_shape_only: "redact_param p = redact_param q \<longleftrightarrow> same_shape p q"
  by (rule redact_eq_iff)

text \<open>
  Decoding the parameters of a Bind panics only on a text-format \<open>bytea\<close> that starts with
  backslash-x; on hexadecimal digits after that prefix it returns the bytes they denote when their
  number is even and panics when it is odd.
\<close>

lemma bytea_text_decoding:
  "(decode_params F raws fcs oids = Panic \<longrightarrow>
      (\<exists>i < length raws. oid_at oids i = OID_BYTEA \<and> get_format_code fcs i = 0
         \<and> (\<exists>data hex. raws ! i = Some data \<and> from_utf8 data = Some ([92, 120] @ hex))))
   \<and> (hex_text hex \<longrightarrow> decode_params F [Some (as_bytes ([92, 120] @ hex))] [] [OID_BYTEA] =
        (if even (length hex) then Ret [PBytes (hex_bytes hex)] else Panic))"
proof (intro conjI impI)
  assume "decode_params F raws fcs oids = Panic"
  from decode_from_Panic [OF this [unfolded decode_params_def]] obtain k data where
    "k < length raws" "raws ! k = Some data"
    "decode_param F data (oid_at oids k) (get_format_code fcs k) = Panic" by auto
  with decode_param_Panic show "\<exists>i < length raws. oid_at oids i = OID_BYTEA \<and> get_format_code fcs i = 0
      \<and> (\<exists>data hex. raws ! i = Some data \<and> from_utf8 data = Some ([92, 120] @ hex))" by blast
next
  assume h: "hex_text hex"
  have "list_all scalar ([92, 120] @ hex)" using ascii_scalar [OF hex_text_ascii [OF h]] by (simp add: scalar_def)
  then have "from_utf8 (as_bytes ([92, 120] @ hex)) = Some ([92, 120] @ hex)" by (rule from_utf8_as_bytes)
  moreover have "strip_prefix ([92, 120] @ hex) [92, 120] = Some hex" by (simp add: strip_prefix_def starts_with_def)
  ultimately show "decode_params F [Some (as_bytes ([92, 120] @ hex))] [] [OID_BYTEA] =
      (if even (length hex) then Ret [PBytes (hex_bytes hex)] else Panic)"
    using hex_pairs_hex [OF h, of 0]
    by (simp add: decode_params_def decode_param_def get_format_code_def oid_at_def decode_text_param_def oids
        or_text_def)
qed

section \<open>Types of decoded parameters\<close>

fun has_type :: "nat \<Rightarrow> param_value \<Rightarrow> bool" where
  "has_type oid PNull = True"
| "has_type oid (PBool _) = (oid = OID_BOOL)"
| "has_type oid (PInt16 i) = (oid = OID_INT2 \<and> - 32768 \<le> i \<and> i < 32768)"
| "has_type oid (PInt32 i) = ((oid = OID_INT4 \<or> oid = OID_OID) \<and> - 2147483648 \<le> i \<and> i < 2147483648)"
| "has_type oid (PInt64 i) = (oid = OID_INT8 \<and> - 9223372036854775808 \<le> i \<and> i < 9223372036854775808)"
| "has_type oid (PFloat32 _) = (oid = OID_FLOAT4)"
| "has_type oid (PFloat64 _) = (oid = OID_FLOAT8)"
| "has_type oid (PNumeric s) = (oid = OID_NUMERIC \<and> list_all scalar s)"
| "has_type oid (PText s) = list_all scalar s"
| "has_type oid (PBytes _) = True"
| "has_type oid (PUuid u) = (oid = OID_UUID \<and> length u = 16)"
| "has_type oid (PJson s) = ((oid = OID_JSON \<or> oid = OID_JSONB) \<and> list_all scalar s)"
| "has_type oid (PUnknown o' _) = (o' = oid)"
| "has_type oid _ = False"

lemma parse_signed_range: "parse_signed lo hi s = Some v \<Longrightarrow> lo \<le> v \<and> v \<le> hi"
  by (auto simp: parse_signed_def Let_def split: prod.splits option.splits if_splits)

lemma decode_text_type:
  assumes "decode_text_param F data oid = Ret v"
  shows "has_type oid v \<and> v \<noteq> PNull"
proof (cases "from_utf8 data")
  case None
  then show ?thesis using assms by (auto simp: decode_text_param_def)
next
  case (Some s)
  have s: "list_all scalar s" using from_utf8_sound [OF Some] by simp
  consider "oid = OID_INT2" | "oid = OID_INT4 \<or> oid = OID_OID" | "oid = OID_INT8" | "oid = OID_FLOAT4" | "oid = OID_FLOAT8"
    | "oid = OID_BYTEA" | "oid \<notin> {OID_INT2, OID_INT4, OID_OID, OID_INT8, OID_FLOAT4, OID_FLOAT8, OID_BYTEA}" by blast
  then show ?thesis
  proof cases
    case 1
    then have "v = or_text s (map_option PInt16 (parse_i16 s))" using assms Some by (simp add: decode_text_param_def oids)
    then show ?thesis using s 1 by (auto simp: or_text_def dest!: parse_signed_range split: option.split)
  next
    case 2
    then have "v = or_text s (map_option PInt32 (parse_i32 s))" using assms Some by (auto simp: decode_text_param_def oids)
    then show ?thesis using s 2 by (auto simp: or_text_def dest!: parse_signed_range split: option.split)
  next
    case 3
    then have "v = or_text s (map_option PInt64 (parse_i64 s))" using assms Some by (simp add: decode_text_param_def oids)
    then show ?thesis using s 3 by (auto simp: or_text_def dest!: parse_signed_range split: option.split)
  next
    case 4
    then have "v = or_text s (map_option PFloat32 (parse_f32 F s))" using assms Some by (simp add: decode_text_param_def oids)
    then show ?thesis using s 4 by (auto simp: or_text_def split: option.split)
  next
    case 5
    then have "v = or_text s (map_option PFloat64 (parse_f64 F s))" using assms Some by (simp add: decode_text_param_def oids)
    then show ?thesis using s 5 by (auto simp: or_text_def split: option.split)
  next
    case 6
    then have "(\<exists>p. v = or_text s (map_option PBytes p)) \<or> v = PText s"
      using assms Some by (auto simp: decode_text_param_def oids run_map_def run_bind_Ret_iff split: option.splits)
    then show ?thesis using s by (auto simp: or_text_def split: option.splits)
  next
    case 7
    then show ?thesis
      using assms Some s by (auto simp: decode_text_param_def Let_def uuid_bytes_def split: if_splits)
  qed
qed

lemma be_nat_acc_less: "be_nat_acc acc bs < (acc + 1) * 256 ^ length bs"
proof (induction bs arbitrary: acc)
  case (Cons b bs)
  have "256 * acc + n + 1 \<le> (acc + 1) * 256" if "n < 256" for n using that by simp
  from this [OF unat_byte_less [of b]] have "256 * acc + unat b + 1 \<le> (acc + 1) * 256" .
  then have "(256 * acc + unat b + 1) * 256 ^ length bs \<le> (acc + 1) * 256 * 256 ^ length bs" by (rule mult_le_mono1)
  from less_le_trans [OF Cons.IH this] show ?case by (simp only: be_nat_acc.simps list.size power_Suc mult.assoc add_0_right add_Suc_right)
qed simp

lemma i64_bounds: "length d = 8 \<Longrightarrow> - 9223372036854775808 \<le> i64_from_be d \<and> i64_from_be d < 9223372036854775808"
proof -
  assume "length d = 8"
  then have "be_nat d < 2 ^ 64" using be_nat_acc_less [of 0 d] by (simp add: be_nat_def)
  then show ?thesis using signed_of_bounds [of "be_nat d" 64] by (simp add: i64_from_be_def)
qed

lemma utf8_case_types:
  "has_type oid (case from_utf8 d of None \<Rightarrow> PBytes d' | Some s \<Rightarrow> PText s)"
  "(case from_utf8 d of None \<Rightarrow> PBytes d' | Some s \<Rightarrow> PText s) \<noteq> PNull"
  "oid = OID_JSON \<or> oid = OID_JSONB \<Longrightarrow> has_type oid (case from_utf8 d of None \<Rightarrow> PUnknown oid d' | Some s \<Rightarrow> PJson s)"
  "(case from_utf8 d of None \<Rightarrow> PUnknown oid d' | Some s \<Rightarrow> PJson s) \<noteq> PNull"
  by (auto split: option.split dest!: from_utf8_sound)

lemma typed_if:
  "(b \<Longrightarrow> has_type oid x \<and> x \<noteq> PNull) \<Longrightarrow> (\<not> b \<Longrightarrow> has_type oid y \<and> y \<noteq> PNull)
   \<Longrightarrow> has_type oid (if b then x else y) \<and> (if b then x else y) \<noteq> PNull"
  by simp

lemma decode_binary_type: "has_type oid (decode_binary_param data oid) \<and> decode_binary_param data oid \<noteq> PNull"
  unfolding decode_binary_param_def Let_def
  by (intro typed_if; simp add: i16_bounds i32_bounds i64_bounds utf8_case_types)

lemma decode_param_type: "decode_param F data oid format = Ret v \<Longrightarrow> has_type oid v \<and> v \<noteq> PNull"
  using decode_text_type decode_binary_type by (auto simp: decode_param_def split: if_splits)

lemma decode_from_type:
  "decode_from F i raws fcs param_oids = Ret vs \<Longrightarrow>
   length vs = length raws
   \<and> (\<forall>k < length raws. (vs ! k = PNull \<longleftrightarrow> raws ! k = None) \<and> has_type (oid_at param_oids (i + k)) (vs ! k))"
proof (induction F i raws fcs param_oids arbitrary: vs rule: decode_from.induct)
  case (2 F i raw raws fcs param_oids)
  from 2(2) obtain v vs' where v: "(case raw of None \<Rightarrow> Ret PNull
      | Some data \<Rightarrow> decode_param F data (oid_at param_oids i) (get_format_code fcs i)) = Ret v"
    and vs': "decode_from F (Suc i) raws fcs param_oids = Ret vs'" and vs: "vs = v # vs'"
    by (auto simp: run_bind_Ret_iff run_map_def)
  have first: "(v = PNull \<longleftrightarrow> raw = None) \<and> has_type (oid_at param_oids i) v"
    using v decode_param_type by (cases raw) auto
  have "(vs ! k = PNull \<longleftrightarrow> (raw # raws) ! k = None) \<and> has_type (oid_at param_oids (i + k)) (vs ! k)"
    if "k < length (raw # raws)" for k
    using that first "2.IH" [OF vs'] unfolding vs by (cases k) auto
  then show ?case using "2.IH" [OF vs'] vs by simp
qed simp



end
