(* ===== verification/Backend_Scan.thy ===== *)
theory Backend_Scan
  imports Wire_Format
begin

text \<open>
  The backend-to-client direction of \<open>protocol/extractor.rs\<close>: the scans of one read for a completed
  query, for the transaction status and for an error, and the older query scan.  The first two
  loops move by an offset that comes from the wire; they are partial functions, where \<open>None\<close> is a
  loop that never ends.
\<close>

section \<open>Completion and transaction status\<close>

text \<open>
  One move of the loops of \<open>is_query_complete\<close> and \<open>extract_ready_for_query\<close>: the length field, the
  validity test, the next offset; \<open>Ret None\<close> is the \<open>break\<close>.
\<close>

definition back_step :: "bool \<Rightarrow> bytes \<Rightarrow> nat \<Rightarrow> nat option run" where
  "back_step oc data offset =
     (let len = as_usize (i32_from_be (data ! (offset + 1)) (data ! (offset + 2)) (data ! (offset + 3))
                  (data ! (offset + 4)))
      in if len < 4 then Ret None
         else run_bind (usize_add oc (offset + 1) len) (\<lambda>stop.
           if stop > length data then Ret None
           else run_bind (usize_add oc 1 len) (\<lambda>step. run_map Some (usize_add oc offset step))))"

partial_function (option) is_query_complete_from :: "bool \<Rightarrow> bytes \<Rightarrow> nat \<Rightarrow> bool run option" where
  "is_query_complete_from oc data offset =
     (if offset + 5 \<le> length data then
        if data ! offset = MSG_COMMAND_COMPLETE \<or> data ! offset = MSG_READY_FOR_QUERY
        then Some (Ret True)
        else (case back_step oc data offset of
            Panic \<Rightarrow> Some Panic
          | Ret next \<Rightarrow>
              (case next of None \<Rightarrow> Some (Ret False)
               | Some offset' \<Rightarrow> is_query_complete_from oc data offset'))
      else Some (Ret False))"

definition is_query_complete :: "bool \<Rightarrow> bytes \<Rightarrow> bool run option" where
  "is_query_complete oc data =
     (if data = [] then Some (Ret False) else is_query_complete_from oc data 0)"

partial_function (option) ready_from ::
    "bool \<Rightarrow> bytes \<Rightarrow> nat \<Rightarrow> byte option \<Rightarrow> byte option run option" where
  "ready_from oc data offset last_status =
     (if offset + 5 \<le> length data then
        (let last_status = (if data ! offset = MSG_READY_FOR_QUERY \<and> offset + 6 \<le> length data
                            then Some (data ! (offset + 5)) else last_status)
         in case back_step oc data offset of
              Panic \<Rightarrow> Some Panic
            | Ret next \<Rightarrow>
                (case next of None \<Rightarrow> Some (Ret last_status)
                 | Some offset' \<Rightarrow> ready_from oc data offset' last_status))
      else Some (Ret last_status))"

definition extract_ready_for_query :: "bool \<Rightarrow> bytes \<Rightarrow> byte option run option" where
  "extract_ready_for_query oc data = ready_from oc data 0 None"

definition contains_ready_for_query :: "bool \<Rightarrow> bytes \<Rightarrow> bool run option" where
  "contains_ready_for_query oc data =
     map_option (run_map (\<lambda>s. s \<noteq> None)) (extract_ready_for_query oc data)"

section \<open>Error responses\<close>

record error_fields =
  severity :: "rstr option"
  sqlstate :: "rstr option"
  err_message :: "rstr option"

definition no_fields :: error_fields where
  "no_fields = \<lparr>severity = None, sqlstate = None, err_message = None\<rparr>"

definition set_field :: "byte \<Rightarrow> rstr \<Rightarrow> error_fields \<Rightarrow> error_fields" where
  "set_field field_type v flds =
     (if field_type = 83 then flds\<lparr>severity := Some v\<rparr>
      else if field_type = 67 then flds\<lparr>sqlstate := Some v\<rparr>
      else if field_type = 77 then flds\<lparr>err_message := Some v\<rparr>
      else flds)"

function parse_error_fields_from :: "bytes \<Rightarrow> error_fields \<Rightarrow> error_fields" where
  "parse_error_fields_from [] flds = flds"
| "parse_error_fields_from (field_type # rest) flds =
     (if field_type = 0 then flds
      else
        (let v = takeWhile (\<lambda>b. b \<noteq> 0) rest
         in if length v = length rest then flds
            else parse_error_fields_from (drop (length v + 1) rest)
                   (case from_utf8 v of Some s \<Rightarrow> set_field field_type s flds | None \<Rightarrow> flds)))"
  by pat_completeness auto
termination
  by (relation "measure (\<lambda>(bs, f). length bs)") auto

definition parse_error_fields :: "bytes \<Rightarrow> error_fields" where
  "parse_error_fields data = parse_error_fields_from data no_fields"

text \<open>
  An incomplete ErrorResponse is not a \<open>break\<close>: the scan goes on behind its header.  Any other
  message must have a length above 4, or the scan ends.
\<close>

function find_error_loop :: "bool \<Rightarrow> bytes \<Rightarrow> error_fields option run" where
  "find_error_loop oc bs =
     (if length bs < 5 then Ret None
      else
        (let len = as_usize (i32_from_be (bs ! 1) (bs ! 2) (bs ! 3) (bs ! 4)); rest = drop 5 bs
         in if bs ! 0 = MSG_ERROR_RESPONSE then
              run_bind (usize_sub oc len 4) (\<lambda>n.
                if n \<le> length rest then Ret (Some (parse_error_fields (take n rest)))
                else find_error_loop oc rest)
            else if 4 < len \<and> len - 4 \<le> length rest then find_error_loop oc (drop (len - 4) rest)
            else Ret None))"
  by pat_completeness auto
termination
  by (relation "measure (\<lambda>(oc, bs). length bs)") auto

declare find_error_loop.simps [simp del]

definition find_error_fields :: "bool \<Rightarrow> bytes \<Rightarrow> error_fields option run" where
  "find_error_fields oc data = (if data = [] then Ret None else find_error_loop oc data)"

text \<open>\<open>format!("{}: {}", a, b)\<close> of two optional parts; one part stands alone.\<close>

fun join_parts :: "rstr option \<Rightarrow> rstr option \<Rightarrow> rstr option" where
  "join_parts (Some a) (Some b) = Some (a @ lit '': '' @ b)"
| "join_parts (Some a) None = Some a"
| "join_parts None b = b"

definition extract_error :: "bool \<Rightarrow> bytes \<Rightarrow> rstr option run" where
  "extract_error oc data =
     run_map (\<lambda>r. case r of None \<Rightarrow> None | Some f \<Rightarrow> join_parts (severity f) (err_message f))
       (find_error_fields oc data)"

definition extract_error_scrubbed :: "bool \<Rightarrow> bytes \<Rightarrow> rstr option run" where
  "extract_error_scrubbed oc data =
     run_map (\<lambda>r. case r of None \<Rightarrow> None | Some f \<Rightarrow> join_parts (severity f) (sqlstate f))
       (find_error_fields oc data)"

section \<open>The older query scan\<close>

definition extract_query_text :: "bytes \<Rightarrow> rstr option" where
  "extract_query_text data =
     (case from_utf8 (takeWhile (\<lambda>b. b \<noteq> 0) data) of
        Some s \<Rightarrow> (let trimmed = trim s in if trimmed = [] then None else Some trimmed)
      | None \<Rightarrow> None)"

definition or_else :: "'a option \<Rightarrow> 'a option \<Rightarrow> 'a option" where
  "or_else a b = (case a of Some x \<Rightarrow> Some x | None \<Rightarrow> b)"

function parse_messages_loop :: "bool \<Rightarrow> bytes \<Rightarrow> rstr option \<Rightarrow> rstr option run" where
  "parse_messages_loop oc bs query =
     (if length bs < 5 then Ret query
      else
        (let len = as_usize (i32_from_be (bs ! 1) (bs ! 2) (bs ! 3) (bs ! 4)); rest = drop 5 bs
         in if bs ! 0 = MSG_QUERY then
              run_bind (usize_sub oc len 4) (\<lambda>n.
                if n \<le> length rest
                then parse_messages_loop oc (drop n rest)
                       (or_else (extract_query_text (take n rest)) query)
                else Ret query)
            else if bs ! 0 = MSG_PARSE then
              run_bind (usize_sub oc len 4) (\<lambda>n.
                if n \<le> length rest
                then
                  (let body = take n rest; after = dropWhile (\<lambda>b. b \<noteq> 0) body
                   in parse_messages_loop oc (drop n rest)
                        (if after = [] then query
                         else or_else (extract_query_text (drop 1 after)) query))
                else Ret query)
            else parse_messages_loop oc (drop 1 bs) query))"
  by pat_completeness auto
termination
  by (relation "measure (\<lambda>(oc, bs, q). length bs)") auto

declare parse_messages_loop.simps [simp del]

definition parse_messages_from :: "bool \<Rightarrow> bytes \<Rightarrow> rstr option run" where
  "parse_messages_from oc buffer =
     (if length buffer < 5 then Ret None else parse_messages_loop oc buffer None)"

text \<open>\<open>extract_query\<close> appends to its own buffer and clears it after every call.\<close>

definition extract_query :: "bool \<Rightarrow> bytes \<Rightarrow> bytes \<Rightarrow> (rstr option \<times> bytes) run" where
  "extract_query oc buffer data =
     (if data = [] then Ret (None, buffer)
      else run_map (\<lambda>q. (q, [])) (parse_messages_from oc (buffer @ data)))"

section \<open>Framed backend traffic\<close>

text \<open>What the two scans should find: the tags and bodies of the messages a read consists of.\<close>

definition back_frames :: "(byte \<times> bytes) list \<Rightarrow> bytes" where
  "back_frames ms = concat (map (\<lambda>(t, b). frame t b) ms)"

fun last_ready :: "byte option \<Rightarrow> (byte \<times> bytes) list \<Rightarrow> byte option" where
  "last_ready st [] = st"
| "last_ready st ((t, b) # ms) = last_ready (if t = MSG_READY_FOR_QUERY then Some (hd b) else st) ms"

text \<open>Messages a backend sends: a length that fits, one status byte in a ReadyForQuery.\<close>

definition back_valid :: "(byte \<times> bytes) list \<Rightarrow> bool" where
  "back_valid ms = list_all (\<lambda>(t, b). 4 + length b < 2 ^ 31 \<and> (t = MSG_READY_FOR_QUERY \<longrightarrow> length b = 1)) ms"

text \<open>The start of a message whose end is in a later read.\<close>

definition incomplete :: "bytes \<Rightarrow> bool" where
  "incomplete rest =
     (length rest < 5 \<or>
      (let n = i32_from_be (rest ! 1) (rest ! 2) (rest ! 3) (rest ! 4)
       in 4 \<le> n \<and> int (length rest) < 1 + n \<and> (rest ! 0 = MSG_READY_FOR_QUERY \<longrightarrow> length rest < 6)))"

text \<open>The fields of an ErrorResponse as a list of type and text.\<close>

definition encode_fields :: "(byte \<times> rstr) list \<Rightarrow> bytes" where
  "encode_fields fs = concat (map (\<lambda>(t, v). t # cstr v) fs) @ [0]"

definition safe_view :: "error_fields \<Rightarrow> rstr option \<times> rstr option" where
  "safe_view f = (severity f, sqlstate f)"

lemma length_frame [simp]: "length (frame t b) = 5 + length b"
  by (simp add: frame_def)

lemma frame_not_Nil [simp]: "frame t b \<noteq> []"
  by (simp add: frame_def)

lemma frame_header:
  assumes "4 + length b < 2 ^ 31"
  shows "as_usize (i32_from_be ((pre @ frame t b @ post) ! (length pre + 1))
      ((pre @ frame t b @ post) ! (length pre + 2)) ((pre @ frame t b @ post) ! (length pre + 3))
      ((pre @ frame t b @ post) ! (length pre + 4))) = 4 + length b"
    and "(pre @ frame t b @ post) ! length pre = t"
proof -
  let ?n = "int (4 + length b)"
  have n: "?n < 2147483648" using assms by simp
  obtain c d e f where w: "be32 ?n = [c, d, e, f]" by (rule be32_elems)
  have "i32_from_be c d e f = ?n" by (rule i32_be32 [OF _ n w]) simp
  moreover have "as_usize ?n = 4 + length b" using n by (simp add: as_usize_nonneg del: of_nat_add)
  ultimately show "as_usize (i32_from_be ((pre @ frame t b @ post) ! (length pre + 1))
      ((pre @ frame t b @ post) ! (length pre + 2)) ((pre @ frame t b @ post) ! (length pre + 3))
      ((pre @ frame t b @ post) ! (length pre + 4))) = 4 + length b"
    using w by (simp add: frame_def nth_append)
  show "(pre @ frame t b @ post) ! length pre = t" by (simp add: frame_def nth_append)
qed

lemma back_step_frame:
  assumes "4 + length b < 2 ^ 31" and "length (pre @ frame t b @ post) < 2 ^ 63"
  shows "back_step oc (pre @ frame t b @ post) (length pre) = Ret (Some (length (pre @ frame t b)))"
proof -
  have "usize_add oc (length pre + 1) (4 + length b) = Ret (length pre + 1 + (4 + length b))"
    "usize_add oc 1 (4 + length b) = Ret (1 + (4 + length b))"
    "usize_add oc (length pre) (1 + (4 + length b)) = Ret (length pre + (1 + (4 + length b)))"
    using assms by (auto intro!: usize_add_small simp: usize_modulus_def)
  then show ?thesis unfolding back_step_def frame_header(1) [OF assms(1)] by (simp add: Let_def)
qed

text \<open>A length field of \<open>-1\<close>: the next offset is the current one.\<close>

lemma back_step_minus_one:
  assumes "length pre < 2 ^ 62"
  shows "back_step oc (pre @ t # be32 (- 1) @ post) (length pre)
    = (if oc then Panic else Ret (Some (length pre)))"
proof -
  obtain a b c d where w: "be32 (- 1) = [a, b, c, d]" by (rule be32_elems)
  have "i32_from_be a b c d = - 1" by (rule i32_be32 [OF _ _ w]) auto
  moreover have "as_usize (- 1) = 18446744073709551615" by (simp add: as_usize_def)
  ultimately show ?thesis
    using w assms by (simp add: back_step_def nth_append usize_add_def usize_modulus_def)
qed

lemma back_frames_simps [simp]:
  "back_frames [] = []" "back_frames ((t, b) # ms) = frame t b @ back_frames ms"
  by (simp_all add: back_frames_def)

lemma back_step_incomplete:
  assumes "incomplete rest" and "5 \<le> length rest" and "length (pre @ rest) < 2 ^ 63"
  shows "back_step oc (pre @ rest) (length pre) = Ret None"
proof -
  let ?n = "i32_from_be (rest ! 1) (rest ! 2) (rest ! 3) (rest ! 4)"
  have n: "4 \<le> ?n" "int (length rest) < 1 + ?n" using assms(1,2) by (auto simp: incomplete_def Let_def)
  have u: "as_usize ?n = nat ?n" using n i32_bounds [of "rest ! 1" "rest ! 2" "rest ! 3" "rest ! 4"]
    by (simp add: as_usize_nonneg)
  have "nat ?n < 2 ^ 31" using i32_bounds(2) [of "rest ! 1" "rest ! 2" "rest ! 3" "rest ! 4"] n by simp
  then have "usize_add oc (length pre + 1) (nat ?n) = Ret (length pre + 1 + nat ?n)"
    using assms(3) by (intro usize_add_small) (simp add: usize_modulus_def)
  moreover have "length (pre @ rest) < length pre + 1 + nat ?n" using n by simp
  ultimately show ?thesis using n u by (simp add: back_step_def nth_append Let_def)
qed

lemma ready_from_frames:
  assumes "back_valid ms" and "incomplete rest" and "length (pre @ back_frames ms @ rest) < 2 ^ 63"
  shows "ready_from oc (pre @ back_frames ms @ rest) (length pre) st = Some (Ret (last_ready st ms))"
  using assms
proof (induction ms arbitrary: pre st)
  case Nil
  show ?case
  proof (cases "5 \<le> length rest")
    case True
    then show ?thesis
      using Nil back_step_incomplete [of rest pre oc]
      by (subst ready_from.simps) (auto simp: incomplete_def Let_def nth_append)
  next
    case False
    then show ?thesis by (subst ready_from.simps) simp
  qed
next
  case (Cons m ms)
  obtain t b where m: "m = (t, b)" by (cases m)
  have v: "4 + length b < 2 ^ 31" "t = MSG_READY_FOR_QUERY \<Longrightarrow> length b = 1" "back_valid ms"
    using Cons.prems(1) m by (auto simp: back_valid_def)
  let ?post = "back_frames ms @ rest" and ?data = "pre @ frame t b @ back_frames ms @ rest"
  have step: "back_step oc ?data (length pre) = Ret (Some (length (pre @ frame t b)))"
    using back_step_frame [OF v(1), of pre t ?post oc] Cons.prems(3) m by simp
  have tag: "?data ! length pre = t" using frame_header(2) [OF v(1), of pre t ?post] by simp
  have status: "t = MSG_READY_FOR_QUERY \<Longrightarrow> ?data ! (length pre + 5) = hd b"
    using v(2) by (cases b) (auto simp: frame_def nth_append)
  have rec: "ready_from oc ?data (length (pre @ frame t b)) st'
      = Some (Ret (last_ready st' ms))" for st'
    using Cons.IH [OF v(3) Cons.prems(2), of "pre @ frame t b"] Cons.prems(3) m by simp
  have "ready_from oc ?data (length pre) st =
      ready_from oc ?data (length (pre @ frame t b)) (if t = MSG_READY_FOR_QUERY then Some (hd b) else st)"
    using step tag status v(2) by (subst ready_from.simps) (auto simp: Let_def)
  then show ?case using rec m by simp
qed

lemma complete_from_frames:
  assumes "back_valid ms" and "incomplete rest" and "length (pre @ back_frames ms @ rest) < 2 ^ 63"
  shows "is_query_complete_from oc (pre @ back_frames ms @ rest) (length pre) =
    Some (Ret (list_ex (\<lambda>(t, b). t = MSG_COMMAND_COMPLETE \<or> t = MSG_READY_FOR_QUERY) ms
      \<or> 5 \<le> length rest \<and> (rest ! 0 = MSG_COMMAND_COMPLETE \<or> rest ! 0 = MSG_READY_FOR_QUERY)))"
  using assms
proof (induction ms arbitrary: pre)
  case Nil
  show ?case
  proof (cases "5 \<le> length rest")
    case True
    then show ?thesis
      using Nil back_step_incomplete [of rest pre oc]
      by (subst is_query_complete_from.simps) (auto simp: nth_append)
  next
    case False
    then show ?thesis by (subst is_query_complete_from.simps) simp
  qed
next
  case (Cons m ms)
  obtain t b where m: "m = (t, b)" by (cases m)
  have v: "4 + length b < 2 ^ 31" "back_valid ms"
    using Cons.prems(1) m by (auto simp: back_valid_def)
  let ?post = "back_frames ms @ rest" and ?data = "pre @ frame t b @ back_frames ms @ rest"
  have step: "back_step oc ?data (length pre) = Ret (Some (length (pre @ frame t b)))"
    using back_step_frame [OF v(1), of pre t ?post oc] Cons.prems(3) m by simp
  have tag: "?data ! length pre = t" using frame_header(2) [OF v(1), of pre t ?post] by simp
  note rec = Cons.IH [OF v(2) Cons.prems(2), of "pre @ frame t b"]
  have "is_query_complete_from oc ?data (length pre) =
      (if t = MSG_COMMAND_COMPLETE \<or> t = MSG_READY_FOR_QUERY then Some (Ret True)
       else is_query_complete_from oc ?data (length (pre @ frame t b)))"
    using step tag by (subst is_query_complete_from.simps) auto
  then show ?case using rec m Cons.prems(3) by simp
qed

text \<open>An offset whose move leads back to itself: the loop has no result.\<close>

lemma complete_from_stuck:
  assumes "is_query_complete_from oc data off = Some r" and "back_step oc data off = Ret (Some off)"
    and "off + 5 \<le> length data" and "data ! off \<noteq> MSG_COMMAND_COMPLETE" and "data ! off \<noteq> MSG_READY_FOR_QUERY"
  shows False
  using assms
  by (induction rule: is_query_complete_from.raw_induct [rotated, consumes 1]) simp

lemma ready_from_stuck:
  assumes "ready_from oc data off st = Some r" and "back_step oc data off = Ret (Some off)"
    and "off + 5 \<le> length data"
  shows False
  using assms
proof (induction rule: ready_from.raw_induct [rotated, consumes 1])
  case (1 f oc data off st r)
  then have "f oc data off st' = Some r \<Longrightarrow> False" for st' by blast
  then show ?case using 1 by (simp add: Let_def split: if_splits)
qed

section \<open>Error fields\<close>

lemma parse_fields_field:
  assumes "c_text v" and "t \<noteq> 0"
  shows "parse_error_fields_from (t # cstr v @ post) f = parse_error_fields_from post (set_field t v f)"
proof -
  have "takeWhile (\<lambda>b. b \<noteq> 0) (cstr v @ post) = as_bytes v"
    using as_bytes_nonzero [OF assms(1)] by (simp add: cstr_def takeWhile_append)
  moreover have "from_utf8 (as_bytes v) = Some v" using assms(1) by (simp add: from_utf8_as_bytes c_text_def)
  ultimately show ?thesis using assms(2) by (simp add: cstr_def Let_def)
qed

lemma parse_fields_encode:
  "list_all (\<lambda>(t, v). t \<noteq> 0 \<and> c_text v) fs \<Longrightarrow>
   parse_error_fields_from (encode_fields fs) f = fold (\<lambda>(t, v). set_field t v) fs f"
proof (induction fs arbitrary: f)
  case (Cons tv fs)
  obtain t v where tv: "tv = (t, v)" by (cases tv)
  have "encode_fields (tv # fs) = t # cstr v @ encode_fields fs" using tv by (simp add: encode_fields_def)
  then show ?case using Cons tv parse_fields_field [of v t "encode_fields fs" f] by simp
qed (simp add: encode_fields_def)

lemma find_error_frame:
  assumes "4 + length body < 2 ^ 31"
  shows "find_error_fields oc (frame MSG_ERROR_RESPONSE body @ post) = Ret (Some (parse_error_fields body))"
proof -
  let ?bs = "frame MSG_ERROR_RESPONSE body @ post"
  have h: "as_usize (i32_from_be (?bs ! 1) (?bs ! 2) (?bs ! 3) (?bs ! 4)) = 4 + length body"
    "?bs ! 0 = MSG_ERROR_RESPONSE"
    using frame_header [OF assms, of "[]" MSG_ERROR_RESPONSE post] by (simp_all add: numeral_2_eq_2)
  have "drop 5 ?bs = body @ post"
    using length_be32 [of "int (4 + length body)"] by (simp add: frame_def numeral_eq_Suc)
  then show ?thesis using h by (simp add: find_error_fields_def find_error_loop.simps [of oc ?bs] Let_def)
qed

lemma find_error_skip:
  assumes "4 + length body < 2 ^ 31" and "t \<noteq> MSG_ERROR_RESPONSE"
  shows "find_error_loop oc (frame t body @ post) = (if body = [] then Ret None else find_error_loop oc post)"
proof -
  let ?bs = "frame t body @ post"
  have h: "as_usize (i32_from_be (?bs ! 1) (?bs ! 2) (?bs ! 3) (?bs ! 4)) = 4 + length body" "?bs ! 0 = t"
    using frame_header [OF assms(1), of "[]" t post] by (simp_all add: numeral_2_eq_2)
  have "drop 5 ?bs = body @ post"
    using length_be32 [of "int (4 + length body)"] by (simp add: frame_def numeral_eq_Suc)
  then show ?thesis using h assms(2) by (subst find_error_loop.simps) (simp add: Let_def)
qed

text \<open>The two fields that may leave the proxy, and how a list of fields sets them.\<close>

lemma safe_view_fold:
  "safe_view (fold (\<lambda>(t, v). set_field t v) fs f) =
   fold (\<lambda>(t, v) (s, c). if t = 83 then (Some v, c) else (s, Some v))
     (filter (\<lambda>(t, v). t = 83 \<or> t = 67) fs) (safe_view f)"
proof (induction fs arbitrary: f)
  case (Cons tv fs)
  obtain t v where tv: "tv = (t, v)" by (cases tv)
  have "safe_view (set_field t v f) =
      (if t = 83 then (Some v, sqlstate f) else if t = 67 then (severity f, Some v) else safe_view f)"
    by (simp add: set_field_def safe_view_def)
  then show ?case using Cons tv by (auto simp: safe_view_def)
qed simp

section \<open>Properties of the backend scans\<close>

text \<open>
  C9.  On a read that starts at a message boundary, the scan for the transaction status ends and
  returns the status of the last ReadyForQuery in it, whatever bytes the other messages carry and
  wherever the last message is cut.
\<close>

theorem ready_for_query_scan:
  assumes "back_valid ms" and "incomplete rest" and "length (back_frames ms @ rest) < 2 ^ 63"
  shows "extract_ready_for_query oc (back_frames ms @ rest) = Some (Ret (last_ready None ms))"
  using ready_from_frames [of ms rest "[]"] assms by (simp add: extract_ready_for_query_def)

theorem ready_for_query_scan_witness:
  "extract_ready_for_query False (back_frames [(68, [90, 0, 0, 0, 5, 73]), (90, [84]), (67, [83, 0]), (90, [73])] @ [68, 0])
     = Some (Ret (Some 73))"
  using ready_for_query_scan [of "[(68, [90, 0, 0, 0, 5, 73]), (90, [84]), (67, [83, 0]), (90, [73])]" "[68, 0]" False]
  by (simp add: back_valid_def incomplete_def msg_tags frame_def)

text \<open>
  On a read that starts at a message boundary, the completion scan ends and answers whether a
  CommandComplete or ReadyForQuery header is in it; a byte \<open>C\<close> or \<open>Z\<close> inside a message never counts.
\<close>

lemma query_complete_scan:
  assumes "back_valid ms" and "incomplete rest" and "length (back_frames ms @ rest) < 2 ^ 63"
  shows "is_query_complete oc (back_frames ms @ rest) =
    Some (Ret (list_ex (\<lambda>(t, b). t = MSG_COMMAND_COMPLETE \<or> t = MSG_READY_FOR_QUERY) ms
      \<or> 5 \<le> length rest \<and> (rest ! 0 = MSG_COMMAND_COMPLETE \<or> rest ! 0 = MSG_READY_FOR_QUERY)))"
proof (cases "back_frames ms @ rest = []")
  case True
  then have "ms = []" "rest = []" by (cases ms; auto)+
  then show ?thesis by (simp add: is_query_complete_def)
next
  case False
  then show ?thesis
    using complete_from_frames [of ms rest "[]" oc, unfolded append_Nil list.size(3), OF assms]
    unfolding is_query_complete_def by (simp only: if_False)
qed

text \<open>
  Reads are not reassembled in this direction, so a read can start inside a row.  If the bytes
  at a scan position read as a length of \<open>-1\<close> (the encoding of a NULL column, for one), both
  loops never end in a build without overflow checks and panic in a build with them.
\<close>

lemma minus_one_length_hangs:
  assumes "t \<noteq> MSG_COMMAND_COMPLETE" and "t \<noteq> MSG_READY_FOR_QUERY"
    and "length (t # be32 (- 1) @ post) < 2 ^ 62"
  shows "is_query_complete False (t # be32 (- 1) @ post) = None
    \<and> extract_ready_for_query False (t # be32 (- 1) @ post) = None
    \<and> is_query_complete True (t # be32 (- 1) @ post) = Some Panic
    \<and> extract_ready_for_query True (t # be32 (- 1) @ post) = Some Panic"
proof -
  let ?d = "t # be32 (- 1) @ post"
  have step: "back_step oc ?d 0 = (if oc then Panic else Ret (Some 0))" for oc
    using back_step_minus_one [of "[]" oc t post] by simp
  have len: "0 + 5 \<le> length ?d" by simp
  have "is_query_complete_from False ?d 0 = None"
    using complete_from_stuck [of False ?d 0] step [of False] len assms(1,2)
    by (cases "is_query_complete_from False ?d 0") simp_all
  moreover have "ready_from False ?d 0 None = None"
    using ready_from_stuck [of False ?d 0] step [of False] len by (cases "ready_from False ?d 0 None") simp_all
  moreover have "is_query_complete_from True ?d 0 = Some Panic"
    using step [of True] len assms(1,2) by (subst is_query_complete_from.simps) simp
  moreover have "ready_from True ?d 0 None = Some Panic"
    using step [of True] len by (subst ready_from.simps) simp
  ultimately show ?thesis by (simp add: is_query_complete_def extract_ready_for_query_def)
qed

text \<open>
  Scrubbing: for an ErrorResponse that starts the read, the scrubbed text depends only on the
  severity and SQLSTATE fields.  Two responses that differ in the message text (or in detail,
  hint and any other field) give the same scrubbed text.
\<close>

lemma scrubbed_error_noninterference:
  assumes "list_all (\<lambda>(t, v). t \<noteq> 0 \<and> c_text v) fs" and "list_all (\<lambda>(t, v). t \<noteq> 0 \<and> c_text v) fs'"
    and "4 + length (encode_fields fs) < 2 ^ 31" and "4 + length (encode_fields fs') < 2 ^ 31"
    and "filter (\<lambda>(t, v). t = 83 \<or> t = 67) fs = filter (\<lambda>(t, v). t = 83 \<or> t = 67) fs'"
  shows "extract_error_scrubbed oc (frame MSG_ERROR_RESPONSE (encode_fields fs) @ post)
    = extract_error_scrubbed oc (frame MSG_ERROR_RESPONSE (encode_fields fs') @ post')"
proof -
  have "safe_view (fold (\<lambda>(t, v). set_field t v) fs no_fields)
      = safe_view (fold (\<lambda>(t, v). set_field t v) fs' no_fields)"
    unfolding safe_view_fold assms(5) ..
  then show ?thesis
    using assms
    by (simp add: extract_error_scrubbed_def find_error_frame parse_error_fields_def parse_fields_encode
        safe_view_def)
qed

text \<open>
  An error behind a message without a body is missed: the scan gives up at the first message
  whose length field is 4 (ParseComplete, BindComplete, CloseComplete, NoData and others), so the
  ErrorResponse of an extended query that follows them in the same read is not reported.
\<close>

lemma error_after_empty_message_missed:
  assumes "t \<noteq> MSG_ERROR_RESPONSE"
  shows "extract_error oc (frame t [] @ frame MSG_ERROR_RESPONSE (encode_fields fs) @ post) = Ret None"
  using assms find_error_skip [of "[]" t oc] by (simp add: extract_error_def find_error_fields_def)

end
