(* ===== verification/Query_Events.thy ===== *)
theory Query_Events
  imports Bind_Params Backend_Scan
begin

text \<open>
  What leaves the proxy about a query: the anonymizer of \<open>protocol/anonymize.rs\<close> and the event
  construction of \<open>proxy/connection.rs\<close>.  The SQL parser with its traversals and printer, and the
  BLAKE3 hash, are parameters.
\<close>

section \<open>The anonymizer\<close>

text \<open>The literal values of the SQL library that the code distinguishes.\<close>

datatype sql_value = Number rstr | SingleQuotedString rstr | DoubleQuotedString rstr | Boolean bool | NullValue
  | Placeholder rstr | OtherValue rstr

text \<open>
  \<open>sql_values\<close> lists the literal expressions of a statement in the order of the library's traversal,
  \<open>sql_map_values\<close> is its mutating traversal, \<open>sql_print\<close> its printer.
\<close>

record 'stmt sql_library =
  sql_parse :: "rstr \<Rightarrow> 'stmt list option"
  sql_values :: "'stmt \<Rightarrow> sql_value list"
  sql_map_values :: "(sql_value \<Rightarrow> sql_value) \<Rightarrow> 'stmt \<Rightarrow> 'stmt"
  sql_print :: "'stmt \<Rightarrow> rstr"

record anonymized_query =
  normalized_query :: rstr
  value_fingerprints :: "rstr list"

fun is_sensitive_literal :: "sql_value \<Rightarrow> bool" where
  "is_sensitive_literal (Number _) = True"
| "is_sensitive_literal (SingleQuotedString _) = True"
| "is_sensitive_literal (DoubleQuotedString _) = True"
| "is_sensitive_literal (Boolean _) = True"
| "is_sensitive_literal NullValue = True"
| "is_sensitive_literal _ = False"

fun value_text :: "sql_value \<Rightarrow> rstr option" where
  "value_text (Number n) = Some n"
| "value_text (SingleQuotedString s) = Some s"
| "value_text (DoubleQuotedString s) = Some s"
| "value_text (Boolean b) = Some (if b then lit ''true'' else lit ''false'')"
| "value_text NullValue = Some (lit ''NULL'')"
| "value_text _ = None"

definition hash_value :: "(bytes \<Rightarrow> rstr) \<Rightarrow> bytes \<Rightarrow> rstr \<Rightarrow> rstr" where
  "hash_value blake3_hex salt v = blake3_hex (salt @ as_bytes v)"

definition collect_values :: "'stmt sql_library \<Rightarrow> (bytes \<Rightarrow> rstr) \<Rightarrow> bytes \<Rightarrow> 'stmt \<Rightarrow> rstr list" where
  "collect_values L blake3_hex salt stmt =
     map (hash_value blake3_hex salt) (List.map_filter value_text (sql_values L stmt))"

definition replace_value :: "sql_value \<Rightarrow> sql_value" where
  "replace_value v = (if is_sensitive_literal v then Placeholder (lit ''?'') else v)"

definition normalize_statement :: "'stmt sql_library \<Rightarrow> 'stmt \<Rightarrow> rstr option" where
  "normalize_statement L stmt =
     (let normalized_stmt = sql_map_values L replace_value stmt
      in if list_ex is_sensitive_literal (sql_values L normalized_stmt) then None
         else Some (sql_print L normalized_stmt))"

fun normalize_from :: "'stmt sql_library \<Rightarrow> bool \<Rightarrow> 'stmt list \<Rightarrow> rstr option" where
  "normalize_from L first [] = Some []"
| "normalize_from L first (stmt # stmts) =
     (case normalize_statement L stmt of
        None \<Rightarrow> None
      | Some s \<Rightarrow>
          map_option (\<lambda>rest. (if first then [] else lit ''; '') @ s @ rest) (normalize_from L False stmts))"

definition normalize_statements :: "'stmt sql_library \<Rightarrow> 'stmt list \<Rightarrow> rstr option" where
  "normalize_statements L stmts = normalize_from L True stmts"

definition anonymize ::
    "'stmt sql_library \<Rightarrow> (bytes \<Rightarrow> rstr) \<Rightarrow> bytes \<Rightarrow> rstr \<Rightarrow> anonymized_query option" where
  "anonymize L blake3_hex salt query =
     (case sql_parse L query of
        None \<Rightarrow> None
      | Some statements \<Rightarrow>
          if statements = [] then None
          else map_option
            (\<lambda>normalized. \<lparr>normalized_query = normalized,
                value_fingerprints = concat (map (collect_values L blake3_hex salt) statements)\<rparr>)
            (normalize_statements L statements))"

section \<open>Events\<close>

datatype parse_failure_mode = DropEvent | Redact

definition REDACTED_QUERY :: rstr where
  "REDACTED_QUERY = lit ''<redacted: unparseable>''"

text \<open>The anonymizer of a connection, salted, as the function it computes.\<close>

record anonymization_settings =
  anon_enabled :: bool
  anonymizer :: "rstr \<Rightarrow> anonymized_query option"
  parse_failure :: parse_failure_mode

definition settings_from_config ::
    "'stmt sql_library \<Rightarrow> (bytes \<Rightarrow> rstr) \<Rightarrow> bool \<Rightarrow> rstr option \<Rightarrow> parse_failure_mode \<Rightarrow> anonymization_settings" where
  "settings_from_config L blake3_hex enabled salt mode =
     \<lparr>anon_enabled = enabled,
      anonymizer = anonymize L blake3_hex
        (case salt of Some s \<Rightarrow> as_bytes s | None \<Rightarrow> as_bytes (lit ''scry-default-salt'')),
      parse_failure = mode\<rparr>"

definition error_field ::
    "anonymization_settings \<Rightarrow> bool \<Rightarrow> bytes \<Rightarrow> rstr \<Rightarrow> rstr option run" where
  "error_field A oc data full_error =
     (if anon_enabled A then extract_error_scrubbed oc data else Ret (Some full_error))"

definition redact_params :: "anonymization_settings \<Rightarrow> param_value list \<Rightarrow> param_value list" where
  "redact_params A params = (if \<not> anon_enabled A then params else map redact_param params)"

text \<open>A query event is what the builder was given.\<close>

record query_event =
  ev_query :: rstr
  ev_connection_id :: rstr
  ev_database :: rstr
  ev_params :: "param_value list"
  ev_params_incomplete :: bool
  ev_duration :: nat
  ev_success :: bool
  ev_normalized :: "rstr option"
  ev_fingerprints :: "rstr list"
  ev_error :: "rstr option"

definition resolve_query ::
    "anonymization_settings \<Rightarrow> rstr \<Rightarrow> (rstr \<times> rstr option \<times> rstr list) option" where
  "resolve_query A query =
     (if \<not> anon_enabled A then Some (query, None, [])
      else case anonymizer A query of
             Some anon \<Rightarrow> Some (normalized_query anon, Some (normalized_query anon), value_fingerprints anon)
           | None \<Rightarrow>
               (case parse_failure A of
                  DropEvent \<Rightarrow> None
                | Redact \<Rightarrow> Some (REDACTED_QUERY, Some REDACTED_QUERY, [])))"

definition build_event ::
    "anonymization_settings \<Rightarrow> rstr \<Rightarrow> param_value list \<Rightarrow> bool \<Rightarrow> nat \<Rightarrow> bool \<Rightarrow> rstr option \<Rightarrow> rstr \<Rightarrow> rstr
      \<Rightarrow> (query_event \<times> rstr list) option" where
  "build_event A query params partial duration success err connection_id database =
     map_option
       (\<lambda>(query_text, normalized, fingerprints).
          (\<lparr>ev_query = query_text, ev_connection_id = connection_id, ev_database = database,
            ev_params = redact_params A params, ev_params_incomplete = partial, ev_duration = duration,
            ev_success = success, ev_normalized = normalized, ev_fingerprints = fingerprints,
            ev_error = err\<rparr>, fingerprints))
       (resolve_query A query)"

section \<open>Command tags\<close>

definition TAG_KEYWORDS :: "rstr list" where
  "TAG_KEYWORDS = map lit [''SELECT'', ''INSERT'', ''UPDATE'', ''DELETE'', ''WITH'', ''VALUES'', ''TABLE'', ''BEGIN'',
     ''START'', ''COMMIT'', ''ROLLBACK'', ''SAVEPOINT'', ''RELEASE'', ''SET'', ''SHOW'', ''EXPLAIN'', ''CREATE'', ''DROP'',
     ''ALTER'', ''DECLARE'', ''CLOSE'', ''DEALLOCATE'', ''LISTEN'', ''UNLISTEN'', ''NOTIFY'']"

definition tag_matches :: "rstr \<Rightarrow> rstr \<Rightarrow> bool" where
  "tag_matches upper kw =
     (case strip_prefix upper kw of
        None \<Rightarrow> False
      | Some rest \<Rightarrow> (case rest of [] \<Rightarrow> True | c # _ \<Rightarrow> is_whitespace c \<or> c = 40 \<or> c = 59))"

definition command_tag :: "unicode \<Rightarrow> rstr \<Rightarrow> rstr" where
  "command_tag U sql =
     (let upper = to_uppercase U (trim_start sql)
      in case List.find (tag_matches upper) TAG_KEYWORDS of Some kw \<Rightarrow> kw | None \<Rightarrow> lit ''OTHER'')"

definition query_fingerprint :: "(bytes \<Rightarrow> rstr) \<Rightarrow> rstr \<Rightarrow> rstr" where
  "query_fingerprint blake3_hex sql = take 16 (blake3_hex (as_bytes sql))"

definition loggable :: "bool \<Rightarrow> rstr \<Rightarrow> rstr" where
  "loggable unsafe_debug_logging s = (if unsafe_debug_logging then s else lit ''<redacted>'')"

section \<open>What anonymized text carries\<close>

text \<open>The printed statements of a normalized query, joined.\<close>

definition join_statements :: "rstr list \<Rightarrow> rstr" where
  "join_statements parts = (case parts of [] \<Rightarrow> [] | p # ps \<Rightarrow> p @ concat (map (\<lambda>q. lit ''; '' @ q) ps))"

lemma normalize_statement_Some:
  "normalize_statement L s = Some out \<longleftrightarrow>
   \<not> list_ex is_sensitive_literal (sql_values L (sql_map_values L replace_value s))
   \<and> out = sql_print L (sql_map_values L replace_value s)"
  by (auto simp: normalize_statement_def Let_def)

lemma normalize_rest_Some:
  "normalize_from L False stmts = Some out \<Longrightarrow>
   (\<forall>s \<in> set stmts. \<not> list_ex is_sensitive_literal (sql_values L (sql_map_values L replace_value s)))
   \<and> out = concat (map (\<lambda>s. lit ''; '' @ sql_print L (sql_map_values L replace_value s)) stmts)"
proof (induction stmts arbitrary: out)
  case (Cons s stmts)
  then obtain t rest where "normalize_statement L s = Some t" "normalize_from L False stmts = Some rest"
    "out = lit ''; '' @ t @ rest" by (auto split: option.splits)
  then show ?case using Cons.IH [of rest] by (simp add: normalize_statement_Some)
qed simp

lemma normalize_from_Some:
  assumes "normalize_from L True stmts = Some out"
  shows "\<forall>s \<in> set stmts. \<not> list_ex is_sensitive_literal (sql_values L (sql_map_values L replace_value s))"
    and "out = join_statements (map (\<lambda>s. sql_print L (sql_map_values L replace_value s)) stmts)"
proof -
  have "(\<forall>s \<in> set stmts. \<not> list_ex is_sensitive_literal (sql_values L (sql_map_values L replace_value s)))
      \<and> out = join_statements (map (\<lambda>s. sql_print L (sql_map_values L replace_value s)) stmts)"
  proof (cases stmts)
    case (Cons s ss)
    then obtain t rest where "normalize_statement L s = Some t" "normalize_from L False ss = Some rest"
      "out = t @ rest" using assms by (auto split: option.splits)
    then show ?thesis
      using normalize_rest_Some [of L ss rest] Cons by (simp add: normalize_statement_Some join_statements_def comp_def)
  qed (use assms in \<open>simp add: join_statements_def\<close>)
  then show "\<forall>s \<in> set stmts. \<not> list_ex is_sensitive_literal (sql_values L (sql_map_values L replace_value s))"
    "out = join_statements (map (\<lambda>s. sql_print L (sql_map_values L replace_value s)) stmts)" by blast+
qed

lemma anonymize_Some:
  assumes "anonymize L H salt query = Some a"
  obtains stmts where "sql_parse L query = Some stmts" and "stmts \<noteq> []"
    and "\<forall>s \<in> set stmts. \<not> list_ex is_sensitive_literal (sql_values L (sql_map_values L replace_value s))"
    and "normalized_query a = join_statements (map (\<lambda>s. sql_print L (sql_map_values L replace_value s)) stmts)"
    and "value_fingerprints a = concat (map (collect_values L H salt) stmts)"
proof -
  obtain stmts out where s: "sql_parse L query = Some stmts" "stmts \<noteq> []" "normalize_from L True stmts = Some out"
    and a: "a = \<lparr>normalized_query = out, value_fingerprints = concat (map (collect_values L H salt) stmts)\<rparr>"
    using assms by (auto simp: anonymize_def normalize_statements_def split: option.splits if_splits)
  show thesis
    by (rule that [OF s(1, 2)]) (use normalize_from_Some [OF s(3)] a in simp_all)
qed

lemma list_all2_redact: "list_all2 same_shape ps qs \<Longrightarrow> map redact_param ps = map redact_param qs"
  by (induction ps qs rule: list_all2_induct) (auto simp: redact_eq_iff)

text \<open>A small instance of the SQL library: a statement is its literals.\<close>

fun show_value :: "sql_value \<Rightarrow> rstr" where
  "show_value (Number s) = s"
| "show_value (Placeholder s) = s"
| "show_value (OtherValue s) = s"
| "show_value _ = []"

definition example_sql :: "(rstr \<Rightarrow> sql_value) \<Rightarrow> sql_value list sql_library" where
  "example_sql kind = \<lparr>sql_parse = (\<lambda>q. if q = [] then None else Some [[kind q]]), sql_values = (\<lambda>s. s),
     sql_map_values = map, sql_print = (\<lambda>s. concat (map show_value s))\<rparr>"

section \<open>Properties of query events\<close>

text \<open>
  C6.  With anonymization on, an event reveals of a query only its anonymized form, of the parameters
  only their shapes and of a backend error only what scrubbing leaves: if two executions agree on
  these, the events built for them, and whether one is built, are the same.
\<close>

theorem event_noninterference:
  assumes "anon_enabled A" and "anonymizer A q = anonymizer A q'" and "list_all2 same_shape ps ps'"
    and "extract_error_scrubbed oc d = extract_error_scrubbed oc d'"
  shows "run_map (\<lambda>err. build_event A q ps inc dur ok err cid db) (error_field A oc d e)
       = run_map (\<lambda>err. build_event A q' ps' inc dur ok err cid db) (error_field A oc d' e')"
proof -
  have "resolve_query A q = resolve_query A q'" using assms(1, 2) by (simp add: resolve_query_def)
  moreover have "redact_params A ps = redact_params A ps'"
    using assms(1) list_all2_redact [OF assms(3)] by (simp add: redact_params_def)
  ultimately have "build_event A q ps inc dur ok err cid db = build_event A q' ps' inc dur ok err cid db" for err
    by (simp add: build_event_def)
  then show ?thesis using assms(1, 4) by (simp add: error_field_def)
qed

theorem event_noninterference_witness:
  "let A = settings_from_config (example_sql Number) (\<lambda>_. lit ''f'') True None Redact
   in run_map (\<lambda>err. build_event A (lit ''1'') [PText (lit ''a'')] False 5 True err [] []) (error_field A True [] (lit ''x''))
    = run_map (\<lambda>err. build_event A (lit ''2'') [PText (lit ''b'')] False 5 True err [] []) (error_field A True [] (lit ''y''))"
proof -
  let ?A = "settings_from_config (example_sql Number) (\<lambda>_. lit ''f'') True None Redact"
  have "anon_enabled ?A" "anonymizer ?A (lit ''1'') = anonymizer ?A (lit ''2'')"
    by (simp_all add: settings_from_config_def anonymize_def example_sql_def normalize_statements_def
        normalize_statement_def replace_value_def collect_values_def hash_value_def List.map_filter_def lit_def)
  then show ?thesis
    unfolding Let_def by (rule event_noninterference) simp_all
qed



text \<open>
  C36.  Literals of any other kind, such as escape strings and dollar-quoted strings, are not replaced:
  a statement with only such literals is printed unchanged into the event, although anonymization is
  on.
\<close>

theorem other_literals_survive:
  assumes "sql_parse L q = Some [s]" and "\<forall>v \<in> set (sql_values L s). \<exists>t. v = OtherValue t"
    and "\<And>f. \<forall>v \<in> set (sql_values L s). f v = v \<Longrightarrow> sql_map_values L f s = s"
  shows "\<exists>ev fps. build_event (settings_from_config L H True salt mode) q ps inc dur ok err cid db = Some (ev, fps)
    \<and> ev_query ev = sql_print L s \<and> fps = []"
proof -
  have fix_vals: "\<forall>v \<in> set (sql_values L s). replace_value v = v \<and> \<not> is_sensitive_literal v \<and> value_text v = None"
    using assms(2) by (auto simp: replace_value_def)
  then have "sql_map_values L replace_value s = s" by (intro assms(3)) auto
  moreover have "\<not> list_ex is_sensitive_literal (sql_values L s)" using fix_vals by (auto simp: list_ex_iff)
  moreover have "collect_values L H sa s = []" for sa
  proof -
    have "List.map_filter value_text (sql_values L s) = []"
      using fix_vals by (auto simp: List.map_filter_def filter_empty_conv)
    then show ?thesis by (simp add: collect_values_def)
  qed
  ultimately show ?thesis
    using assms(1)
    by (simp add: build_event_def resolve_query_def settings_from_config_def anonymize_def normalize_statements_def
        normalize_statement_def)
qed

theorem other_literals_survive_witness:
  "\<exists>ev fps. build_event (settings_from_config (example_sql OtherValue) (\<lambda>_. lit ''f'') True None DropEvent)
      (lit ''secret'') [] False 5 True None [] [] = Some (ev, fps) \<and> ev_query ev = lit ''secret'' \<and> fps = []"
proof -
  have p: "sql_parse (example_sql OtherValue) (lit ''secret'') = Some [[OtherValue (lit ''secret'')]]"
    by (simp add: example_sql_def lit_def)
  have v: "\<forall>v \<in> set (sql_values (example_sql OtherValue) [OtherValue (lit ''secret'')]). \<exists>t. v = OtherValue t"
    by (simp add: example_sql_def)
  have m: "\<forall>v \<in> set (sql_values (example_sql OtherValue) [OtherValue (lit ''secret'')]). f v = v \<Longrightarrow>
      sql_map_values (example_sql OtherValue) f [OtherValue (lit ''secret'')] = [OtherValue (lit ''secret'')]" for f
    by (simp add: example_sql_def)
  from other_literals_survive [OF p v m, of "\<lambda>_. lit ''f''" None DropEvent "[]" False 5 True None "[]" "[]"]
  show ?thesis by (simp add: example_sql_def)
qed

end
