(* ===== verification/Event_Pipeline.thy ===== *)
theory Event_Pipeline
  imports Query_Events
begin

text \<open>
  \<open>proxy/event_batcher.rs\<close> and \<open>publisher/\<close>: the bounded queue of query events, the task that batches
  them, and the publishers.  The operations of the batcher are steps that interleave in any order;
  counters are unbounded.
\<close>

section \<open>The batcher\<close>

text \<open>
  \<open>queue\<close> is the content of the channel and \<open>batch\<close> the batch being filled; \<open>handed\<close> lists the batches
  given to the publisher, whose state is \<open>pub\<close>.  The channel is closed once the task has ended.
\<close>

record ('e, 'p) batcher =
  queue :: "'e list"
  max_queue_size :: nat
  events_sent :: nat
  events_dropped :: nat
  batch_buffer :: "'e list"
  batch_size :: nat
  handed :: "'e list list"
  pub :: 'p
  task_ended :: bool

text \<open>
  A channel without capacity panics in the caller; a timer with period zero panics in the new task,
  which ends it.
\<close>

definition new_batcher :: "'p \<Rightarrow> nat \<Rightarrow> nat \<Rightarrow> nat \<Rightarrow> ('e, 'p) batcher run" where
  "new_batcher publisher bsize flush_interval_ms max_size =
     (if max_size = 0 then Panic
      else Ret \<lparr>queue = [], max_queue_size = max_size, events_sent = 0, events_dropped = 0, batch_buffer = [],
                batch_size = bsize, handed = [], pub = publisher, task_ended = (flush_interval_ms = 0)\<rparr>)"

datatype send_result = Queued | DroppedFull | ChannelClosed

definition send_event :: "'e \<Rightarrow> ('e, 'p) batcher \<Rightarrow> send_result \<times> ('e, 'p) batcher" where
  "send_event event b =
     (if task_ended b then (ChannelClosed, b)
      else if max_queue_size b \<le> length (queue b) then (DroppedFull, b\<lparr>events_dropped := events_dropped b + 1\<rparr>)
      else (Queued, b\<lparr>queue := queue b @ [event], events_sent := events_sent b + 1\<rparr>))"

definition get_batcher_metrics :: "('e, 'p) batcher \<Rightarrow> nat \<times> nat" where
  "get_batcher_metrics b = (events_sent b, events_dropped b)"

text \<open>A failed \<open>publish_batch\<close> is logged; the batch is gone either way.\<close>

definition flush_batch :: "('e list \<Rightarrow> 'p \<Rightarrow> bool \<times> 'p) \<Rightarrow> ('e, 'p) batcher \<Rightarrow> ('e, 'p) batcher" where
  "flush_batch publish b =
     (if batch_buffer b = [] then b
      else b\<lparr>batch_buffer := [], handed := handed b @ [batch_buffer b],
             pub := snd (publish (batch_buffer b) (pub b))\<rparr>)"

text \<open>
  The arms of the \<open>select!\<close> in \<open>run_batcher\<close>: an event is received, the channel is closed and empty,
  the timer ticks.
\<close>

definition on_event :: "('e list \<Rightarrow> 'p \<Rightarrow> bool \<times> 'p) \<Rightarrow> ('e, 'p) batcher \<Rightarrow> ('e, 'p) batcher" where
  "on_event publish b =
     (case queue b of
        [] \<Rightarrow> b
      | event # rest \<Rightarrow>
          (let b1 = b\<lparr>queue := rest, batch_buffer := batch_buffer b @ [event]\<rparr>
           in if batch_size b1 \<le> length (batch_buffer b1) then flush_batch publish b1 else b1))"

definition on_closed :: "('e list \<Rightarrow> 'p \<Rightarrow> bool \<times> 'p) \<Rightarrow> ('e, 'p) batcher \<Rightarrow> ('e, 'p) batcher" where
  "on_closed publish b = (if queue b = [] then (flush_batch publish b)\<lparr>task_ended := True\<rparr> else b)"

definition on_tick :: "('e list \<Rightarrow> 'p \<Rightarrow> bool \<times> 'p) \<Rightarrow> ('e, 'p) batcher \<Rightarrow> ('e, 'p) batcher" where
  "on_tick publish b = (if batch_buffer b \<noteq> [] then flush_batch publish b else b)"

datatype 'e batcher_op = Send 'e | Receive | Tick | CloseChannel

definition batcher_step ::
    "('e list \<Rightarrow> 'p \<Rightarrow> bool \<times> 'p) \<Rightarrow> 'e batcher_op \<Rightarrow> ('e, 'p) batcher \<Rightarrow> 'e list \<times> ('e, 'p) batcher" where
  "batcher_step publish op b =
     (case op of
        Send e \<Rightarrow> (case send_event e b of (r, b') \<Rightarrow> (if r = Queued then [e] else [], b'))
      | Receive \<Rightarrow> ([], if task_ended b then b else on_event publish b)
      | Tick \<Rightarrow> ([], if task_ended b then b else on_tick publish b)
      | CloseChannel \<Rightarrow> ([], if task_ended b then b else on_closed publish b))"

text \<open>A run, with the events that were accepted in the order of their sending.\<close>

fun run_batcher ::
    "('e list \<Rightarrow> 'p \<Rightarrow> bool \<times> 'p) \<Rightarrow> 'e batcher_op list \<Rightarrow> ('e, 'p) batcher \<Rightarrow> 'e list \<times> ('e, 'p) batcher" where
  "run_batcher publish [] b = ([], b)"
| "run_batcher publish (op # ops) b =
     (case batcher_step publish op b of
        (es, b1) \<Rightarrow> (case run_batcher publish ops b1 of (es', b2) \<Rightarrow> (es @ es', b2)))"

section \<open>Publishers\<close>

text \<open>
  The HTTP publisher.  \<open>net k\<close> is the outcome of the \<open>k\<close>-th request sent by this instance, \<open>requests\<close>
  their number so far; \<open>payload_size\<close> is the size of a serialized batch.
\<close>

record http_publisher =
  endpoint :: rstr
  http_max_retries :: nat
  net :: "nat \<Rightarrow> bool"
  requests :: nat
  total_events :: nat
  total_batches :: nat
  total_bytes :: nat
  batch_seq :: nat
  successful_publishes :: nat
  failed_publishes :: nat

definition new_http_publisher :: "rstr \<Rightarrow> nat \<Rightarrow> bool \<Rightarrow> (nat \<Rightarrow> bool) \<Rightarrow> http_publisher option" where
  "new_http_publisher url retries allow_insecure outcome =
     (if \<not> starts_with url (lit ''https://'') \<and> \<not> allow_insecure then None
      else Some \<lparr>endpoint = url, http_max_retries = retries, net = outcome, requests = 0, total_events = 0,
                 total_batches = 0, total_bytes = 0, batch_seq = 0, successful_publishes = 0, failed_publishes = 0\<rparr>)"

text \<open>
  The retry loop from its \<open>attempts\<close>-th failure on: whether it succeeded, the requests made and the
  delays slept.
\<close>

function publish_loop :: "(nat \<Rightarrow> bool) \<Rightarrow> nat \<Rightarrow> nat \<Rightarrow> nat \<Rightarrow> nat \<Rightarrow> bool \<times> nat \<times> nat list" where
  "publish_loop outcome retries done_requests attempts backoff_ms =
     (if outcome done_requests then (True, done_requests + 1, [])
      else if retries < attempts + 1 then (False, done_requests + 1, [])
      else (case publish_loop outcome retries (done_requests + 1) (attempts + 1) (min (backoff_ms * 2) 5000) of
              (ok, n, sleeps) \<Rightarrow> (ok, n, backoff_ms # sleeps)))"
  by pat_completeness auto
termination
  by (relation "measure (\<lambda>(out, retries, d, attempts, b). retries + 1 - attempts)") auto

declare publish_loop.simps [simp del]

definition publish_with_retries :: "http_publisher \<Rightarrow> bool \<times> http_publisher" where
  "publish_with_retries p =
     (case publish_loop (net p) (http_max_retries p) (requests p) 0 50 of
        (True, n, _) \<Rightarrow> (True, p\<lparr>requests := n, successful_publishes := successful_publishes p + 1\<rparr>)
      | (False, n, _) \<Rightarrow> (False, p\<lparr>requests := n, failed_publishes := failed_publishes p + 1\<rparr>))"

text \<open>The failure of a publish is not passed on.\<close>

definition http_publish_batch ::
    "(query_event list \<Rightarrow> nat \<Rightarrow> nat) \<Rightarrow> query_event list \<Rightarrow> http_publisher \<Rightarrow> bool \<times> http_publisher" where
  "http_publish_batch payload_size events p =
     (if events = [] then (True, p)
      else (True, snd (publish_with_retries
              (p\<lparr>batch_seq := batch_seq p + 1, total_events := total_events p + length events,
                 total_batches := total_batches p + 1,
                 total_bytes := total_bytes p + payload_size events (batch_seq p)\<rparr>))))"

text \<open>The debug logger counts what it logs; \<open>json_size\<close> is \<open>None\<close> when the serializer fails.\<close>

record debug_publisher =
  log_events :: nat
  log_batches :: nat
  log_bytes :: nat

definition new_debug_publisher :: debug_publisher where
  "new_debug_publisher = \<lparr>log_events = 0, log_batches = 0, log_bytes = 0\<rparr>"

definition debug_publish_batch ::
    "(query_event list \<Rightarrow> nat option) \<Rightarrow> query_event list \<Rightarrow> debug_publisher \<Rightarrow> bool \<times> debug_publisher" where
  "debug_publish_batch json_size events p =
     (if events = [] then (True, p)
      else case json_size events of
             None \<Rightarrow> (False, p)
           | Some n \<Rightarrow> (True, p\<lparr>log_events := log_events p + length events, log_batches := log_batches p + 1,
                                log_bytes := log_bytes p + n\<rparr>))"

text \<open>The choice of the publisher from the configuration.\<close>

datatype publisher = DebugPublisher debug_publisher | HttpPublisher http_publisher

datatype publisher_error = EndpointMissing | InsecureEndpoint | UnknownPublisherType

definition create_publisher ::
    "rstr \<Rightarrow> rstr option \<Rightarrow> nat \<Rightarrow> bool \<Rightarrow> (nat \<Rightarrow> bool) \<Rightarrow> publisher_error + publisher" where
  "create_publisher publisher_type http_endpoint retries allow_insecure outcome =
     (if publisher_type = lit ''debug'' then Inr (DebugPublisher new_debug_publisher)
      else if publisher_type = lit ''http'' then
        (case http_endpoint of
           None \<Rightarrow> Inl EndpointMissing
         | Some url \<Rightarrow>
             (case new_http_publisher url retries allow_insecure outcome of
                None \<Rightarrow> Inl InsecureEndpoint
              | Some p \<Rightarrow> Inr (HttpPublisher p)))
      else Inl UnknownPublisherType)"

section \<open>Conservation\<close>

text \<open>The invariant of a batcher over the events accepted so far.\<close>

definition batcher_ok :: "'e list \<Rightarrow> ('e, 'p) batcher \<Rightarrow> bool" where
  "batcher_ok accepted b =
     (accepted = concat (handed b) @ batch_buffer b @ queue b
      \<and> events_sent b = length (concat (handed b)) + length (batch_buffer b) + length (queue b)
      \<and> length (queue b) \<le> max_queue_size b \<and> length (batch_buffer b) < max 1 (batch_size b)
      \<and> (\<forall>xs \<in> set (handed b). xs \<noteq> [] \<and> length xs \<le> max 1 (batch_size b)))"

lemma flush_batch_ok:
  assumes "accepted = concat (handed b) @ batch_buffer b @ queue b"
    "events_sent b = length (concat (handed b)) + length (batch_buffer b) + length (queue b)"
    "length (queue b) \<le> max_queue_size b" "length (batch_buffer b) \<le> max 1 (batch_size b)"
    "\<forall>xs \<in> set (handed b). xs \<noteq> [] \<and> length xs \<le> max 1 (batch_size b)"
  shows "batcher_ok accepted (flush_batch publish b)"
  using assms by (auto simp: batcher_ok_def flush_batch_def)

lemma on_event_ok: "batcher_ok accepted b \<Longrightarrow> batcher_ok accepted (on_event publish b)"
proof (cases "queue b")
  case (Cons e rest)
  assume ok: "batcher_ok accepted b"
  let ?b = "b\<lparr>queue := rest, batch_buffer := batch_buffer b @ [e]\<rparr>"
  show ?thesis
  proof (cases "batch_size b \<le> length (batch_buffer b) + 1")
    case True
    have "batcher_ok accepted (flush_batch publish ?b)"
      by (rule flush_batch_ok) (use ok Cons in \<open>auto simp: batcher_ok_def\<close>)
    then show ?thesis using True Cons by (simp add: on_event_def)
  next
    case False
    then show ?thesis using ok Cons by (auto simp: on_event_def batcher_ok_def)
  qed
qed (simp add: on_event_def)

lemma flush_keeps_ok: "batcher_ok accepted b \<Longrightarrow> batcher_ok accepted (flush_batch publish b)"
  unfolding batcher_ok_def [of accepted b] by (elim conjE, rule flush_batch_ok) (assumption | rule less_imp_le)+

lemma on_tick_ok: "batcher_ok accepted b \<Longrightarrow> batcher_ok accepted (on_tick publish b)"
  using flush_keeps_ok [of accepted b publish] by (simp add: on_tick_def)

lemma batcher_ok_ended: "batcher_ok accepted (b\<lparr>task_ended := x\<rparr>) = batcher_ok accepted b"
  by (simp add: batcher_ok_def)

lemma on_closed_ok: "batcher_ok accepted b \<Longrightarrow> batcher_ok accepted (on_closed publish b)"
  using flush_keeps_ok [of accepted b publish] by (simp add: on_closed_def batcher_ok_ended)

lemma send_event_ok:
  assumes ok: "batcher_ok accepted b" and "send_event e b = (r, b')"
  shows "batcher_ok (accepted @ (if r = Queued then [e] else [])) b'"
proof (cases "task_ended b \<or> max_queue_size b \<le> length (queue b)")
  case True
  then have "r \<noteq> Queued" "b' = b \<or> b' = b\<lparr>events_dropped := events_dropped b + 1\<rparr>"
    using assms(2) by (auto simp: send_event_def split: if_splits)
  then show ?thesis using ok by (elim disjE) (simp_all add: batcher_ok_def)
next
  case False
  then have "r = Queued" "b' = b\<lparr>queue := queue b @ [e], events_sent := events_sent b + 1\<rparr>"
    using assms(2) by (auto simp: send_event_def)
  then show ?thesis using ok False by (simp add: batcher_ok_def)
qed

lemma batcher_step_ok:
  assumes "batcher_ok accepted b" and "batcher_step publish op b = (es, b')"
  shows "batcher_ok (accepted @ es) b'"
proof (cases op)
  case (Send e)
  then show ?thesis using assms send_event_ok [OF assms(1), of e]
    by (auto simp: batcher_step_def split: prod.splits)
qed (use assms on_event_ok on_tick_ok on_closed_ok in \<open>auto simp: batcher_step_def split: if_splits\<close>)

lemma run_batcher_ok:
  "batcher_ok accepted b \<Longrightarrow> run_batcher publish ops b = (es, b') \<Longrightarrow> batcher_ok (accepted @ es) b'"
proof (induction ops arbitrary: accepted b es)
  case (Cons op ops)
  obtain es1 b1 es2 where s: "batcher_step publish op b = (es1, b1)" "run_batcher publish ops b1 = (es2, b')"
      "es = es1 @ es2"
    using Cons.prems(2) by (auto split: prod.splits)
  show ?case
    using Cons.IH [OF batcher_step_ok [OF Cons.prems(1) s(1)] s(2)] s(3) by simp
qed simp

lemma flush_batch_setup [simp]:
  "max_queue_size (flush_batch publish b) = max_queue_size b" "batch_size (flush_batch publish b) = batch_size b"
  "task_ended (flush_batch publish b) = task_ended b" "queue (flush_batch publish b) = queue b"
  by (simp_all add: flush_batch_def)

lemma batcher_step_setup:
  "batcher_step publish op b = (es, b') \<Longrightarrow> max_queue_size b' = max_queue_size b \<and> batch_size b' = batch_size b"
  by (auto simp: batcher_step_def send_event_def on_event_def on_tick_def on_closed_def Let_def
      split: batcher_op.splits if_splits list.splits)

lemma run_batcher_setup:
  "run_batcher publish ops b = (es, b') \<Longrightarrow> max_queue_size b' = max_queue_size b \<and> batch_size b' = batch_size b"
proof (induction ops arbitrary: b es)
  case (Cons op ops)
  then show ?case using batcher_step_setup by (fastforce split: prod.splits)
qed simp

text \<open>A task that ended has emptied the queue and the batch.\<close>

lemma ended_is_empty:
  assumes "run_batcher publish ops b = (es, b')" and "task_ended b \<Longrightarrow> queue b = [] \<and> batch_buffer b = []"
    and "task_ended b'"
  shows "queue b' = [] \<and> batch_buffer b' = []"
  using assms
proof (induction ops arbitrary: b es)
  case (Cons op ops)
  obtain es1 b1 es2 where s: "batcher_step publish op b = (es1, b1)" "run_batcher publish ops b1 = (es2, b')"
    using Cons.prems(1) by (auto split: prod.splits)
  have "task_ended b1 \<Longrightarrow> queue b1 = [] \<and> batch_buffer b1 = []"
    using s(1) Cons.prems(2)
    by (auto simp: batcher_step_def send_event_def on_event_def on_tick_def on_closed_def Let_def flush_batch_def
        split: batcher_op.splits if_splits list.splits)
  from Cons.IH [OF s(2) this Cons.prems(3)] show ?case .
qed simp

section \<open>The publisher interface\<close>

text \<open>
  What the batcher relies on in a publisher: an empty batch changes nothing, and a batch is counted
  as a whole.
\<close>

locale event_publisher =
  fixes publish :: "'e list \<Rightarrow> 'p \<Rightarrow> bool \<times> 'p" and total :: "'p \<Rightarrow> nat"
  assumes publish_empty: "snd (publish [] p) = p"
    and publish_counts: "total (snd (publish es p)) = total p + length es"
begin

lemma flush_total:
  "total (pub (flush_batch publish b)) + length (concat (handed b))
     = total (pub b) + length (concat (handed (flush_batch publish b)))"
  by (simp add: flush_batch_def publish_counts)

lemma step_total:
  assumes "batcher_step publish op b = (es, b')"
  shows "total (pub b') + length (concat (handed b)) = total (pub b) + length (concat (handed b'))"
proof -
  have "total (pub (on_event publish b)) + length (concat (handed b))
      = total (pub b) + length (concat (handed (on_event publish b)))"
    using flush_total [of "b\<lparr>queue := q, batch_buffer := batch_buffer b @ [e]\<rparr>" for q e]
    by (simp add: on_event_def Let_def split: list.splits)
  then show ?thesis
    using assms flush_total [of b]
    by (auto simp: batcher_step_def send_event_def on_tick_def on_closed_def
        split: batcher_op.splits if_splits prod.splits)
qed

lemma run_total:
  "run_batcher publish ops b = (es, b') \<Longrightarrow>
   total (pub b') + length (concat (handed b)) = total (pub b) + length (concat (handed b'))"
proof (induction ops arbitrary: b es)
  case (Cons op ops)
  obtain es1 b1 es2 where s: "batcher_step publish op b = (es1, b1)" "run_batcher publish ops b1 = (es2, b')"
    using Cons.prems by (auto split: prod.splits)
  show ?case using Cons.IH [OF s(2)] step_total [OF s(1)] by simp
qed simp

end

lemma publish_with_retries_totals [simp]: "total_events (snd (publish_with_retries p)) = total_events p"
  by (simp add: publish_with_retries_def split: prod.splits bool.splits)

interpretation http: event_publisher "http_publish_batch payload_size" total_events for payload_size
  by unfold_locales (simp_all add: http_publish_batch_def)

interpretation logger: event_publisher "debug_publish_batch (\<lambda>es. Some (n es))" log_events for n
  by unfold_locales (simp_all add: debug_publish_batch_def)

section \<open>Single operations\<close>

text \<open>A full queue refuses the event that is sent; those already queued stay.\<close>

lemma full_queue_drops_newest:
  "\<not> task_ended b \<Longrightarrow> length (queue b) = max_queue_size b \<Longrightarrow>
   send_event e b = (DroppedFull, b\<lparr>events_dropped := events_dropped b + 1\<rparr>)"
  by (simp add: send_event_def)

text \<open>With a flush interval of zero no event is ever accepted.\<close>

lemma zero_interval_closes: "new_batcher p n 0 m = Ret b \<Longrightarrow> send_event e b = (ChannelClosed, b)"
  by (auto simp: new_batcher_def send_event_def split: if_splits)

lemma publish_loop_bounds:
  assumes "publish_loop outcome retries d a w = (ok, n, sleeps)" and "a \<le> retries" and "w \<le> 5000"
  shows "d < n \<and> n \<le> d + (retries + 1 - a) \<and> length sleeps + 1 = n - d \<and> (\<forall>s \<in> set sleeps. s \<le> 5000)
    \<and> (ok \<longleftrightarrow> outcome (n - 1))"
  using assms
proof (induction outcome retries d a w arbitrary: ok n sleeps rule: publish_loop.induct)
  case (1 outcome retries d a w)
  show ?case
  proof (cases "outcome d \<or> retries < a + 1")
    case True
    then show ?thesis using "1.prems" by (subst (asm) publish_loop.simps) (auto split: if_splits)
  next
    case False
    obtain ok' n' sleeps' where r: "publish_loop outcome retries (d + 1) (a + 1) (min (w * 2) 5000) = (ok', n', sleeps')"
      by (cases "publish_loop outcome retries (d + 1) (a + 1) (min (w * 2) 5000)") auto
    have "ok = ok'" "n = n'" "sleeps = w # sleeps'"
      using "1.prems"(1) False r by (subst (asm) publish_loop.simps; simp)+
    then show ?thesis using "1.IH" [OF _ _ r] False "1.prems"(2, 3) by auto
  qed
qed

definition example_event :: "nat \<Rightarrow> query_event" where
  "example_event duration =
     \<lparr>ev_query = lit ''SELECT 1'', ev_connection_id = lit ''7'', ev_database = lit ''db'', ev_params = [],
      ev_params_incomplete = False, ev_duration = duration, ev_success = True, ev_normalized = None,
      ev_fingerprints = [], ev_error = None\<rparr>"

section \<open>Properties of the pipeline\<close>



text \<open>
  The HTTP publisher has counted every event that is neither queued nor in the current batch,
  whether or not its requests succeeded.
\<close>

lemma published_events_counted:
  assumes "new_http_publisher url retries insecure outcome = Some p" and "new_batcher p n flush m = Ret b0"
    and "run_batcher (http_publish_batch payload_size) ops b0 = (accepted, b)"
  shows "events_sent b = total_events (pub b) + length (batch_buffer b) + length (queue b)"
proof -
  have b0: "batcher_ok [] b0" "handed b0 = []" "total_events (pub b0) = 0"
    using assms(1, 2) by (auto simp: new_batcher_def batcher_ok_def new_http_publisher_def split: if_splits)
  have "batcher_ok accepted b" using run_batcher_ok [OF b0(1) assms(3)] by simp
  then show ?thesis using http.run_total [OF assms(3)] b0(2, 3) by (auto simp: batcher_ok_def)
qed

end
