(* ===== verification/Float64.thy ===== *)
theory Float64
  imports Complex_Main Scry_Prelude
begin

text \<open>
  The non-negative \<open>f64\<close> arithmetic of the configuration check and the health monitor.  A finite
  \<open>f64\<close> is the rational number it stands for; every operation rounds its exact result to 53
  significant bits, ties to even.  Overflow to infinity and subnormal numbers are left out: the
  values are ratios and products of counters far inside the exponent range.
\<close>

type_synonym f64 = rat

fun bit_len :: "nat \<Rightarrow> nat" where
  "bit_len n = (if n = 0 then 0 else Suc (bit_len (n div 2)))"

declare bit_len.simps [simp del]

definition pow2 :: "int \<Rightarrow> rat" where
  "pow2 e = (if 0 \<le> e then 2 ^ nat e else 1 / 2 ^ nat (- e))"

text \<open>The exponent of the leading bit of a positive number.\<close>

definition f64_exp :: "rat \<Rightarrow> int" where
  "f64_exp q =
     (let (n, d) = quotient_of q; e = int (bit_len (nat n)) - int (bit_len (nat d))
      in if q < pow2 e then e - 1 else e)"

definition round_half_even :: "rat \<Rightarrow> int" where
  "round_half_even x =
     (let f = \<lfloor>x\<rfloor>; r = x - of_int f
      in if r < 1 / 2 \<or> r = 1 / 2 \<and> even f then f else f + 1)"

definition f64_round :: "rat \<Rightarrow> f64" where
  "f64_round q =
     (if q = 0 then 0
      else let u = pow2 (f64_exp \<bar>q\<bar> - 52) in of_int (round_half_even (q / u)) * u)"

text \<open>\<open>n as f64\<close> for an integer, division, and \<open>x as usize\<close> for a non-negative number.\<close>

definition f64_of_nat :: "nat \<Rightarrow> f64" where
  "f64_of_nat n = f64_round (of_nat n)"

definition f64_div :: "f64 \<Rightarrow> f64 \<Rightarrow> f64" where
  "f64_div x y = f64_round (x / y)"

definition f64_mul :: "f64 \<Rightarrow> f64 \<Rightarrow> f64" where
  "f64_mul x y = f64_round (x * y)"

definition f64_add :: "f64 \<Rightarrow> f64 \<Rightarrow> f64" where
  "f64_add x y = f64_round (x + y)"

definition f64_sub :: "f64 \<Rightarrow> f64 \<Rightarrow> f64" where
  "f64_sub x y = f64_round (x - y)"

definition f64_as_usize :: "f64 \<Rightarrow> nat" where
  "f64_as_usize x = min (nat \<lfloor>x\<rfloor>) (usize_modulus - 1)"

section \<open>Error and exactness\<close>

lemma bit_len_Suc: "0 < n \<Longrightarrow> bit_len n = Suc (bit_len (n div 2))"
  by (subst bit_len.simps) simp

lemma bit_len_bounds: "0 < n \<Longrightarrow> 2 ^ (bit_len n - 1) \<le> n \<and> n < 2 ^ bit_len n \<and> 0 < bit_len n"
proof (induction n rule: less_induct)
  case (less n)
  note b = bit_len_Suc [OF less.prems]
  show ?case
  proof (cases "n = 1")
    case True
    have "bit_len 1 = 1" by (simp add: bit_len_Suc bit_len.simps [of 0])
    then show ?thesis using True by simp
  next
    case False
    then have d: "0 < n div 2" "n div 2 < n" using less.prems by linarith+
    define k where "k = bit_len (n div 2)"
    have p: "2 ^ (k - 1) \<le> n div 2" "n div 2 < 2 ^ k" "0 < k" using less.IH [OF d(2, 1)] by (simp_all add: k_def)
    have "(2 :: nat) ^ k = 2 * 2 ^ (k - 1)" using p(3) by (cases k) simp_all
    then have "2 ^ k \<le> n" using p(1) by linarith
    moreover have "n < 2 * 2 ^ k" using p(2) by linarith
    ultimately show ?thesis by (simp add: b k_def)
  qed
qed

lemma pow2_pos [simp]: "0 < pow2 e"
  by (simp add: pow2_def)

lemma pow2_int: "pow2 (int k) = 2 ^ k"
  by (simp add: pow2_def)

lemma pow2_powi: "pow2 e = 2 powi e"
  by (simp add: pow2_def power_int_def inverse_eq_divide power_one_over)

lemma pow2_add: "pow2 (a + b) = pow2 a * pow2 b"
  by (simp add: pow2_powi power_int_add)

lemma pow2_Suc: "pow2 (e + 1) = 2 * pow2 e"
  by (simp add: pow2_powi power_int_add)

lemma f64_exp_bounds:
  assumes "0 < q"
  shows "pow2 (f64_exp q) \<le> q"
proof -
  obtain n d where nd: "quotient_of q = (n, d)" by (rule prod.exhaust)
  have d: "0 < d" by (rule quotient_of_denom_pos [OF nd])
  have q: "q = of_int n / of_int d" by (rule quotient_of_div [OF nd])
  have n: "0 < n" using assms d unfolding q by (simp add: zero_less_divide_iff)
  let ?a = "bit_len (nat n)" and ?b = "bit_len (nat d)"
  have a: "2 ^ (?a - 1) \<le> nat n" "0 < ?a" and b: "nat d < 2 ^ ?b" using bit_len_bounds [of "nat n"] bit_len_bounds [of "nat d"] n d by auto
  have a': "pow2 (int ?a - 1) \<le> of_int n"
  proof -
    have "pow2 (int ?a - 1) = 2 ^ (?a - 1)" using a(2) pow2_int [of "?a - 1"] by (simp add: of_nat_diff)
    also have "(2 :: rat) ^ (?a - 1) = of_nat (2 ^ (?a - 1))" by simp
    also have "\<dots> \<le> of_nat (nat n)" using a(1) by (simp only: of_nat_le_iff)
    also have "\<dots> = of_int n" using n by simp
    finally show ?thesis .
  qed
  have b': "of_int d < pow2 (int ?b)"
  proof -
    have "(of_nat (nat d) :: rat) < of_nat (2 ^ ?b)" using b by (simp only: of_nat_less_iff)
    then show ?thesis using d by (simp add: pow2_int)
  qed
  have "pow2 (int ?a - 1) = pow2 (int ?a - int ?b - 1) * pow2 (int ?b)" by (simp flip: pow2_add)
  then have "pow2 (int ?a - int ?b - 1) * of_int d \<le> pow2 (int ?a - 1)"
    using b' by (simp add: mult_left_mono less_imp_le)
  then have "pow2 (int ?a - int ?b - 1) * of_int d \<le> of_int n" using a' by linarith
  then have "pow2 (int ?a - int ?b - 1) \<le> q" using d by (simp add: q field_simps)
  then show ?thesis by (simp add: f64_exp_def nd Let_def)
qed

lemma round_half_even_error: "\<bar>of_int (round_half_even x) - x\<bar> \<le> 1 / 2"
proof (cases "x - of_int \<lfloor>x\<rfloor> < 1 / 2 \<or> x - of_int \<lfloor>x\<rfloor> = 1 / 2 \<and> even \<lfloor>x\<rfloor>")
  case True
  then have "round_half_even x = \<lfloor>x\<rfloor>" by (simp only: round_half_even_def Let_def if_True)
  moreover have "of_int \<lfloor>x\<rfloor> \<le> x" "x - of_int \<lfloor>x\<rfloor> \<le> 1 / 2" using True by (simp, linarith)
  ultimately show ?thesis by (simp add: abs_le_iff)
next
  case False
  then have "round_half_even x = \<lfloor>x\<rfloor> + 1" by (simp only: round_half_even_def Let_def if_False)
  moreover have "x < of_int \<lfloor>x\<rfloor> + 1" "1 / 2 \<le> x - of_int \<lfloor>x\<rfloor>" using False by (linarith, linarith)
  ultimately show ?thesis by (simp add: abs_le_iff)
qed

lemma round_half_even_int: "round_half_even (of_int k) = k"
  by (simp add: round_half_even_def)

text \<open>The relative error of rounding is at most \<open>2 ^ -53\<close>.\<close>

lemma f64_round_error:
  assumes "0 < q"
  shows "\<bar>f64_round q - q\<bar> \<le> q / 2 ^ 53"
proof -
  let ?u = "pow2 (f64_exp q - 52)"
  have e: "f64_round q = of_int (round_half_even (q / ?u)) * ?u" using assms by (simp add: f64_round_def Let_def)
  have "f64_round q - q = (of_int (round_half_even (q / ?u)) - q / ?u) * ?u"
    unfolding e by (simp add: left_diff_distrib less_imp_neq [OF pow2_pos, symmetric])
  then have "\<bar>f64_round q - q\<bar> = \<bar>of_int (round_half_even (q / ?u)) - q / ?u\<bar> * ?u"
    by (simp only: abs_mult abs_of_pos [OF pow2_pos])
  also have "\<dots> \<le> 1 / 2 * ?u" by (intro mult_right_mono round_half_even_error) (simp add: less_imp_le)
  finally have "\<bar>f64_round q - q\<bar> \<le> ?u / 2" by simp
  moreover have "?u * 2 ^ 52 = pow2 (f64_exp q)" using pow2_add [of "f64_exp q - 52" 52] by (simp add: pow2_def)
  ultimately show ?thesis using f64_exp_bounds [OF assms] by (simp add: field_simps)
qed

text \<open>Integers below \<open>2 ^ 53\<close> are exact.\<close>

lemma f64_of_nat_exact:
  assumes "n < 2 ^ 53"
  shows "f64_of_nat n = of_nat n"
proof (cases "n = 0")
  case True
  then show ?thesis by (simp add: f64_of_nat_def f64_round_def)
next
  case False
  let ?e = "f64_exp (of_nat n)"
  have q: "quotient_of (of_nat n) = (int n, 1)" using quotient_of_int [of "int n"] by simp
  have "2 ^ (bit_len n - 1) \<le> n" "0 < bit_len n" using bit_len_bounds [of n] False by auto
  then have "(2 :: nat) ^ (bit_len n - 1) < 2 ^ 53" using assms by linarith
  then have "bit_len n - 1 < 53" by (rule power_less_imp_less_exp [rotated]) simp
  then have "bit_len n \<le> 53" by linarith
  moreover have "bit_len 1 = 1" by (simp add: bit_len_Suc bit_len.simps [of 0])
  ultimately have e: "?e \<le> 52" by (simp add: f64_exp_def q Let_def)
  have "pow2 (?e - 52) * pow2 (52 - ?e) = 1" using pow2_add [of "?e - 52" "52 - ?e"] by (simp add: pow2_def)
  then have "of_nat n / pow2 (?e - 52) = of_nat n * pow2 (52 - ?e)"
    by (simp add: field_simps less_imp_neq [OF pow2_pos, symmetric])
  also have "\<dots> = of_int (int n * 2 ^ nat (52 - ?e))" using e by (simp add: pow2_def)
  finally have i: "of_nat n / pow2 (?e - 52) = of_int (int n * 2 ^ nat (52 - ?e))" .
  have "f64_of_nat n = of_int (round_half_even (of_nat n / pow2 (?e - 52))) * pow2 (?e - 52)"
    using False by (simp add: f64_of_nat_def f64_round_def Let_def)
  also have "\<dots> = (of_nat n / pow2 (?e - 52)) * pow2 (?e - 52)" unfolding i round_half_even_int ..
  also have "\<dots> = of_nat n" by (simp add: less_imp_neq [OF pow2_pos, symmetric])
  finally show ?thesis .
qed

text \<open>Comparing a rounded quotient with an integer is exact while the product fits 53 bits.\<close>

lemma f64_ratio_exact:
  assumes "a < 2 ^ 53" and "0 < b" and "b < 2 ^ 53" and "t * b + 1 < 2 ^ 53"
  shows "f64_of_nat t < f64_div (f64_of_nat a) (f64_of_nat b) \<longleftrightarrow> t * b < a"
proof -
  have "t \<le> t * b" using assms(2) by simp
  then have t: "t < 2 ^ 53" using assms(4) by linarith
  define q :: rat where "q = of_nat a / of_nat b"
  have r: "f64_div (f64_of_nat a) (f64_of_nat b) = f64_round q"
    using assms(1, 3) by (simp add: f64_div_def f64_of_nat_exact q_def)
  have b: "0 < (of_nat b :: rat)" using assms(2) by simp
  define P :: rat where "P = of_nat t * of_nat b"
  define R where "R = f64_round q * of_nat b"
  have prod: "P + 1 < 2 ^ 53"
  proof -
    have "(of_nat (t * b + 1) :: rat) < of_nat (2 ^ 53)" using assms(4) by (simp only: of_nat_less_iff)
    then show ?thesis by (simp add: P_def)
  qed
  have goal: "f64_of_nat t < f64_div (f64_of_nat a) (f64_of_nat b) \<longleftrightarrow> P < R"
    unfolding r f64_of_nat_exact [OF t] P_def R_def using b by simp
  have qb: "q * of_nat b = of_nat a" using b by (simp add: q_def)
  have pt: "P = of_nat (t * b)" by (simp add: P_def)
  show ?thesis
  proof (cases "a = t * b")
    case True
    then have "q = of_nat t" using assms(2) by (simp add: q_def)
    then have "f64_round q = of_nat t" using f64_of_nat_exact [OF t] by (simp add: f64_of_nat_def)
    then have "R = P" by (simp add: R_def P_def)
    then show ?thesis unfolding goal using True by simp
  next
    case False
    have err: "\<bar>f64_round q - q\<bar> \<le> q / 2 ^ 53"
    proof (cases "a = 0")
      case False
      then show ?thesis using b by (intro f64_round_error) (simp add: q_def)
    qed (simp add: q_def f64_round_def)
    have "\<bar>(f64_round q - q) * of_nat b\<bar> \<le> q / 2 ^ 53 * of_nat b"
      using mult_right_mono [OF err, of "of_nat b"] b by (simp only: abs_mult abs_of_pos less_imp_le)
    then have "\<bar>R - of_nat a\<bar> \<le> of_nat a / 2 ^ 53"
      by (simp only: R_def qb [symmetric] left_diff_distrib times_divide_eq_left)
    then have R: "of_nat a - of_nat a / 2 ^ 53 \<le> R" "R \<le> of_nat a + of_nat a / 2 ^ 53" by linarith+
    show ?thesis
    proof (cases "t * b < a")
      case True
      then have "(of_nat (t * b + 1) :: rat) \<le> of_nat a" by (simp only: of_nat_le_iff)
      then have "P + 1 \<le> of_nat a" by (simp only: pt of_nat_add of_nat_1)
      then show ?thesis unfolding goal using R(1) prod True by simp
    next
      case False
      then have "a + 1 \<le> t * b" using \<open>a \<noteq> t * b\<close> by simp
      then have "(of_nat (a + 1) :: rat) \<le> of_nat (t * b)" by (simp only: of_nat_le_iff)
      then have "of_nat a + 1 \<le> P" by (simp only: pt of_nat_add of_nat_1)
      then show ?thesis unfolding goal using R(2) prod False by simp
    qed
  qed
qed

end
