(* ===== verification/Hot_Data.thy ===== *)
theory Hot_Data
  imports Rust_Str "HOL-Library.AList" "HOL-Library.Multiset"
begin

text \<open>
  \<open>observability/hot_data.rs\<close> and \<open>observability/timeline.rs\<close>: the count-min sketch and the list of the
  most frequent fingerprints, and the phases of a query.  The hash functions are parameters, as is
  the choice of the binary heap among entries with the same count; an access is one step.  Counters
  stay below \<open>2 ^ 64\<close>.
\<close>

section \<open>The sketch\<close>

definition u64_max :: nat where
  "u64_max = 2 ^ 64 - 1"

record sketch =
  width :: nat
  table :: "nat list list"

definition new_sketch :: "nat \<Rightarrow> nat \<Rightarrow> sketch" where
  "new_sketch w d = \<lparr>width = w, table = replicate d (replicate w 0)\<rparr>"

text \<open>\<open>hash i fp\<close> is the \<open>i\<close>-th hash function; the rows from \<open>i\<close> on are visited in order.\<close>

fun increment_rows :: "(nat \<Rightarrow> rstr \<Rightarrow> nat) \<Rightarrow> nat \<Rightarrow> rstr \<Rightarrow> nat \<Rightarrow> nat list list \<Rightarrow> nat \<Rightarrow> nat list list \<times> nat" where
  "increment_rows hash w fp i [] min_count = ([], min_count)"
| "increment_rows hash w fp i (row # rows) min_count =
     (let bucket = hash i fp mod w;
          new_count = row ! bucket + 1;
          (rows', m) = increment_rows hash w fp (i + 1) rows (min min_count new_count)
      in (row[bucket := new_count] # rows', m))"

definition increment :: "(nat \<Rightarrow> rstr \<Rightarrow> nat) \<Rightarrow> rstr \<Rightarrow> sketch \<Rightarrow> nat \<times> sketch" where
  "increment hash fp s =
     (let (rows, m) = increment_rows hash (width s) fp 0 (table s) u64_max in (m, s\<lparr>table := rows\<rparr>))"

definition estimate :: "(nat \<Rightarrow> rstr \<Rightarrow> nat) \<Rightarrow> rstr \<Rightarrow> sketch \<Rightarrow> nat" where
  "estimate hash fp s =
     fold (\<lambda>i m. min m (table s ! i ! (hash i fp mod width s))) [0..<length (table s)] u64_max"

text \<open>\<open>decayed n\<close> is \<open>(n as f64 * decay_factor) as u64\<close>.\<close>

definition decay_sketch :: "(nat \<Rightarrow> nat) \<Rightarrow> sketch \<Rightarrow> sketch" where
  "decay_sketch decayed s = s\<lparr>table := map (map decayed) (table s)\<rparr>"

section \<open>The most frequent fingerprints\<close>

text \<open>The heap holds the entries of the map; only its minimum is looked at.\<close>

record top_k =
  k_limit :: nat
  heap :: "(rstr \<times> nat) list"
  counts :: "(rstr \<times> nat) list"

definition new_top_k :: "nat \<Rightarrow> top_k" where
  "new_top_k k = \<lparr>k_limit = k, heap = [], counts = []\<rparr>"

definition rebuild_heap :: "top_k \<Rightarrow> top_k" where
  "rebuild_heap t = t\<lparr>heap := counts t\<rparr>"

text \<open>\<open>pick\<close> chooses the entry the heap has at its root.\<close>

definition update_top :: "((rstr \<times> nat) list \<Rightarrow> rstr \<times> nat) \<Rightarrow> rstr \<Rightarrow> nat \<Rightarrow> top_k \<Rightarrow> top_k" where
  "update_top pick fp n t =
     (if fp \<in> fst ` set (counts t) then rebuild_heap (t\<lparr>counts := AList.update fp n (counts t)\<rparr>)
      else if length (counts t) < k_limit t
      then t\<lparr>counts := AList.update fp n (counts t), heap := (fp, n) # heap t\<rparr>
      else if heap t = [] then t
      else if snd (pick (heap t)) < n
      then t\<lparr>counts := AList.update fp n (AList.delete (fst (pick (heap t))) (counts t)),
             heap := (fp, n) # remove1 (pick (heap t)) (heap t)\<rparr>
      else t)"

text \<open>\<open>iter\<close> is the order of traversal of the map; the sort is stable and descending.\<close>

definition get_top_k :: "((rstr \<times> nat) list \<Rightarrow> (rstr \<times> nat) list) \<Rightarrow> top_k \<Rightarrow> (rstr \<times> nat) list" where
  "get_top_k iter t = sort_key (\<lambda>e. - int (snd e)) (iter (counts t))"

definition decay_top :: "(nat \<Rightarrow> nat) \<Rightarrow> top_k \<Rightarrow> top_k" where
  "decay_top decayed t = rebuild_heap (t\<lparr>counts := map (\<lambda>(fp, n). (fp, decayed n)) (counts t)\<rparr>)"

definition unique_count :: "top_k \<Rightarrow> nat" where
  "unique_count t = length (counts t)"

section \<open>The tracker\<close>

record tracker =
  tr_sketch :: sketch
  tr_top :: top_k

definition new_tracker :: "nat \<Rightarrow> tracker" where
  "new_tracker k = \<lparr>tr_sketch = new_sketch 2048 4, tr_top = new_top_k k\<rparr>"

definition record_access ::
    "(nat \<Rightarrow> rstr \<Rightarrow> nat) \<Rightarrow> ((rstr \<times> nat) list \<Rightarrow> rstr \<times> nat) \<Rightarrow> rstr \<Rightarrow> tracker \<Rightarrow> tracker" where
  "record_access hash pick fp tr =
     (let (n, s) = increment hash fp (tr_sketch tr)
      in \<lparr>tr_sketch = s, tr_top = update_top pick fp n (tr_top tr)\<rparr>)"

definition apply_decay :: "(nat \<Rightarrow> nat) \<Rightarrow> tracker \<Rightarrow> tracker" where
  "apply_decay decayed tr = \<lparr>tr_sketch = decay_sketch decayed (tr_sketch tr), tr_top = decay_top decayed (tr_top tr)\<rparr>"

section \<open>Timelines\<close>

text \<open>Instants in nanoseconds; \<open>duration_since\<close> saturates at zero.\<close>

record timeline =
  received_at :: nat
  pool_acquire_start :: "nat option"
  pool_acquire_end :: "nat option"
  backend_start :: "nat option"
  backend_end :: "nat option"

definition new_timeline :: "nat \<Rightarrow> timeline" where
  "new_timeline now = \<lparr>received_at = now, pool_acquire_start = None, pool_acquire_end = None,
     backend_start = None, backend_end = None\<rparr>"

definition for_completed :: "nat \<Rightarrow> nat \<Rightarrow> timeline" where
  "for_completed received now = \<lparr>received_at = received, pool_acquire_start = None, pool_acquire_end = None,
     backend_start = Some received, backend_end = Some now\<rparr>"

definition set_pool_acquire :: "nat \<Rightarrow> nat \<Rightarrow> timeline \<Rightarrow> timeline" where
  "set_pool_acquire begins ends t = t\<lparr>pool_acquire_start := Some begins, pool_acquire_end := Some ends\<rparr>"

definition mark_pool_acquire_start :: "nat \<Rightarrow> timeline \<Rightarrow> timeline" where
  "mark_pool_acquire_start now t = t\<lparr>pool_acquire_start := Some now\<rparr>"

definition mark_pool_acquire_end :: "nat \<Rightarrow> timeline \<Rightarrow> timeline" where
  "mark_pool_acquire_end now t = t\<lparr>pool_acquire_end := Some now\<rparr>"

definition mark_backend_start :: "nat \<Rightarrow> timeline \<Rightarrow> timeline" where
  "mark_backend_start now t = t\<lparr>backend_start := Some now\<rparr>"

definition mark_backend_end :: "nat \<Rightarrow> timeline \<Rightarrow> timeline" where
  "mark_backend_end now t = t\<lparr>backend_end := Some now\<rparr>"

definition queue_time :: "timeline \<Rightarrow> nat option" where
  "queue_time t = map_option (\<lambda>s. s - received_at t) (pool_acquire_start t)"

definition pool_acquire_time :: "timeline \<Rightarrow> nat option" where
  "pool_acquire_time t =
     (case (pool_acquire_start t, pool_acquire_end t) of (Some s, Some e) \<Rightarrow> Some (e - s) | _ \<Rightarrow> None)"

definition backend_time :: "timeline \<Rightarrow> nat option" where
  "backend_time t = (case (backend_start t, backend_end t) of (Some s, Some e) \<Rightarrow> Some (e - s) | _ \<Rightarrow> None)"

definition total_time :: "nat \<Rightarrow> timeline \<Rightarrow> nat" where
  "total_time now t = (case backend_end t of Some e \<Rightarrow> e | None \<Rightarrow> now) - received_at t"

text \<open>\<open>d.as_micros() as u64\<close>.\<close>

definition micros :: "nat \<Rightarrow> nat" where
  "micros d = d div 1000 mod 2 ^ 64"

definition proxy_overhead_micros :: "nat \<Rightarrow> nat option \<Rightarrow> nat option \<Rightarrow> nat option \<Rightarrow> nat" where
  "proxy_overhead_micros tot backend pool q =
     tot - (case backend of Some n \<Rightarrow> n | None \<Rightarrow> 0) - (case pool of Some n \<Rightarrow> n | None \<Rightarrow> 0)
       - (case q of Some n \<Rightarrow> n | None \<Rightarrow> 0)"

record timeline_phases =
  queue_time_micros :: "nat option"
  pool_acquire_micros :: "nat option"
  backend_micros :: "nat option"
  total_micros :: nat
  overhead_micros :: nat

definition phase_durations_micros :: "nat \<Rightarrow> timeline \<Rightarrow> timeline_phases" where
  "phase_durations_micros now t =
     (let q = map_option micros (queue_time t); pool = map_option micros (pool_acquire_time t);
          backend = map_option micros (backend_time t); tot = micros (total_time now t)
      in \<lparr>queue_time_micros = q, pool_acquire_micros = pool, backend_micros = backend, total_micros = tot,
          overhead_micros = proxy_overhead_micros tot backend pool q\<rparr>)"

section \<open>What the sketch guarantees\<close>

definition cell :: "(nat \<Rightarrow> rstr \<Rightarrow> nat) \<Rightarrow> sketch \<Rightarrow> nat \<Rightarrow> rstr \<Rightarrow> nat" where
  "cell hash s i fp = table s ! i ! (hash i fp mod width s)"

lemma increment_rows_spec:
  assumes "increment_rows hash w fp i rows m0 = (rows', m)"
  shows "length rows' = length rows"
    and "j < length rows \<Longrightarrow> rows' ! j = (rows ! j)[hash (i + j) fp mod w := rows ! j ! (hash (i + j) fp mod w) + 1]"
    and "m \<le> m0"
    and "j < length rows \<Longrightarrow> m \<le> rows ! j ! (hash (i + j) fp mod w) + 1"
    and "c \<le> m0 \<Longrightarrow> (\<And>j. j < length rows \<Longrightarrow> c \<le> rows ! j ! (hash (i + j) fp mod w) + 1) \<Longrightarrow> c \<le> m"
proof -
  have "length rows' = length rows
    \<and> (\<forall>j < length rows. rows' ! j = (rows ! j)[hash (i + j) fp mod w := rows ! j ! (hash (i + j) fp mod w) + 1])
    \<and> m \<le> m0 \<and> (\<forall>j < length rows. m \<le> rows ! j ! (hash (i + j) fp mod w) + 1)
    \<and> (\<forall>c. c \<le> m0 \<longrightarrow> (\<forall>j < length rows. c \<le> rows ! j ! (hash (i + j) fp mod w) + 1) \<longrightarrow> c \<le> m)"
    using assms
  proof (induction rows arbitrary: i m0 rows' m)
    case (Cons row rows)
    let ?b = "hash i fp mod w"
    obtain rs where r: "increment_rows hash w fp (i + 1) rows (min m0 (row ! ?b + 1)) = (rs, m)"
        "rows' = row[?b := row ! ?b + 1] # rs"
      using Cons.prems by (auto simp: Let_def split: prod.splits)
    note IH = Cons.IH [OF r(1)]
    show ?case
    proof (intro conjI allI impI)
      show "length rows' = length (row # rows)" "m \<le> m0" using IH r(2) by auto
    next
      fix j assume "j < length (row # rows)"
      then show "rows' ! j = ((row # rows) ! j)[hash (i + j) fp mod w := (row # rows) ! j ! (hash (i + j) fp mod w) + 1]"
          and "m \<le> (row # rows) ! j ! (hash (i + j) fp mod w) + 1"
        using IH r(2) by (cases j; auto)+
    next
      fix c assume c: "c \<le> m0" "\<forall>j < length (row # rows). c \<le> (row # rows) ! j ! (hash (i + j) fp mod w) + 1"
      have "c \<le> row ! ?b + 1" using c(2) by force
      moreover have "\<forall>j < length rows. c \<le> rows ! j ! (hash (i + 1 + j) fp mod w) + 1"
        using c(2) by (metis Suc_less_eq add_Suc_right length_Cons nth_Cons_Suc plus_1_eq_Suc add.assoc)
      ultimately show "c \<le> m" using IH c(1) by simp
    qed
  qed simp
  then show "length rows' = length rows"
    and "j < length rows \<Longrightarrow> rows' ! j = (rows ! j)[hash (i + j) fp mod w := rows ! j ! (hash (i + j) fp mod w) + 1]"
    and "m \<le> m0"
    and "j < length rows \<Longrightarrow> m \<le> rows ! j ! (hash (i + j) fp mod w) + 1"
    and "c \<le> m0 \<Longrightarrow> (\<And>j. j < length rows \<Longrightarrow> c \<le> rows ! j ! (hash (i + j) fp mod w) + 1) \<Longrightarrow> c \<le> m"
    by blast+
qed

text \<open>Every cell of a fingerprint is between its number of accesses and the number of all accesses.\<close>

definition sketch_ok :: "(nat \<Rightarrow> rstr \<Rightarrow> nat) \<Rightarrow> rstr list \<Rightarrow> sketch \<Rightarrow> bool" where
  "sketch_ok hash acc s =
     (0 < width s \<and> table s \<noteq> [] \<and> (\<forall>i < length (table s). length (table s ! i) = width s
        \<and> (\<forall>fp. count_list acc fp \<le> cell hash s i fp \<and> cell hash s i fp \<le> length acc)))"

lemma sketch_ok_new: "0 < w \<Longrightarrow> 0 < d \<Longrightarrow> sketch_ok hash [] (new_sketch w d)"
  by (auto simp: sketch_ok_def new_sketch_def cell_def)

lemma increment_cells:
  assumes "sketch_ok hash acc s" and "increment hash fp s = (n, s')" and "i < length (table s)"
  shows "cell hash s' i g = (if hash i g mod width s = hash i fp mod width s then cell hash s i fp + 1 else cell hash s i g)"
    and "length (table s') = length (table s)" and "width s' = width s" and "length (table s' ! i) = width s"
proof -
  obtain rows where r: "increment_rows hash (width s) fp 0 (table s) u64_max = (rows, n)" "s' = s\<lparr>table := rows\<rparr>"
    using assms(2) by (auto simp: increment_def split: prod.splits)
  have "length (table s ! i) = width s" "0 < width s" using assms(1, 3) by (auto simp: sketch_ok_def)
  then show "cell hash s' i g = (if hash i g mod width s = hash i fp mod width s then cell hash s i fp + 1 else cell hash s i g)"
      and "length (table s') = length (table s)" and "width s' = width s" and "length (table s' ! i) = width s"
    using increment_rows_spec(1) [OF r(1)] increment_rows_spec(2) [OF r(1) assms(3)] r(2)
    by (auto simp: cell_def nth_list_update)
qed

lemma sketch_ok_increment:
  assumes ok: "sketch_ok hash acc s" and inc: "increment hash fp s = (n, s')"
  shows "sketch_ok hash (fp # acc) s'"
proof -
  note c = increment_cells [OF ok inc]
  have p: "0 < length (table s)" using ok by (simp add: sketch_ok_def)
  have t: "table s' \<noteq> []" "width s' = width s" "length (table s') = length (table s)"
    using c(2) [OF p] c(3) [OF p] p by auto
  have "count_list (fp # acc) g \<le> cell hash s' i g \<and> cell hash s' i g \<le> length (fp # acc)"
    if "i < length (table s)" for i g
  proof -
    have "count_list acc g \<le> cell hash s i g" "cell hash s i g \<le> length acc" "cell hash s i fp \<le> length acc"
      using ok that by (auto simp: sketch_ok_def)
    moreover have "cell hash s' i g = (if hash i g mod width s = hash i fp mod width s then cell hash s i g + 1 else cell hash s i g)"
      using c(1) [OF that, of g] by (simp add: cell_def)
    ultimately show ?thesis by (cases "g = fp") auto
  qed
  moreover have "0 < width s" using ok by (simp add: sketch_ok_def)
  ultimately show ?thesis using t c(4) unfolding sketch_ok_def by simp
qed

text \<open>The estimate an access returns is no less than anything every cell of the fingerprint had reached.\<close>

lemma increment_estimate:
  assumes ok: "sketch_ok hash acc s" and inc: "increment hash fp s = (n, s')" and small: "length acc < u64_max"
  shows "count_list acc fp + 1 \<le> n" and "n \<le> length acc + 1" and "i < length (table s) \<Longrightarrow> n \<le> cell hash s' i fp"
    and "(\<And>i. i < length (table s) \<Longrightarrow> c \<le> cell hash s i fp) \<Longrightarrow> c \<le> n"
proof -
  obtain rows where r: "increment_rows hash (width s) fp 0 (table s) u64_max = (rows, n)" "s' = s\<lparr>table := rows\<rparr>"
    using inc by (auto simp: increment_def split: prod.splits)
  have cells: "count_list acc fp \<le> cell hash s i fp \<and> cell hash s i fp \<le> length acc" if "i < length (table s)" for i
    using ok that by (auto simp: sketch_ok_def)
  have pos: "0 < length (table s)" using ok by (auto simp: sketch_ok_def)
  have up: "n \<le> cell hash s i fp + 1" if "i < length (table s)" for i
    using increment_rows_spec(4) [OF r(1) that] by (simp add: cell_def)
  show "n \<le> length acc + 1" using up [OF pos] cells [OF pos] by simp
  show "i < length (table s) \<Longrightarrow> n \<le> cell hash s' i fp"
    using up increment_cells(1) [OF ok inc, of i fp] by simp
  have low: "c \<le> n" if "\<And>i. i < length (table s) \<Longrightarrow> c \<le> cell hash s i fp + 1" for c
  proof -
    have "c \<le> u64_max" using that [OF pos] cells [OF pos] small by simp
    then show ?thesis using increment_rows_spec(5) [OF r(1)] that by (simp add: cell_def)
  qed
  show "count_list acc fp + 1 \<le> n" by (rule low) (use cells in simp)
  show "(\<And>i. i < length (table s) \<Longrightarrow> c \<le> cell hash s i fp) \<Longrightarrow> c \<le> n" by (rule low) (simp add: le_SucI)
qed

section \<open>What the list guarantees\<close>

definition picks_min :: "((rstr \<times> nat) list \<Rightarrow> rstr \<times> nat) \<Rightarrow> bool" where
  "picks_min pick = (\<forall>xs. xs \<noteq> [] \<longrightarrow> pick xs \<in> set xs \<and> (\<forall>y \<in> set xs. snd (pick xs) \<le> snd y))"

abbreviation listed :: "top_k \<Rightarrow> rstr set" where
  "listed t \<equiv> fst ` set (counts t)"

text \<open>The heap mirrors the map, which has distinct keys within the limit.\<close>

definition top_wf :: "top_k \<Rightarrow> bool" where
  "top_wf t = (distinct (map fst (counts t)) \<and> mset (heap t) = mset (counts t) \<and> length (counts t) \<le> k_limit t)"

lemma AList_update_fresh: "k \<notin> fst ` set m \<Longrightarrow> AList.update k v m = m @ [(k, v)]"
  by (induction m) auto

lemma AList_update_length: "k \<in> fst ` set m \<Longrightarrow> length (AList.update k v m) = length m"
  by (induction m) auto

lemma AList_delete_mset:
  "distinct (map fst m) \<Longrightarrow> (k, v) \<in> set m \<Longrightarrow> mset m = add_mset (k, v) (mset (AList.delete k m))"
proof (induction m)
  case (Cons a m)
  obtain k' v' where a: "a = (k', v')" by (rule prod.exhaust)
  show ?case
  proof (cases "k' = k")
    case True
    then have n: "k \<notin> fst ` set m" using Cons.prems(1) a by simp
    then have "v' = v" using Cons.prems(2) True a by force
    then show ?thesis using True a n by (simp add: AList.delete_id)
  next
    case False
    then have "(k, v) \<in> set m" using Cons.prems(2) a by simp
    then show ?thesis using Cons.IH Cons.prems(1) False a by simp
  qed
qed simp

lemma AList_delete_length:
  assumes "distinct (map fst m)" and "(k, v) \<in> set m"
  shows "length (AList.delete k m) + 1 = length m"
proof -
  have "size (mset m) = size (add_mset (k, v) (mset (AList.delete k m)))"
    by (rule arg_cong [OF AList_delete_mset [OF assms]])
  then show ?thesis by simp
qed

lemma AList_update_set:
  "distinct (map fst m) \<Longrightarrow> set (AList.update k v m) = insert (k, v) {e \<in> set m. fst e \<noteq> k}"
proof (induction m)
  case (Cons a m)
  obtain k' v' where a: "a = (k', v')" by (rule prod.exhaust)
  show ?case
  proof (cases "k' = k")
    case True
    then have "\<forall>e \<in> set m. fst e \<noteq> k" using Cons.prems a by force
    then show ?thesis using True a by auto
  next
    case False
    then show ?thesis using Cons a by auto
  qed
qed simp

text \<open>The ways an update changes the list.\<close>

lemma update_top_listed:
  assumes wf: "top_wf t" and fp: "fp \<in> listed t" and t': "t' = update_top pick fp n t"
  shows "top_wf t' \<and> k_limit t' = k_limit t \<and> listed t' = listed t
    \<and> set (counts t') = insert (fp, n) {e \<in> set (counts t). fst e \<noteq> fp} \<and> length (counts t') = length (counts t)"
proof -
  have d: "distinct (map fst (counts t))" and l: "length (counts t) \<le> k_limit t" using wf by (simp_all add: top_wf_def)
  let ?c = "AList.update fp n (counts t)"
  have t: "counts t' = ?c" "heap t' = ?c" "k_limit t' = k_limit t" using fp by (simp_all add: t' update_top_def rebuild_heap_def)
  have s: "set ?c = insert (fp, n) {e \<in> set (counts t). fst e \<noteq> fp}" by (rule AList_update_set [OF d])
  have "length ?c = length (counts t)" by (rule AList_update_length [OF fp])
  moreover have "fst ` set ?c = listed t" using fp by (auto simp: s image_iff)
  ultimately show ?thesis using t s l distinct_update [OF d, of fp n] by (simp add: top_wf_def)
qed

lemma update_top_room:
  assumes wf: "top_wf t" and fp: "fp \<notin> listed t" "length (counts t) < k_limit t" and t': "t' = update_top pick fp n t"
  shows "top_wf t' \<and> k_limit t' = k_limit t \<and> set (counts t') = insert (fp, n) (set (counts t))"
proof -
  have "counts t' = counts t @ [(fp, n)]" "heap t' = (fp, n) # heap t" "k_limit t' = k_limit t"
    using fp by (simp_all add: t' update_top_def AList_update_fresh)
  then show ?thesis using wf fp by (simp add: top_wf_def)
qed

lemma update_top_full:
  assumes wf: "top_wf t" and pick: "picks_min pick"
    and fp: "fp \<notin> listed t" "length (counts t) = k_limit t" and t': "t' = update_top pick fp n t"
  obtains (kept) "t' = t" "\<forall>e \<in> set (counts t). n \<le> snd e"
    | (replaced) g c where "(g, c) \<in> set (counts t)" "\<forall>e \<in> set (counts t). c \<le> snd e" "c < n"
        "set (counts t') = insert (fp, n) {e \<in> set (counts t). fst e \<noteq> g}" "top_wf t'" "k_limit t' = k_limit t"
        "length (counts t') = k_limit t"
proof -
  have d: "distinct (map fst (counts t))" and m: "mset (heap t) = mset (counts t)" using wf by (simp_all add: top_wf_def)
  have h: "set (heap t) = set (counts t)" by (rule mset_eq_setD [OF m])
  obtain g c where p: "pick (heap t) = (g, c)" by (rule prod.exhaust)
  show thesis
  proof (cases "heap t \<noteq> [] \<and> c < n")
    case False
    have "\<forall>e \<in> set (counts t). n \<le> snd e"
    proof
      fix e assume e: "e \<in> set (counts t)"
      then have "heap t \<noteq> []" using h by auto
      then have "c \<le> snd e" "\<not> c < n" using False pick e h p unfolding picks_min_def by (metis snd_conv)+
      then show "n \<le> snd e" by simp
    qed
    moreover have "t' = t" using False fp p by (auto simp: t' update_top_def)
    ultimately show thesis by (rule kept [rotated])
  next
    case True
    let ?rest = "AList.delete g (counts t)"
    have gc: "(g, c) \<in> set (counts t)" "\<forall>e \<in> set (counts t). c \<le> snd e"
      using pick h p True unfolding picks_min_def by (metis snd_conv)+
    have rest: "set ?rest = {e \<in> set (counts t). fst e \<noteq> g}" by (auto simp: AList.delete_eq)
    have r: "fp \<notin> fst ` set ?rest" using fp(1) by (auto simp: rest)
    have t: "counts t' = ?rest @ [(fp, n)]" "heap t' = (fp, n) # remove1 (g, c) (heap t)" "k_limit t' = k_limit t"
      using True fp p AList_update_fresh [OF r] by (simp_all add: t' update_top_def)
    have len: "length ?rest + 1 = length (counts t)" by (rule AList_delete_length [OF d gc(1)])
    have "mset (remove1 (g, c) (heap t)) = mset ?rest" using AList_delete_mset [OF d gc(1)] m by simp
    then have "mset (heap t') = mset (counts t')" using t by simp
    moreover have "distinct (map fst (counts t'))" using d r t by (simp add: AList.distinct_delete)
    ultimately have wf': "top_wf t'" using t len fp(2) by (simp add: top_wf_def)
    show thesis by (rule replaced [OF gc conjunct2 [OF True]]) (use t rest len fp(2) wf' in simp_all)
  qed
qed

section \<open>What the tracker guarantees\<close>

text \<open>
  After the accesses \<open>acc\<close>: a listed count lies between the number of accesses of its fingerprint and
  each of its cells; a fingerprint that is not listed has no more accesses than any listed count;
  and while there is room everything accessed is listed.
\<close>

definition tracker_ok :: "(nat \<Rightarrow> rstr \<Rightarrow> nat) \<Rightarrow> rstr list \<Rightarrow> tracker \<Rightarrow> bool" where
  "tracker_ok hash acc tr =
     (sketch_ok hash acc (tr_sketch tr) \<and> top_wf (tr_top tr)
      \<and> (\<forall>(fp, c) \<in> set (counts (tr_top tr)).
           count_list acc fp \<le> c \<and> (\<forall>i < length (table (tr_sketch tr)). c \<le> cell hash (tr_sketch tr) i fp))
      \<and> (\<forall>fp. fp \<notin> listed (tr_top tr) \<longrightarrow> (\<forall>e \<in> set (counts (tr_top tr)). count_list acc fp \<le> snd e))
      \<and> (length (counts (tr_top tr)) < k_limit (tr_top tr) \<longrightarrow> set acc \<subseteq> listed (tr_top tr)))"

lemma tracker_ok_new: "tracker_ok hash [] (new_tracker k)"
  by (simp add: tracker_ok_def new_tracker_def sketch_ok_new new_top_k_def top_wf_def)

lemma unlisted_count_bound:
  assumes "tracker_ok hash acc tr" and "fp \<notin> listed (tr_top tr)" and "(g, c) \<in> set (counts (tr_top tr))"
  shows "count_list acc fp \<le> c"
proof -
  have "\<forall>e \<in> set (counts (tr_top tr)). count_list acc fp \<le> snd e"
    using assms(1, 2) unfolding tracker_ok_def by blast
  then show ?thesis using assms(3) by force
qed

lemma tracker_ok_access:
  assumes ok: "tracker_ok hash acc tr" and pick: "picks_min pick" and small: "length acc < u64_max"
  shows "tracker_ok hash (fp # acc) (record_access hash pick fp tr)"
proof -
  let ?s = "tr_sketch tr" and ?t = "tr_top tr"
  obtain n s' where inc: "increment hash fp ?s = (n, s')" by (rule prod.exhaust)
  define t' where "t' = update_top pick fp n ?t"
  have tr': "record_access hash pick fp tr = \<lparr>tr_sketch = s', tr_top = t'\<rparr>"
    by (simp add: record_access_def inc t'_def)
  have sk: "sketch_ok hash acc ?s" and wf: "top_wf ?t" using ok by (simp_all add: tracker_ok_def)
  have A: "count_list acc g \<le> c" "i < length (table ?s) \<Longrightarrow> c \<le> cell hash ?s i g" if "(g, c) \<in> set (counts ?t)" for g c i
    using ok that unfolding tracker_ok_def by blast+
  have B: "count_list acc g \<le> c" if "g \<notin> listed ?t" "(h, c) \<in> set (counts ?t)" for g h c
    by (rule unlisted_count_bound [OF ok that])
  have C: "length (counts ?t) < k_limit ?t \<Longrightarrow> set acc \<subseteq> listed ?t" using ok by (simp add: tracker_ok_def)
  note est = increment_estimate [OF sk inc small]
  have len: "length (table s') = length (table ?s)"
    using increment_cells(2) [OF sk inc, of 0] sk by (simp add: sketch_ok_def)
  have mono: "c \<le> cell hash s' i g" if "(g, c) \<in> set (counts ?t)" "i < length (table ?s)" for i g c
    using increment_cells(1) [OF sk inc that(2), of g] A(2) [OF that] by (auto simp: cell_def split: if_splits)
  have entry: "count_list (fp # acc) g \<le> c \<and> (\<forall>i < length (table s'). c \<le> cell hash s' i g)"
    if "(g, c) = (fp, n) \<or> (g, c) \<in> set (counts ?t) \<and> g \<noteq> fp" for g c
    using that est(1, 3) A(1) mono len by auto
  have old: "c \<le> n" if "(fp, c) \<in> set (counts ?t)" for c by (rule est(4)) (rule A(2) [OF that])
  have goal: "tracker_ok hash (fp # acc) (record_access hash pick fp tr)"
    if "top_wf t'" "\<And>e. e \<in> set (counts t') \<Longrightarrow> e = (fp, n) \<or> e \<in> set (counts ?t) \<and> fst e \<noteq> fp"
      "\<And>g h c. g \<notin> listed t' \<Longrightarrow> (h, c) \<in> set (counts t') \<Longrightarrow> count_list (fp # acc) g \<le> c"
      "length (counts t') < k_limit t' \<Longrightarrow> set (fp # acc) \<subseteq> listed t'"
    unfolding tracker_ok_def tr' tracker.simps
  proof (intro conjI)
    show "sketch_ok hash (fp # acc) s'" by (rule sketch_ok_increment [OF sk inc])
    show "\<forall>(g, c) \<in> set (counts t'). count_list (fp # acc) g \<le> c \<and> (\<forall>i < length (table s'). c \<le> cell hash s' i g)"
    proof (intro ballI, unfold split_paired_all case_prod_conv)
      fix g c assume "(g, c) \<in> set (counts t')"
      from that(2) [OF this] have "(g, c) = (fp, n) \<or> (g, c) \<in> set (counts ?t) \<and> g \<noteq> fp" by simp
      from entry [OF this] show "count_list (fp # acc) g \<le> c \<and> (\<forall>i < length (table s'). c \<le> cell hash s' i g)" .
    qed
    show "\<forall>g. g \<notin> listed t' \<longrightarrow> (\<forall>e \<in> set (counts t'). count_list (fp # acc) g \<le> snd e)"
      using that(3) by (metis prod.collapse)
  qed (use that(1, 4) in simp_all)
  consider (listed) "fp \<in> listed ?t" | (room) "fp \<notin> listed ?t" "length (counts ?t) < k_limit ?t"
    | (full) "fp \<notin> listed ?t" "length (counts ?t) = k_limit ?t"
    using wf by (auto simp: top_wf_def intro: le_neq_implies_less)
  then show ?thesis
  proof cases
    case listed
    note u = update_top_listed [OF wf listed t'_def]
    obtain c where c: "(fp, c) \<in> set (counts ?t)" using listed by auto
    show ?thesis
    proof (rule goal)
      fix g h d assume g: "g \<notin> listed t'" and h: "(h, d) \<in> set (counts t')"
      have g': "g \<notin> listed ?t" "g \<noteq> fp" using g u listed by auto
      show "count_list (fp # acc) g \<le> d"
      proof (cases "(h, d) = (fp, n)")
        case True
        then show ?thesis using B [OF g'(1) c] old [OF c] g'(2) by simp
      next
        case False
        then have "(h, d) \<in> set (counts ?t)" using h u by auto
        then show ?thesis using B [OF g'(1)] g'(2) by simp
      qed
    qed (use u C listed in auto)
  next
    case room
    note u = update_top_room [OF wf room t'_def]
    have "count_list (fp # acc) g = 0" if "g \<notin> listed t'" for g
    proof -
      have "g \<noteq> fp" "g \<notin> set acc" using that u C [OF room(2)] by auto
      then show ?thesis by (simp add: count_list_0_iff)
    qed
    then show ?thesis by (intro goal) (use u C [OF room(2)] room(1) in \<open>auto simp: image_iff\<close>)
  next
    case full
    from wf pick full t'_def show ?thesis
    proof (cases rule: update_top_full)
      case kept
      have "count_list (fp # acc) g \<le> d" if "g \<notin> listed ?t" "(h, d) \<in> set (counts ?t)" for g h d
      proof (cases "g = fp")
        case True
        have "n \<le> d" using kept(2) that(2) by force
        then show ?thesis using est(1) True by simp
      next
        case False
        then show ?thesis using B [OF that] by simp
      qed
      then show ?thesis by (intro goal) (use kept(1) wf full in \<open>auto simp: image_iff\<close>)
    next
      case (replaced x c)
      have "count_list (fp # acc) g \<le> d" if "g \<notin> listed t'" "(h, d) \<in> set (counts t')" for g h d
      proof -
        have g: "g \<noteq> fp" "g = x \<or> g \<notin> listed ?t" using that(1) replaced(4) by (auto simp: image_iff)
        then have "count_list acc g \<le> c" using A(1) [OF replaced(1)] B [OF _ replaced(1)] by auto
        moreover have "c \<le> d" using that(2) replaced(2, 3, 4) by auto
        ultimately show ?thesis using g(1) by simp
      qed
      then show ?thesis by (intro goal) (use replaced full in \<open>auto simp: image_iff\<close>)
    qed
  qed
qed

lemma tracker_ok_run:
  "tracker_ok hash acc tr \<Longrightarrow> picks_min pick \<Longrightarrow> length acc + length xs \<le> u64_max
    \<Longrightarrow> tracker_ok hash (rev xs @ acc) (fold (record_access hash pick) xs tr)"
proof (induction xs arbitrary: acc tr)
  case (Cons x xs)
  have "tracker_ok hash (x # acc) (record_access hash pick x tr)"
    by (rule tracker_ok_access [OF Cons.prems(1, 2)]) (use Cons.prems(3) in simp)
  then show ?case using Cons.IH [of "x # acc"] Cons.prems(2, 3) by simp
qed simp

lemma k_limit_run: "k_limit (tr_top (fold (record_access hash pick) xs (new_tracker k))) = k"
proof -
  have "k_limit (tr_top (fold (record_access hash pick) xs tr)) = k_limit (tr_top tr)" for tr
    by (induction xs arbitrary: tr)
      (simp_all add: record_access_def update_top_def rebuild_heap_def split: prod.splits)
  then show ?thesis by (simp add: new_tracker_def new_top_k_def)
qed

lemma count_list_rev_eq: "count_list (rev xs) x = count_list xs x"
  by (induction xs) simp_all

lemma listed_count_bounds:
  assumes "tracker_ok hash acc tr" and "(fp, c) \<in> set (counts (tr_top tr))"
  shows "count_list acc fp \<le> c" and "c \<le> length acc"
proof -
  show "count_list acc fp \<le> c" using assms unfolding tracker_ok_def by blast
  have "0 < length (table (tr_sketch tr))" and s: "sketch_ok hash acc (tr_sketch tr)"
    using assms(1) by (simp_all add: tracker_ok_def sketch_ok_def)
  then have "c \<le> cell hash (tr_sketch tr) 0 fp" using assms unfolding tracker_ok_def by blast
  also have "\<dots> \<le> length acc" using s by (simp add: sketch_ok_def)
  finally show "c \<le> length acc" .
qed

lemma get_top_k_sorted: "sorted_wrt (\<lambda>a b. snd b \<le> snd a) (get_top_k iter t)"
proof -
  have "sorted (map (\<lambda>e. - int (snd e)) (get_top_k iter t))" by (simp add: get_top_k_def)
  then show ?thesis by (simp add: sorted_wrt_map)
qed


lemma picks_min_arg_min: "picks_min (arg_min_list snd)"
  unfolding picks_min_def
proof (intro allI impI conjI ballI)
  fix xs :: "(rstr \<times> nat) list" and y assume xs: "xs \<noteq> []"
  show "arg_min_list snd xs \<in> set xs" by (rule arg_min_list_in [OF xs])
  assume "y \<in> set xs"
  then show "snd (arg_min_list snd xs) \<le> snd y" by (simp add: f_arg_min_list_f [OF xs])
qed


text \<open>The phases of a query whose timeline is made at its completion leave no overhead.\<close>

lemma completed_overhead_zero: "overhead_micros (phase_durations_micros now (for_completed received ended)) = 0"
  by (simp add: phase_durations_micros_def Let_def proxy_overhead_micros_def for_completed_def backend_time_def
      total_time_def)

end
