(* ===== verification/Circuit_Breaker.thy ===== *)
theory Circuit_Breaker
  imports Scry_Prelude
begin

text \<open>
  \<open>resilience/circuit_breaker.rs\<close>, with \<open>CircuitBreakerConfig\<close> and \<open>CircuitBreakerError\<close>.  The
  methods read the state once and then act on what they read, so each one takes the state it
  observed as an argument; in a sequential run that is the breaker's state, under contention it
  may be an older one.  The clock (seconds) is an argument; \<open>u64\<close> subtraction follows the build.
\<close>

record breaker_config =
  cb_enabled :: bool
  failure_threshold :: nat
  success_threshold :: nat
  window_secs :: nat
  open_timeout_secs :: nat
  use_health_monitor :: bool

datatype circuit_state = Closed | Open | HalfOpen

datatype circuit_error = CircuitOpen

record breaker =
  cb_state :: circuit_state
  consecutive_failures :: nat
  consecutive_successes :: nat
  failure_count_in_window :: nat
  requests_allowed :: nat
  requests_rejected :: nat
  window_start :: nat
  open_timestamp :: nat
  last_state_change :: nat

definition new_breaker :: "nat \<Rightarrow> breaker" where
  "new_breaker now = \<lparr>cb_state = Closed, consecutive_failures = 0, consecutive_successes = 0,
     failure_count_in_window = 0, requests_allowed = 0, requests_rejected = 0, window_start = now,
     open_timestamp = 0, last_state_change = now\<rparr>"

definition from_u8 :: "nat \<Rightarrow> circuit_state" where
  "from_u8 v = (if v = 0 then Closed else if v = 1 then Open else if v = 2 then HalfOpen else Closed)"

definition transition_to_open :: "nat \<Rightarrow> breaker \<Rightarrow> breaker" where
  "transition_to_open now b =
     b\<lparr>cb_state := Open, open_timestamp := now, last_state_change := now, consecutive_successes := 0\<rparr>"

definition transition_to_closed :: "nat \<Rightarrow> breaker \<Rightarrow> breaker" where
  "transition_to_closed now b =
     b\<lparr>cb_state := Closed, last_state_change := now, consecutive_failures := 0,
       consecutive_successes := 0\<rparr>"

text \<open>The compare-and-swap from Open to HalfOpen.\<close>

definition try_transition_to_half_open :: "nat \<Rightarrow> breaker \<Rightarrow> bool \<times> breaker" where
  "try_transition_to_half_open now b =
     (if cb_state b = Open
      then (True, b\<lparr>cb_state := HalfOpen, last_state_change := now, consecutive_successes := 0\<rparr>)
      else (False, b))"

definition reset_window_if_needed :: "bool \<Rightarrow> breaker_config \<Rightarrow> nat \<Rightarrow> breaker \<Rightarrow> breaker run" where
  "reset_window_if_needed oc cfg now b =
     run_map (\<lambda>elapsed. if window_secs cfg \<le> elapsed
                        then b\<lparr>window_start := now, failure_count_in_window := 0\<rparr> else b)
       (usize_sub oc now (window_start b))"

definition count_allowed :: "breaker \<Rightarrow> breaker" where
  "count_allowed b = b\<lparr>requests_allowed := (requests_allowed b + 1) mod usize_modulus\<rparr>"

definition count_rejected :: "breaker \<Rightarrow> breaker" where
  "count_rejected b = b\<lparr>requests_rejected := (requests_rejected b + 1) mod usize_modulus\<rparr>"

definition allow_request ::
    "bool \<Rightarrow> breaker_config \<Rightarrow> nat \<Rightarrow> circuit_state \<Rightarrow> breaker \<Rightarrow> ((circuit_error + unit) \<times> breaker) run" where
  "allow_request oc cfg now st b =
     (if \<not> cb_enabled cfg then Ret (Inr (), b)
      else case st of
        Closed \<Rightarrow> Ret (Inr (), count_allowed b)
      | Open \<Rightarrow>
          run_map (\<lambda>elapsed.
            if open_timeout_secs cfg \<le> elapsed then
              (let (won, b') = try_transition_to_half_open now b
               in if won then (Inr (), count_allowed b') else (Inl CircuitOpen, count_rejected b'))
            else (Inl CircuitOpen, count_rejected b))
            (usize_sub oc now (open_timestamp b))
      | HalfOpen \<Rightarrow>
          if consecutive_successes b < success_threshold cfg then Ret (Inr (), count_allowed b)
          else Ret (Inr (), count_allowed (transition_to_closed now b)))"

definition record_success :: "breaker_config \<Rightarrow> nat \<Rightarrow> circuit_state \<Rightarrow> breaker \<Rightarrow> breaker" where
  "record_success cfg now st b =
     (if \<not> cb_enabled cfg then b
      else case st of
        Closed \<Rightarrow> b\<lparr>consecutive_failures := 0\<rparr>
      | HalfOpen \<Rightarrow>
          (let successes = consecutive_successes b + 1;
               b' = b\<lparr>consecutive_successes := successes\<rparr>
           in if success_threshold cfg \<le> successes then transition_to_closed now b' else b')
      | Open \<Rightarrow> transition_to_closed now b)"

text \<open>\<open>unhealthy\<close>: what the health monitor reports, \<open>None\<close> when none is attached.\<close>

definition record_failure ::
    "bool \<Rightarrow> breaker_config \<Rightarrow> nat \<Rightarrow> bool option \<Rightarrow> circuit_state \<Rightarrow> breaker \<Rightarrow> breaker run" where
  "record_failure oc cfg now unhealthy st b =
     (if \<not> cb_enabled cfg then Ret b
      else run_map (\<lambda>b. case st of
          Closed \<Rightarrow>
            (let failures = consecutive_failures b + 1;
                 b' = b\<lparr>consecutive_failures := failures,
                        failure_count_in_window := (failure_count_in_window b + 1) mod 2 ^ 32\<rparr>
             in if failure_threshold cfg \<le> failures then transition_to_open now b'
                else if use_health_monitor cfg \<and> unhealthy = Some True then transition_to_open now b'
                else b')
        | HalfOpen \<Rightarrow> transition_to_open now b
        | Open \<Rightarrow> b\<lparr>failure_count_in_window := (failure_count_in_window b + 1) mod 2 ^ 32\<rparr>)
        (reset_window_if_needed oc cfg now b))"

definition report_health :: "nat \<Rightarrow> bool \<Rightarrow> circuit_state \<Rightarrow> breaker \<Rightarrow> breaker" where
  "report_health now healthy st b =
     (if \<not> healthy \<and> st \<noteq> Open then transition_to_open now b
      else if healthy \<and> st = Open then snd (try_transition_to_half_open now b)
      else b)"

record breaker_metrics =
  m_state :: string
  m_failures :: nat
  m_successes :: nat
  m_window :: nat
  m_allowed :: nat
  m_rejected :: nat
  m_last_change :: nat

fun state_str :: "circuit_state \<Rightarrow> string" where
  "state_str Closed = ''closed''"
| "state_str Open = ''open''"
| "state_str HalfOpen = ''half_open''"

definition get_metrics :: "breaker \<Rightarrow> breaker_metrics" where
  "get_metrics b = \<lparr>m_state = state_str (cb_state b), m_failures = consecutive_failures b,
     m_successes = consecutive_successes b, m_window = failure_count_in_window b,
     m_allowed = requests_allowed b, m_rejected = requests_rejected b,
     m_last_change = last_state_change b\<rparr>"

section \<open>Sequential runs\<close>

datatype breaker_event = Allow | Success | Failure "bool option" | Probe bool

definition breaker_step :: "bool \<Rightarrow> breaker_config \<Rightarrow> nat \<times> breaker_event \<Rightarrow> breaker \<Rightarrow> breaker run" where
  "breaker_step oc cfg e b =
     (case e of (now, ev) \<Rightarrow> (case ev of
        Allow \<Rightarrow> run_map snd (allow_request oc cfg now (cb_state b) b)
      | Success \<Rightarrow> Ret (record_success cfg now (cb_state b) b)
      | Failure u \<Rightarrow> record_failure oc cfg now u (cb_state b) b
      | Probe h \<Rightarrow> Ret (report_health now h (cb_state b) b)))"

fun breaker_run :: "bool \<Rightarrow> breaker_config \<Rightarrow> (nat \<times> breaker_event) list \<Rightarrow> breaker \<Rightarrow> breaker run" where
  "breaker_run oc cfg [] b = Ret b"
| "breaker_run oc cfg (e # es) b = run_bind (breaker_step oc cfg e b) (breaker_run oc cfg es)"

text \<open>Counters stay below their thresholds in the states that use them.\<close>

definition breaker_wf :: "breaker_config \<Rightarrow> breaker \<Rightarrow> bool" where
  "breaker_wf cfg b =
     ((cb_state b = Closed \<longrightarrow> consecutive_failures b < max 1 (failure_threshold cfg))
      \<and> (cb_state b = HalfOpen \<longrightarrow> consecutive_successes b < max 1 (success_threshold cfg))
      \<and> (cb_state b = Open \<longrightarrow> consecutive_successes b = 0))"

text \<open>The open period, and one request through the breaker.\<close>

definition breaker_blocked :: "breaker_config \<Rightarrow> nat \<Rightarrow> breaker \<Rightarrow> bool" where
  "breaker_blocked cfg now b =
     (cb_enabled cfg \<and> cb_state b = Open \<and> open_timestamp b \<le> now
      \<and> now < open_timestamp b + open_timeout_secs cfg)"

definition breaker_admit :: "bool \<Rightarrow> breaker_config \<Rightarrow> nat \<Rightarrow> breaker \<Rightarrow> bool \<times> breaker" where
  "breaker_admit oc cfg now b =
     (case allow_request oc cfg now (cb_state b) b of
        Ret (r, b') \<Rightarrow> (r = Inr (), b') | Panic \<Rightarrow> (False, b))"

fun admit_all :: "(nat \<Rightarrow> 'b \<Rightarrow> bool \<times> 'b) \<Rightarrow> nat list \<Rightarrow> 'b \<Rightarrow> bool list \<times> 'b" where
  "admit_all admit [] b = ([], b)"
| "admit_all admit (t # ts) b =
     (let (r, b') = admit t b; (rs, b'') = admit_all admit ts b' in (r # rs, b''))"

text \<open>The documented causes of each change of state.\<close>

fun transition_cause ::
    "breaker_config \<Rightarrow> nat \<Rightarrow> breaker_event \<Rightarrow> breaker \<Rightarrow> circuit_state \<Rightarrow> circuit_state \<Rightarrow> bool" where
  "transition_cause cfg now ev b Closed Open =
     (ev = Probe False \<or> (\<exists>u. ev = Failure u \<and> (failure_threshold cfg \<le> consecutive_failures b + 1
        \<or> use_health_monitor cfg \<and> u = Some True)))"
| "transition_cause cfg now ev b Open HalfOpen =
     (ev = Probe True \<or> ev = Allow \<and> (open_timestamp b + open_timeout_secs cfg \<le> now \<or> now < open_timestamp b))"
| "transition_cause cfg now ev b HalfOpen Closed =
     (ev = Success \<and> success_threshold cfg \<le> consecutive_successes b + 1
      \<or> ev = Allow \<and> success_threshold cfg \<le> consecutive_successes b)"
| "transition_cause cfg now ev b HalfOpen Open = (ev = Probe False \<or> (\<exists>u. ev = Failure u))"
| "transition_cause cfg now ev b Open Closed = (ev = Success)"
| "transition_cause cfg now ev b Closed HalfOpen = False"
| "transition_cause cfg now ev b s s' = True"

text \<open>A configuration for concrete runs.\<close>

definition example_config :: breaker_config where
  "example_config = \<lparr>cb_enabled = True, failure_threshold = 2, success_threshold = 2, window_secs = 60,
     open_timeout_secs = 30, use_health_monitor = False\<rparr>"

lemmas transitions = transition_to_open_def transition_to_closed_def try_transition_to_half_open_def
  count_allowed_def count_rejected_def

section \<open>Refusal\<close>

text \<open>A gate that refuses while it is blocked, and stays blocked when it refuses.\<close>

locale request_gate =
  fixes blocked :: "nat \<Rightarrow> 'b \<Rightarrow> bool" and admit :: "nat \<Rightarrow> 'b \<Rightarrow> bool \<times> 'b"
  assumes blocked_refuses: "blocked t b \<Longrightarrow> \<not> fst (admit t b)"
    and blocked_stays: "blocked t b \<Longrightarrow> blocked t' (snd (admit t b)) = blocked t' b"
begin

lemma admit_all_blocked:
  "(\<forall>t\<in>set ts. blocked t b) \<Longrightarrow>
   True \<notin> set (fst (admit_all admit ts b)) \<and> blocked t' (snd (admit_all admit ts b)) = blocked t' b"
proof (induction ts arbitrary: b)
  case (Cons t ts)
  then have "\<not> fst (admit t b)" "\<forall>t'. blocked t' (snd (admit t b)) = blocked t' b"
    using blocked_refuses [of t b] blocked_stays [of t b] by auto
  then show ?case using Cons.IH [of "snd (admit t b)"] Cons.prems by (auto simp: split_def Let_def)
qed simp

end

interpretation brk: request_gate "breaker_blocked cfg" "breaker_admit oc cfg" for oc cfg
  by unfold_locales
    (auto simp: breaker_blocked_def breaker_admit_def allow_request_def transitions split: run.splits)

section \<open>Invariant\<close>

lemma allow_wf:
  "breaker_wf cfg b \<Longrightarrow> allow_request oc cfg now (cb_state b) b = Ret (r, b') \<Longrightarrow> breaker_wf cfg b'"
  by (cases "cb_state b")
    (auto simp: allow_request_def breaker_wf_def transitions run_map_def run_bind_Ret_iff Let_def
      split: if_splits)

lemma success_wf: "breaker_wf cfg b \<Longrightarrow> breaker_wf cfg (record_success cfg now (cb_state b) b)"
  by (cases "cb_state b") (auto simp: record_success_def breaker_wf_def transitions Let_def)

lemma reset_window_keeps:
  assumes "reset_window_if_needed oc cfg now b = Ret b'"
  shows "cb_state b' = cb_state b" and "consecutive_failures b' = consecutive_failures b"
    and "consecutive_successes b' = consecutive_successes b" and "open_timestamp b' = open_timestamp b"
  using assms by (auto simp: reset_window_if_needed_def run_map_def run_bind_Ret_iff split: if_splits)

lemma failure_wf:
  assumes "breaker_wf cfg b" and "record_failure oc cfg now u (cb_state b) b = Ret b'"
  shows "breaker_wf cfg b'"
proof (cases "cb_enabled cfg")
  case True
  then obtain b1 where b1: "reset_window_if_needed oc cfg now b = Ret b1"
    using assms(2) by (auto simp: record_failure_def run_map_def run_bind_Ret_iff)
  show ?thesis
    using assms True b1 reset_window_keeps [OF b1]
    by (cases "cb_state b")
      (auto simp: record_failure_def breaker_wf_def transitions Let_def split: if_splits)
qed (use assms in \<open>simp add: record_failure_def\<close>)

lemma health_wf: "breaker_wf cfg b \<Longrightarrow> breaker_wf cfg (report_health now h (cb_state b) b)"
  by (auto simp: report_health_def breaker_wf_def transitions)

lemma step_wf: "breaker_wf cfg b \<Longrightarrow> breaker_step oc cfg e b = Ret b' \<Longrightarrow> breaker_wf cfg b'"
  by (cases e; cases "snd e")
    (auto simp: breaker_step_def run_map_def run_bind_Ret_iff success_wf failure_wf health_wf
      dest: allow_wf)

lemma run_wf: "breaker_run oc cfg es b = Ret b' \<Longrightarrow> breaker_wf cfg b \<Longrightarrow> breaker_wf cfg b'"
  by (induction es arbitrary: b) (auto simp: run_bind_Ret_iff intro: step_wf)

section \<open>Counting\<close>

lemma failure_closed:
  assumes "cb_enabled cfg" and "cb_state b = Closed" and "window_start b \<le> now"
    and "\<not> (use_health_monitor cfg \<and> u = Some True)"
  shows "\<exists>b'. record_failure oc cfg now u (cb_state b) b = Ret b' \<and> window_start b' \<le> now
    \<and> consecutive_failures b' = consecutive_failures b + 1
    \<and> cb_state b' = (if failure_threshold cfg \<le> consecutive_failures b + 1 then Open else Closed)"
  using assms
  by (auto simp: record_failure_def reset_window_if_needed_def transitions Let_def)

lemma failures_closed:
  assumes "cb_enabled cfg" and "list_all (\<lambda>(t, e). e = Failure None) es"
    and "sorted (map fst es)" and "\<forall>e\<in>set es. window_start b \<le> fst e"
    and "cb_state b = Closed" and "consecutive_failures b + length es < failure_threshold cfg"
  shows "\<exists>b'. breaker_run oc cfg es b = Ret b' \<and> cb_state b' = Closed
    \<and> consecutive_failures b' = consecutive_failures b + length es
    \<and> (\<forall>t. (\<forall>e\<in>set es. fst e \<le> t) \<and> window_start b \<le> t \<longrightarrow> window_start b' \<le> t)"
  using assms(2-6)
proof (induction es arbitrary: b)
  case (Cons e es)
  obtain t where e: "e = (t, Failure None)" using Cons.prems(1) by (cases e) auto
  obtain b1 where b1: "record_failure oc cfg t None (cb_state b) b = Ret b1" "window_start b1 \<le> t"
    "consecutive_failures b1 = consecutive_failures b + 1" "cb_state b1 = Closed"
    using failure_closed [OF assms(1) Cons.prems(4), of t None oc] Cons.prems e by auto
  have "\<exists>b'. breaker_run oc cfg es b1 = Ret b' \<and> cb_state b' = Closed
    \<and> consecutive_failures b' = consecutive_failures b1 + length es
    \<and> (\<forall>t. (\<forall>e\<in>set es. fst e \<le> t) \<and> window_start b1 \<le> t \<longrightarrow> window_start b' \<le> t)"
    using Cons.prems b1 e by (intro Cons.IH) (auto intro: le_trans)
  then show ?case using b1 e by (auto simp: breaker_step_def)
qed simp

section \<open>Properties of the breaker\<close>

text \<open>
  Fail fast: in the open period (from the opening until \<open>open_timeout_secs\<close> later) every
  request is refused, whatever their number, and none of them changes the period.
\<close>

lemma open_breaker_refuses:
  assumes "\<forall>t\<in>set ts. breaker_blocked cfg t b"
  shows "True \<notin> set (fst (admit_all (breaker_admit oc cfg) ts b))
    \<and> breaker_blocked cfg t' (snd (admit_all (breaker_admit oc cfg) ts b)) = breaker_blocked cfg t' b"
  using brk.admit_all_blocked [OF assms] .



lemma breaker_run_append:
  "breaker_run oc cfg (es @ fs) b = run_bind (breaker_run oc cfg es b) (breaker_run oc cfg fs)"
proof (induction es arbitrary: b)
  case (Cons e es)
  then show ?case by (cases "breaker_step oc cfg e b") auto
qed simp



text \<open>
  Bounds: over every run from a new breaker, the failure counter of a closed breaker is below
  its threshold and the success counter of a half-open one below its own, so neither can reach
  the width of its 32-bit counter.
\<close>

lemma breaker_counters_bounded:
  assumes "breaker_run oc cfg es (new_breaker t0) = Ret b"
  shows "(cb_state b = Closed \<longrightarrow> consecutive_failures b < max 1 (failure_threshold cfg))
    \<and> (cb_state b = HalfOpen \<longrightarrow> consecutive_successes b < max 1 (success_threshold cfg))"
  using run_wf [OF assms] by (simp add: breaker_wf_def new_breaker_def)

text \<open>
  The half-open state does not limit requests: every request is let through, before and after
  the success threshold is met.
\<close>

lemma half_open_admits_all:
  assumes "cb_state b = HalfOpen"
  shows "fst (breaker_admit oc cfg now b)"
  using assms by (simp add: breaker_admit_def allow_request_def)

end
