(* ===== verification/Command_Detector.thy ===== *)
theory Command_Detector
  imports Rust_Str
begin

text \<open>
  \<open>protocol/command_detector.rs\<close>: recognition of SQL commands that leave state on a backend
  session, and the three-way classification the pooling decision rests on.  The detector works on
  the upper-cased text and slices the original with byte offsets found there, so every parser
  returns a computation that may panic.  \<open>U\<close> is the Unicode case table beyond ASCII.
\<close>

section \<open>Commands and classes\<close>

datatype detected_command =
    Set rstr rstr
  | Reset rstr
  | ResetAll
  | CreateTempTable rstr
  | DropTable rstr
  | DeclareCursor rstr bool
  | CloseCursor rstr
  | AdvisoryLock "int option"
  | AdvisoryUnlock "int option"
  | DiscardAll
  | Deallocate rstr
  | DeallocateAll
  | Listen rstr
  | Unlisten "rstr option"
  | Notify rstr "rstr option"

datatype command_class = Clean | Stateful detected_command | Unknown

section \<open>Parsers of the recognised commands\<close>

definition starts_with_keyword :: "rstr \<Rightarrow> rstr \<Rightarrow> bool" where
  "starts_with_keyword upper kw =
     (case strip_prefix upper kw of
        Some rest \<Rightarrow> (case rest of [] \<Rightarrow> True | c # _ \<Rightarrow> is_whitespace c \<or> c = 40 \<or> c = 59)
      | None \<Rightarrow> False)"

definition parse_set :: "unicode \<Rightarrow> rstr \<Rightarrow> detected_command option run" where
  "parse_set U sql =
     (case str_from sql 3 of None \<Rightarrow> Ret None | Some tail \<Rightarrow>
      (let rest = trim tail in
       case str_find rest [61] of
         Some eq_pos \<Rightarrow>
           run_bind (index_to rest eq_pos) (\<lambda>n.
           run_bind (index_from rest (eq_pos + 1)) (\<lambda>v.
             Ret (Some (Set (to_lowercase U (trim n)) (trim_matches 39 (trim v))))))
       | None \<Rightarrow>
           (case str_find (to_uppercase U rest) (lit '' TO '') of
              Some to_pos \<Rightarrow>
                run_bind (index_to rest to_pos) (\<lambda>n.
                run_bind (index_from rest (to_pos + 4)) (\<lambda>v.
                  Ret (Some (Set (to_lowercase U (trim n)) (trim_matches 39 (trim v))))))
            | None \<Rightarrow> Ret None)))"

definition parse_reset :: "unicode \<Rightarrow> rstr \<Rightarrow> detected_command option run" where
  "parse_reset U sql =
     (case str_from sql 5 of None \<Rightarrow> Ret None | Some tail \<Rightarrow>
      (let rest = trim tail in
       if eq_ignore_ascii_case rest (lit ''ALL'') then Ret (Some ResetAll)
       else Ret (Some (Reset (to_lowercase U rest)))))"

definition parse_create_temp_table :: "unicode \<Rightarrow> rstr \<Rightarrow> detected_command option run" where
  "parse_create_temp_table U sql =
     (let upper = to_uppercase U sql;
          table_pos = (case map_option (\<lambda>p. p + 10) (str_find upper (lit ''TEMP TABLE'')) of
              Some p \<Rightarrow> Some p
            | None \<Rightarrow> map_option (\<lambda>p. p + 15) (str_find upper (lit ''TEMPORARY TABLE'')))
      in case table_pos of
           None \<Rightarrow> Ret None
         | Some p \<Rightarrow>
             run_bind (index_from sql p) (\<lambda>tail.
               Ret (map_option CreateTempTable (first_word (trim tail)))))"

definition parse_drop_table :: "unicode \<Rightarrow> rstr \<Rightarrow> detected_command option run" where
  "parse_drop_table U sql =
     (if starts_with (to_uppercase U sql) (lit ''DROP TABLE'') then
        run_bind (index_from sql 10) (\<lambda>tail.
          let rest = trim tail in
          run_bind (if starts_with (to_uppercase U rest) (lit ''IF EXISTS'')
                    then run_map trim (index_from rest 9) else Ret rest) (\<lambda>rest.
            Ret (map_option DropTable (first_word rest))))
      else Ret None)"

definition parse_declare_cursor :: "unicode \<Rightarrow> rstr \<Rightarrow> detected_command option run" where
  "parse_declare_cursor U sql =
     (let upper = to_uppercase U sql in
      if starts_with upper (lit ''DECLARE '') then
        run_bind (index_from sql 8) (\<lambda>tail.
          Ret (map_option (\<lambda>name. DeclareCursor name (contains upper (lit ''WITH HOLD'')))
                 (first_word (trim tail))))
      else Ret None)"

definition parse_close_cursor :: "unicode \<Rightarrow> rstr \<Rightarrow> detected_command option run" where
  "parse_close_cursor U sql =
     (if starts_with (to_uppercase U sql) (lit ''CLOSE '') then
        run_bind (index_from sql 6) (\<lambda>tail. Ret (map_option CloseCursor (first_word (trim tail))))
      else Ret None)"

definition parse_deallocate :: "unicode \<Rightarrow> rstr \<Rightarrow> detected_command option run" where
  "parse_deallocate U sql =
     (if starts_with (to_uppercase U sql) (lit ''DEALLOCATE '') then
        run_bind (index_from sql 11) (\<lambda>tail.
          let rest = trim tail in
          run_bind (if starts_with (to_uppercase U rest) (lit ''PREPARE '')
                    then run_map trim (index_from rest 8) else Ret rest) (\<lambda>rest.
            if eq_ignore_ascii_case rest (lit ''ALL'') then Ret (Some DeallocateAll)
            else Ret (map_option Deallocate (first_word rest))))
      else Ret None)"

definition parse_listen :: "rstr \<Rightarrow> detected_command option run" where
  "parse_listen sql =
     (case str_from sql 7 of None \<Rightarrow> Ret None | Some tail \<Rightarrow>
      Ret (map_option (\<lambda>w. Listen (trim_matches 34 w)) (first_word (trim tail))))"

definition parse_unlisten :: "rstr \<Rightarrow> detected_command option run" where
  "parse_unlisten sql =
     (let rest = trim (case str_from sql 8 of None \<Rightarrow> [] | Some tail \<Rightarrow> tail) in
      if rest = [] \<or> rest = lit ''*'' then Ret (Some (Unlisten None))
      else Ret (map_option (\<lambda>w. Unlisten (Some (trim_matches 34 w))) (first_word rest)))"

definition parse_notify :: "rstr \<Rightarrow> detected_command option run" where
  "parse_notify sql =
     (case str_from sql 7 of None \<Rightarrow> Ret None | Some tail \<Rightarrow>
      (let rest = trim tail in
       run_bind
         (case str_find rest [44] of
            Some idx \<Rightarrow>
              run_bind (index_from rest (idx + 1)) (\<lambda>p.
              run_bind (index_to rest idx) (\<lambda>c.
                Ret (c, Some (trim_matches 39 (trim p)))))
          | None \<Rightarrow> Ret (rest, None))
         (\<lambda>(channel_part, payload).
            Ret (Some (Notify (trim_matches 34 (trim channel_part)) payload)))))"

text \<open>\<open>&sql[start + 1..end]\<close> with the first \<open>'('\<close> and the first \<open>')'\<close> of the text.\<close>

definition extract_lock_key :: "rstr \<Rightarrow> int option run" where
  "extract_lock_key sql =
     (case str_find sql [40] of None \<Rightarrow> Ret None | Some start \<Rightarrow>
      (case str_find sql [41] of None \<Rightarrow> Ret None | Some stop \<Rightarrow>
        if start + 1 > stop then Panic
        else
          run_bind (index_to sql stop) (\<lambda>head.
          run_bind (index_from head (start + 1)) (\<lambda>inner.
            Ret (parse_i64 (trim inner))))))"

section \<open>Detection and classification\<close>

definition detect :: "unicode \<Rightarrow> rstr \<Rightarrow> detected_command option run" where
  "detect U sql =
     (let sql_upper = to_uppercase U (trim sql);
          sql_trimmed = trim sql
      in
      if starts_with sql_upper (lit ''SET '') then parse_set U sql_trimmed
      else if starts_with sql_upper (lit ''RESET '') then parse_reset U sql_trimmed
      else if starts_with sql_upper (lit ''DISCARD ALL'') then Ret (Some DiscardAll)
      else if contains sql_upper (lit ''CREATE'')
          \<and> (contains sql_upper (lit ''TEMP TABLE'') \<or> contains sql_upper (lit ''TEMPORARY TABLE''))
        then parse_create_temp_table U sql_trimmed
      else if starts_with sql_upper (lit ''DROP TABLE'') then parse_drop_table U sql_trimmed
      else if starts_with sql_upper (lit ''DECLARE '') \<and> contains sql_upper (lit ''CURSOR'')
        then parse_declare_cursor U sql_trimmed
      else if starts_with sql_upper (lit ''CLOSE '') then parse_close_cursor U sql_trimmed
      else if starts_with sql_upper (lit ''DEALLOCATE '') then parse_deallocate U sql_trimmed
      else if starts_with sql_upper (lit ''LISTEN '') then parse_listen sql_trimmed
      else if starts_with sql_upper (lit ''UNLISTEN '') \<or> sql_upper = lit ''UNLISTEN''
        then parse_unlisten sql_trimmed
      else if starts_with sql_upper (lit ''NOTIFY '') then parse_notify sql_trimmed
      else if contains sql_upper (lit ''PG_ADVISORY_LOCK'')
          \<and> \<not> contains sql_upper (lit ''PG_ADVISORY_UNLOCK'')
        then run_map (\<lambda>k. Some (AdvisoryLock k)) (extract_lock_key sql_upper)
      else if contains sql_upper (lit ''PG_ADVISORY_UNLOCK'')
        then run_map (\<lambda>k. Some (AdvisoryUnlock k)) (extract_lock_key sql_upper)
      else Ret None)"

definition CLEAN_KEYWORDS :: "rstr list" where
  "CLEAN_KEYWORDS = map lit [''SELECT'', ''INSERT'', ''UPDATE'', ''DELETE'', ''WITH'', ''VALUES'',
     ''TABLE'', ''EXPLAIN'', ''SHOW'', ''BEGIN'', ''START'', ''COMMIT'', ''ROLLBACK'', ''END'',
     ''ABORT'', ''SAVEPOINT'', ''RELEASE'']"

definition is_known_clean :: "unicode \<Rightarrow> rstr \<Rightarrow> bool" where
  "is_known_clean U sql =
     (let upper = to_uppercase U (trim_start sql) in
      if contains upper (lit ''SET_CONFIG'') then False
      else list_ex (starts_with_keyword upper) CLEAN_KEYWORDS)"

definition classify :: "unicode \<Rightarrow> rstr \<Rightarrow> command_class run" where
  "classify U sql =
     run_bind (detect U sql) (\<lambda>r. case r of
       Some cmd \<Rightarrow> Ret (Stateful cmd)
     | None \<Rightarrow> Ret (if is_known_clean U sql then Clean else Unknown))"

definition split_statements :: "rstr \<Rightarrow> rstr list" where
  "split_statements sql = filter (\<lambda>s. s \<noteq> []) (map trim (split_char 59 sql))"

lemmas detector_eval = classify_def detect_def is_known_clean_def CLEAN_KEYWORDS_def
  starts_with_keyword_def split_statements_def parse_set_def parse_reset_def
  parse_create_temp_table_def parse_drop_table_def parse_declare_cursor_def parse_close_cursor_def
  parse_deallocate_def parse_listen_def parse_unlisten_def parse_notify_def extract_lock_key_def
  str_eval

section \<open>Splitting a batch\<close>

lemma split_statements_append: "split_statements (a @ 59 # b) = split_statements a @ split_statements b"
  by (simp add: split_statements_def split_char_append)

text \<open>A text without a statement is made of white space and semicolons.\<close>

lemma dropWhile_rev_Nil:
  assumes "dropWhile P (rev (dropWhile P s)) = []" and "c \<in> set s"
  shows "P c"
proof -
  have all: "\<forall>x\<in>set (dropWhile P s). P x" using assms(1) by (simp only: dropWhile_eq_Nil_conv set_rev)
  have "dropWhile P s = []"
  proof (rule ccontr)
    assume ne: "dropWhile P s \<noteq> []"
    then have "P (hd (dropWhile P s))" using all hd_in_set by blast
    then show False using hd_dropWhile [OF ne] by blast
  qed
  then show ?thesis using assms(2) by (simp only: dropWhile_eq_Nil_conv)
qed

lemma trim_Nil: "trim s = [] \<Longrightarrow> c \<in> set s \<Longrightarrow> is_whitespace c"
  unfolding trim_def rev_is_Nil_conv by (rule dropWhile_rev_Nil)

lemma split_char_cover: "c \<in> set s \<Longrightarrow> c = q \<or> (\<exists>p\<in>set (split_char q s). c \<in> set p)"
  by (induction s) (auto split: list.splits if_splits)

lemma split_statements_Nil:
  assumes "split_statements q = []" and "c \<in> set q"
  shows "c = 59 \<or> is_whitespace c"
proof -
  have "\<forall>p\<in>set (split_char 59 q). trim p = []"
    using assms(1) by (auto simp: split_statements_def filter_empty_conv)
  then show ?thesis using split_char_cover [OF assms(2)] trim_Nil by blast
qed

section \<open>Panics\<close>

lemma ascii_upper_find_bound:
  "str_find (to_uppercase U s) p = Some i \<Longrightarrow> ascii s \<Longrightarrow> i + length p \<le> length s"
  using ascii_find_bound [of "to_uppercase U s" p i] by simp

lemma ascii_upper_starts:
  "starts_with (to_uppercase U s) p \<Longrightarrow> ascii s \<Longrightarrow> length p \<le> length s"
  using starts_with_length [of "to_uppercase U s" p] by simp

lemma ascii_find_bound': "str_find s p = Some i \<Longrightarrow> ascii s \<Longrightarrow> i + length p \<le> length s"
  by (rule ascii_find_bound)

lemma parse_set_returns: "ascii s \<Longrightarrow> parse_set U s \<noteq> Panic"
  by (auto simp: parse_set_def ascii_str_from Let_def lit_def split: option.splits
      dest!: ascii_upper_find_bound ascii_find_bound')

lemma parse_reset_returns: "parse_reset U s \<noteq> Panic"
  by (simp add: parse_reset_def Let_def split: option.splits)

lemma parse_create_temp_table_returns: "ascii s \<Longrightarrow> parse_create_temp_table U s \<noteq> Panic"
  by (auto simp: parse_create_temp_table_def Let_def lit_def split: option.splits
      dest!: ascii_upper_find_bound)

lemma parse_drop_table_returns: "ascii s \<Longrightarrow> parse_drop_table U s \<noteq> Panic"
  by (auto simp: parse_drop_table_def Let_def lit_def run_bind_Panic_iff split: if_splits dest!: ascii_upper_starts)

lemma parse_declare_cursor_returns: "ascii s \<Longrightarrow> parse_declare_cursor U s \<noteq> Panic"
  by (auto simp: parse_declare_cursor_def Let_def lit_def dest!: ascii_upper_starts)

lemma parse_close_cursor_returns: "ascii s \<Longrightarrow> parse_close_cursor U s \<noteq> Panic"
  by (auto simp: parse_close_cursor_def lit_def dest!: ascii_upper_starts)

lemma parse_deallocate_returns: "ascii s \<Longrightarrow> parse_deallocate U s \<noteq> Panic"
  by (auto simp: parse_deallocate_def Let_def lit_def run_bind_Panic_iff split: if_splits dest!: ascii_upper_starts)

lemma parse_listen_returns: "parse_listen s \<noteq> Panic"
  by (simp add: parse_listen_def split: option.splits)

lemma parse_unlisten_returns: "parse_unlisten s \<noteq> Panic"
  by (simp add: parse_unlisten_def Let_def)

lemma parse_notify_returns: "ascii s \<Longrightarrow> parse_notify s \<noteq> Panic"
  by (auto simp: parse_notify_def ascii_str_from Let_def split: option.splits dest!: ascii_find_bound')

lemmas parsers_return = parse_set_returns parse_reset_returns parse_create_temp_table_returns
  parse_drop_table_returns parse_declare_cursor_returns parse_close_cursor_returns
  parse_deallocate_returns parse_listen_returns parse_unlisten_returns parse_notify_returns

lemma extract_lock_key_panic:
  assumes "ascii s" and "extract_lock_key s = Panic"
  shows "\<exists>i j. str_find s [40] = Some i \<and> str_find s [41] = Some j \<and> j \<le> i"
proof -
  obtain i j where ij: "str_find s [40] = Some i" "str_find s [41] = Some j"
    using assms(2) by (auto simp: extract_lock_key_def split: option.splits)
  have "j < length s" using ascii_find_bound [OF assms(1) ij(2)] by simp
  then have "extract_lock_key s \<noteq> Panic" if "i < j"
    using that assms(1) ij by (simp add: extract_lock_key_def)
  then show ?thesis using assms(2) ij by (meson linorder_not_less)
qed

section \<open>Properties of the detector\<close>

text \<open>
  On ASCII text the detector can panic in one place only: in an advisory-lock statement whose
  first closing parenthesis precedes its first opening one (as in
  \<open>SELECT ')', pg_advisory_lock(1)\<close>), where the key is sliced out with a start past its end.
  Every other recognised command, malformed or not, is parsed without a panic.
\<close>

lemma detect_panic_cause:
  assumes "ascii sql" and "detect U sql = Panic"
  defines "upper \<equiv> to_uppercase U (trim sql)"
  shows "(\<exists>i j. str_find upper [40] = Some i \<and> str_find upper [41] = Some j \<and> j \<le> i)
    \<and> (contains upper (lit ''PG_ADVISORY_LOCK'') \<or> contains upper (lit ''PG_ADVISORY_UNLOCK''))"
proof -
  have "extract_lock_key upper = Panic
    \<and> (contains upper (lit ''PG_ADVISORY_LOCK'') \<or> contains upper (lit ''PG_ADVISORY_UNLOCK''))"
    using assms parsers_return
    by (auto simp: detect_def Let_def run_map_def run_bind_Panic_iff split: if_splits)
  then show ?thesis using extract_lock_key_panic assms(1) unfolding upper_def by simp
qed

end
