(* ===== verification/Lru.thy ===== *)
theory Lru
  imports Scry_Prelude "HOL-Library.AList"
begin

text \<open>
  The bounded statement store that \<open>proxy/connection_state.rs\<close> and \<open>proxy/cache.rs\<close> both keep: a
  hash map (an association list with distinct keys) beside a queue of names in order of use,
  oldest first.  The eviction loop is the same in both files.  The locale \<open>lru_store\<close> states what
  an insertion and a removal promise and derives what holds after any history.
\<close>

text \<open>\<open>while map.len() >= bound { match order.pop_front() { .. } }\<close>\<close>

fun evict_lru :: "nat \<Rightarrow> ('k \<times> 'v) list \<Rightarrow> 'k list \<Rightarrow> ('k \<times> 'v) list \<times> 'k list" where
  "evict_lru bound m [] = (m, [])"
| "evict_lru bound m (oldest # order) =
     (if bound \<le> length m then evict_lru bound (AList.delete oldest m) order else (m, oldest # order))"

text \<open>The map and the queue hold the same names, each once.\<close>

definition lru_wf :: "('k \<times> 'v) list \<Rightarrow> 'k list \<Rightarrow> bool" where
  "lru_wf m order = (distinct (map fst m) \<and> distinct order \<and> set order = fst ` set m)"

section \<open>Association lists as hash maps\<close>

lemma delete_notin [simp]: "k \<notin> fst ` set m \<Longrightarrow> AList.delete k m = m"
  by (induction m) (auto simp: AList.delete_eq)

lemma delete_keys [simp]: "fst ` set (AList.delete k m) = fst ` set m - {k}"
  by (auto simp: AList.delete_eq)

lemma update_keys [simp]: "fst ` set (AList.update k v m) = insert k (fst ` set m)"
  using dom_update [of k v m] by (simp add: dom_map_of_conv_image_fst)

lemma length_delete:
  "distinct (map fst m) \<Longrightarrow> k \<in> fst ` set m \<Longrightarrow> Suc (length (AList.delete k m)) = length m"
  by (induction m) auto

lemma length_update:
  "length (AList.update k v m) = (if k \<in> fst ` set m then length m else Suc (length m))"
  by (induction m) auto

lemma update_not_Nil [simp]: "AList.update k v m \<noteq> []"
  by (cases m) auto

lemma map_of_update [simp]: "map_of (AList.update k v m) = (map_of m)(k \<mapsto> v)"
  by (rule update_conv')

lemma map_of_delete [simp]: "map_of (AList.delete k m) = (map_of m)(k := None)"
  by (simp add: delete_conv')

section \<open>The eviction loop in closed form\<close>

lemma fold_delete_keys [simp]:
  "fst ` set (fold AList.delete ks m) = fst ` set m - set ks"
  by (induction ks arbitrary: m) auto

lemma fold_delete_distinct: "distinct (map fst m) \<Longrightarrow> distinct (map fst (fold AList.delete ks m))"
  by (induction ks arbitrary: m) (auto simp: distinct_delete)

lemma fold_delete_lookup: "k \<notin> set ks \<Longrightarrow> map_of (fold AList.delete ks m) k = map_of m k"
  by (induction ks arbitrary: m) auto

lemma fold_delete_length:
  "distinct (map fst m) \<Longrightarrow> distinct ks \<Longrightarrow> set ks \<subseteq> fst ` set m \<Longrightarrow>
   length (fold AList.delete ks m) = length m - length ks"
proof (induction ks arbitrary: m)
  case (Cons k ks)
  have "length (fold AList.delete ks (AList.delete k m)) = length (AList.delete k m) - length ks"
    using Cons.prems by (intro Cons.IH) (auto simp: distinct_delete)
  then show ?case using Cons.prems length_delete [of m k] by simp
qed simp

lemma evict_lru_eq:
  "distinct (map fst m) \<Longrightarrow> distinct order \<Longrightarrow> set order \<subseteq> fst ` set m \<Longrightarrow>
   evict_lru bound m order =
     (fold AList.delete (take (Suc (length m) - bound) order) m, drop (Suc (length m) - bound) order)"
proof (induction bound m order rule: evict_lru.induct)
  case (2 bound m oldest order)
  have len: "length m = Suc (length (AList.delete oldest m))"
    using 2(2,4) length_delete [of m oldest] by auto
  show ?case
  proof (cases "bound \<le> length m")
    case True
    have "evict_lru bound (AList.delete oldest m) order =
        (fold AList.delete (take (length m - bound) order) (AList.delete oldest m),
         drop (length m - bound) order)"
      using "2.IH" [OF True] 2(2-4) len by (auto simp: distinct_delete)
    then show ?thesis using True by (simp add: Suc_diff_le)
  qed simp
qed simp

lemma lru_wf_length: "lru_wf m order \<Longrightarrow> length order = length m"
  by (metis distinct_card length_map list.set_map lru_wf_def)

lemma lru_wf_empty [simp]: "lru_wf [] []"
  by (simp add: lru_wf_def)

lemma lru_wf_delete: "lru_wf m order \<Longrightarrow> lru_wf (AList.delete k m) (filter (\<lambda>n. n \<noteq> k) order)"
  by (auto simp: lru_wf_def distinct_delete)

lemma lru_wf_touch: "lru_wf m order \<Longrightarrow> k \<in> fst ` set m \<Longrightarrow> lru_wf m (filter (\<lambda>n. n \<noteq> k) order @ [k])"
  by (auto simp: lru_wf_def)

text \<open>
  The common shape of both insertions: evict from the front of the queue without \<open>k\<close>, store the
  binding, append the name.
\<close>

lemma evict_insert:
  assumes wf: "lru_wf m order" and ev: "evict_lru bound m (filter (\<lambda>n. n \<noteq> k) order) = (m', order')"
  shows "lru_wf (AList.update k v m') (order' @ [k])"
    and "\<exists>d. order' = drop d (filter (\<lambda>n. n \<noteq> k) order)"
    and "x \<in> set order' \<Longrightarrow> map_of (AList.update k v m') x = map_of m x"
    and "length (AList.update k v m') \<le> max 1 bound"
proof -
  let ?ord = "filter (\<lambda>n. n \<noteq> k) order" and ?d = "Suc (length m) - bound"
  have dist: "distinct (map fst m)" "distinct ?ord" and sub: "set ?ord \<subseteq> fst ` set m"
    using wf by (auto simp: lru_wf_def)
  note eq = evict_lru_eq [OF dist sub, of bound]
  have m': "m' = fold AList.delete (take ?d ?ord) m" and order': "order' = drop ?d ?ord"
    using ev eq by auto
  show "\<exists>d. order' = drop d ?ord" using order' by blast
  have split: "set ?ord = set (take ?d ?ord) \<union> set order'"
    unfolding order' by (metis append_take_drop_id set_append)
  have disj: "set (take ?d ?ord) \<inter> set order' = {}"
    unfolding order' using dist(2) by (simp add: set_take_disj_set_drop_if_distinct)
  have keys: "fst ` set m' - {k} = set order'"
    using wf split disj unfolding m' fold_delete_keys by (auto simp: lru_wf_def)
  have kord: "k \<notin> set order'" using split by auto
  show "lru_wf (AList.update k v m') (order' @ [k])"
    using dist keys kord fold_delete_distinct [of m] order' m'
    by (auto simp: lru_wf_def distinct_update)
  show "x \<in> set order' \<Longrightarrow> map_of (AList.update k v m') x = map_of m x"
    using kord disj fold_delete_lookup [of x "take ?d ?ord" m] m' by auto
  have len: "length m' = length m - min (length ?ord) ?d"
    using fold_delete_length [of m "take ?d ?ord"] dist sub set_take_subset [of ?d ?ord] m'
    by (auto simp: min.commute)
  have ord: "length ?ord = length m - (if k \<in> fst ` set m then 1 else 0)"
    using wf lru_wf_length [OF wf] distinct_remove1_removeAll [of order k] length_remove1 [of k order]
    by (simp add: lru_wf_def filter_neq_removeAll)
  have "k \<in> fst ` set m' \<longleftrightarrow> k \<in> fst ` set m"
    using set_take_subset [of ?d ?ord] unfolding m' fold_delete_keys by auto
  then have upd: "length (AList.update k v m') = (if k \<in> fst ` set m then length m' else Suc (length m'))"
    by (simp add: length_update)
  have "k \<in> fst ` set m \<Longrightarrow> 0 < length m" by (cases m) auto
  then show "length (AList.update k v m') \<le> max 1 bound"
    unfolding upd len ord by (simp add: min_def max_def) linarith
qed

section \<open>The contract of a bounded store\<close>

text \<open>
  \<open>entries\<close> and \<open>order\<close> read the two parts of a store \<open>s\<close>, \<open>bound\<close> its configured limit.  A
  store keeps one entry even under a limit of 0.
\<close>

locale lru_store =
  fixes entries :: "'s \<Rightarrow> ('k \<times> 'v) list" and order :: "'s \<Rightarrow> 'k list" and bound :: "'s \<Rightarrow> nat"
    and ins :: "'k \<Rightarrow> 'v \<Rightarrow> 's \<Rightarrow> 's" and del :: "'k \<Rightarrow> 's \<Rightarrow> 's"
  assumes ins_wf: "lru_wf (entries s) (order s) \<Longrightarrow> length (entries s) \<le> max 1 (bound s) \<Longrightarrow>
      lru_wf (entries (ins k v s)) (order (ins k v s))
      \<and> length (entries (ins k v s)) \<le> max 1 (bound s)"
    and ins_bound: "bound (ins k v s) = bound s"
    and ins_latest: "lru_wf (entries s) (order s) \<Longrightarrow> map_of (entries (ins k v s)) k = Some v"
    and ins_order: "lru_wf (entries s) (order s) \<Longrightarrow>
      \<exists>d. order (ins k v s) = drop d (filter (\<lambda>n. n \<noteq> k) (order s)) @ [k]"
    and ins_others: "lru_wf (entries s) (order s) \<Longrightarrow> x \<noteq> k \<Longrightarrow> x \<in> set (order (ins k v s)) \<Longrightarrow>
      map_of (entries (ins k v s)) x = map_of (entries s) x"
    and del_wf: "lru_wf (entries s) (order s) \<Longrightarrow> lru_wf (entries (del k s)) (order (del k s))"
    and del_bound: "bound (del k s) = bound s"
    and del_lookup: "map_of (entries (del k s)) = (map_of (entries s))(k := None)"
begin

definition store_ok :: "'s \<Rightarrow> bool" where
  "store_ok s = (lru_wf (entries s) (order s) \<and> length (entries s) \<le> max 1 (bound s))"

lemma store_ok_ins: "store_ok s \<Longrightarrow> store_ok (ins k v s)"
  using ins_wf [of s k v] ins_bound [of k v s] by (simp add: store_ok_def)

lemma entries_card:
  assumes "lru_wf (entries s) (order s)"
  shows "length (entries s) = card (dom (map_of (entries s)))"
  using assms distinct_card [of "map fst (entries s)"]
  by (simp add: lru_wf_def dom_map_of_conv_image_fst)

lemma store_ok_del:
  assumes "store_ok s"
  shows "store_ok (del k s)"
proof -
  have wf: "lru_wf (entries s) (order s)" "lru_wf (entries (del k s)) (order (del k s))"
    using assms del_wf by (auto simp: store_ok_def)
  have "length (entries (del k s)) \<le> length (entries s)"
    unfolding wf [THEN entries_card] del_lookup
    by (rule card_mono) (auto simp: finite_dom_map_of)
  then show ?thesis using assms wf del_bound [of k s] by (simp add: store_ok_def)
qed

text \<open>A binding survives until it is overwritten, removed or evicted; it never changes.\<close>

lemma ins_lookup:
  assumes "store_ok s"
  shows "map_of (entries (ins k v s)) x \<in> {None, map_of (entries s) x} \<or> x = k"
proof (cases "x \<in> set (order (ins k v s))")
  case True
  then show ?thesis using ins_others assms by (auto simp: store_ok_def)
next
  case False
  then have "x \<notin> fst ` set (entries (ins k v s))"
    using store_ok_ins [OF assms, of k v] by (auto simp: store_ok_def lru_wf_def)
  then show ?thesis by (simp add: map_of_eq_None_iff)
qed

text \<open>Histories of insertions: the store stays well formed and its latest binding is readable.\<close>

lemma store_ok_fold: "store_ok s \<Longrightarrow> store_ok (fold (\<lambda>(k, v). ins k v) kvs s)"
  by (induction kvs arbitrary: s) (auto simp: store_ok_ins)

lemma fold_latest:
  assumes "store_ok s"
  shows "map_of (entries (fold (\<lambda>(k, v). ins k v) (kvs @ [(k, v)]) s)) k = Some v"
  using store_ok_fold [OF assms, of kvs] ins_latest by (simp add: store_ok_def)

end

end
