(* ===== verification/Connection_State.thy ===== *)
theory Connection_State
  imports Command_Detector Lru
begin

text \<open>
  \<open>proxy/connection_state.rs\<close>, the record of what a client has left on its backend session and
  the pinning decisions taken from it, and \<open>proxy/transaction.rs\<close>, the transaction status.  Hash
  maps are association lists with distinct keys, hash sets are sets.
\<close>

section \<open>Transaction status\<close>

datatype transaction_state = Idle | InTransaction | InError

definition update_from_ready_for_query :: "byte \<Rightarrow> transaction_state \<Rightarrow> transaction_state" where
  "update_from_ready_for_query status st =
     (if status = 73 then Idle else if status = 84 then InTransaction
      else if status = 69 then InError else st)"

definition is_in_transaction :: "transaction_state \<Rightarrow> bool" where
  "is_in_transaction st = (st = InTransaction \<or> st = InError)"

definition is_idle :: "transaction_state \<Rightarrow> bool" where
  "is_idle st = (st = Idle)"

section \<open>Pin reasons\<close>

datatype pin_reason =
    Pin_PreparedStatement
  | Pin_SessionVariable
  | Pin_TempTable
  | Pin_Cursor
  | Pin_AdvisoryLock
  | Pin_Listen
  | Pin_UnknownCommand

fun is_unsafe :: "pin_reason \<Rightarrow> bool" where
  "is_unsafe Pin_PreparedStatement = False"
| "is_unsafe Pin_SessionVariable = False"
| "is_unsafe Pin_TempTable = True"
| "is_unsafe Pin_Cursor = True"
| "is_unsafe Pin_AdvisoryLock = True"
| "is_unsafe Pin_Listen = True"
| "is_unsafe Pin_UnknownCommand = True"

section \<open>The tracked state\<close>

record conn_state =
  prepared_statements :: "(rstr \<times> rstr \<times> nat list) list"
  session_variables :: "(rstr \<times> rstr) list"
  temp_tables :: "rstr set"
  cursors :: "rstr set"
  advisory_locks :: "int set"
  listen_channels :: "rstr set"
  unknown_command :: bool
  max_prepared_statements :: nat
  prepared_statements_lru :: "rstr list"

definition new_conn_state :: "nat \<Rightarrow> conn_state" where
  "new_conn_state max_prepared = \<lparr>prepared_statements = [], session_variables = [], temp_tables = {},
     cursors = {}, advisory_locks = {}, listen_channels = {}, unknown_command = False,
     max_prepared_statements = max max_prepared 1, prepared_statements_lru = []\<rparr>"

definition is_pinned :: "conn_state \<Rightarrow> bool" where
  "is_pinned s = (unknown_command s \<or> prepared_statements s \<noteq> [] \<or> session_variables s \<noteq> []
     \<or> temp_tables s \<noteq> {} \<or> cursors s \<noteq> {} \<or> advisory_locks s \<noteq> {} \<or> listen_channels s \<noteq> {})"

definition has_unsafe_state :: "conn_state \<Rightarrow> bool" where
  "has_unsafe_state s = (unknown_command s \<or> temp_tables s \<noteq> {} \<or> cursors s \<noteq> {}
     \<or> advisory_locks s \<noteq> {} \<or> listen_channels s \<noteq> {})"

definition pin_reasons :: "conn_state \<Rightarrow> pin_reason set" where
  "pin_reasons s =
     (if prepared_statements s \<noteq> [] then {Pin_PreparedStatement} else {})
     \<union> (if session_variables s \<noteq> [] then {Pin_SessionVariable} else {})
     \<union> (if temp_tables s \<noteq> {} then {Pin_TempTable} else {})
     \<union> (if cursors s \<noteq> {} then {Pin_Cursor} else {})
     \<union> (if advisory_locks s \<noteq> {} then {Pin_AdvisoryLock} else {})
     \<union> (if listen_channels s \<noteq> {} then {Pin_Listen} else {})
     \<union> (if unknown_command s then {Pin_UnknownCommand} else {})"

definition mark_unknown_command :: "conn_state \<Rightarrow> conn_state" where
  "mark_unknown_command s = s\<lparr>unknown_command := True\<rparr>"

definition add_prepared_statement :: "rstr \<Rightarrow> rstr \<times> nat list \<Rightarrow> conn_state \<Rightarrow> conn_state" where
  "add_prepared_statement name stmt s =
     (let (m, order) =
        (if name \<in> fst ` set (prepared_statements s)
         then (prepared_statements s, filter (\<lambda>n. n \<noteq> name) (prepared_statements_lru s))
         else evict_lru (max_prepared_statements s) (prepared_statements s)
                (prepared_statements_lru s))
      in s\<lparr>prepared_statements := AList.update name stmt m,
           prepared_statements_lru := order @ [name]\<rparr>)"

definition remove_prepared_statement :: "rstr \<Rightarrow> conn_state \<Rightarrow> conn_state" where
  "remove_prepared_statement name s =
     s\<lparr>prepared_statements := AList.delete name (prepared_statements s),
       prepared_statements_lru := filter (\<lambda>n. n \<noteq> name) (prepared_statements_lru s)\<rparr>"

definition clear_prepared_statements :: "conn_state \<Rightarrow> conn_state" where
  "clear_prepared_statements s = s\<lparr>prepared_statements := [], prepared_statements_lru := []\<rparr>"

definition add_session_variable :: "rstr \<Rightarrow> rstr \<Rightarrow> conn_state \<Rightarrow> conn_state" where
  "add_session_variable name v s = s\<lparr>session_variables := AList.update name v (session_variables s)\<rparr>"

definition remove_session_variable :: "rstr \<Rightarrow> conn_state \<Rightarrow> conn_state" where
  "remove_session_variable name s = s\<lparr>session_variables := AList.delete name (session_variables s)\<rparr>"

definition clear_session_variables :: "conn_state \<Rightarrow> conn_state" where
  "clear_session_variables s = s\<lparr>session_variables := []\<rparr>"

definition add_temp_table :: "rstr \<Rightarrow> conn_state \<Rightarrow> conn_state" where
  "add_temp_table name s = s\<lparr>temp_tables := insert name (temp_tables s)\<rparr>"

definition remove_temp_table :: "rstr \<Rightarrow> conn_state \<Rightarrow> conn_state" where
  "remove_temp_table name s = s\<lparr>temp_tables := temp_tables s - {name}\<rparr>"

definition add_cursor :: "rstr \<Rightarrow> conn_state \<Rightarrow> conn_state" where
  "add_cursor name s = s\<lparr>cursors := insert name (cursors s)\<rparr>"

definition remove_cursor :: "rstr \<Rightarrow> conn_state \<Rightarrow> conn_state" where
  "remove_cursor name s = s\<lparr>cursors := cursors s - {name}\<rparr>"

definition add_advisory_lock :: "int \<Rightarrow> conn_state \<Rightarrow> conn_state" where
  "add_advisory_lock key s = s\<lparr>advisory_locks := insert key (advisory_locks s)\<rparr>"

definition remove_advisory_lock :: "int \<Rightarrow> conn_state \<Rightarrow> conn_state" where
  "remove_advisory_lock key s = s\<lparr>advisory_locks := advisory_locks s - {key}\<rparr>"

definition add_listen_channel :: "rstr \<Rightarrow> conn_state \<Rightarrow> conn_state" where
  "add_listen_channel channel s = s\<lparr>listen_channels := insert channel (listen_channels s)\<rparr>"

definition remove_listen_channel :: "rstr \<Rightarrow> conn_state \<Rightarrow> conn_state" where
  "remove_listen_channel channel s = s\<lparr>listen_channels := listen_channels s - {channel}\<rparr>"

definition clear_listen_channels :: "conn_state \<Rightarrow> conn_state" where
  "clear_listen_channels s = s\<lparr>listen_channels := {}\<rparr>"

definition clear_all :: "conn_state \<Rightarrow> conn_state" where
  "clear_all s = s\<lparr>prepared_statements := [], prepared_statements_lru := [], session_variables := [],
     temp_tables := {}, cursors := {}, advisory_locks := {}, listen_channels := {},
     unknown_command := False\<rparr>"

text \<open>The part of the state that can be set up again on another connection.\<close>

record replayable_state =
  replay_statements :: "(rstr \<times> rstr \<times> nat list) list"
  replay_variables :: "(rstr \<times> rstr) list"

definition get_replayable_state :: "conn_state \<Rightarrow> replayable_state" where
  "get_replayable_state s = \<lparr>replay_statements = prepared_statements s, replay_variables = session_variables s\<rparr>"

section \<open>Effects of client commands\<close>

text \<open>The inner \<open>match cmd\<close> of \<open>apply_single_statement\<close>.\<close>

fun apply_detected :: "detected_command \<Rightarrow> conn_state \<Rightarrow> conn_state" where
  "apply_detected (Set name v) s = add_session_variable name v s"
| "apply_detected (Reset name) s = remove_session_variable name s"
| "apply_detected ResetAll s = clear_session_variables s"
| "apply_detected (CreateTempTable name) s = add_temp_table name s"
| "apply_detected (DropTable name) s = remove_temp_table name s"
| "apply_detected (DeclareCursor name _) s = add_cursor name s"
| "apply_detected (CloseCursor name) s = remove_cursor name s"
| "apply_detected (AdvisoryLock key) s =
     (case key of Some k \<Rightarrow> add_advisory_lock k s | None \<Rightarrow> s)"
| "apply_detected (AdvisoryUnlock key) s =
     (case key of Some k \<Rightarrow> remove_advisory_lock k s | None \<Rightarrow> s)"
| "apply_detected DiscardAll s = clear_all s"
| "apply_detected (Deallocate name) s = remove_prepared_statement name s"
| "apply_detected DeallocateAll s = clear_prepared_statements s"
| "apply_detected (Listen channel) s = add_listen_channel channel s"
| "apply_detected (Unlisten channel) s =
     (case channel of Some name \<Rightarrow> remove_listen_channel name s | None \<Rightarrow> clear_listen_channels s)"
| "apply_detected (Notify _ _) s = s"

fun apply_class :: "command_class \<Rightarrow> conn_state \<Rightarrow> conn_state" where
  "apply_class Clean s = s"
| "apply_class Unknown s = mark_unknown_command s"
| "apply_class (Stateful cmd) s = apply_detected cmd s"

definition apply_single_statement :: "unicode \<Rightarrow> rstr \<Rightarrow> conn_state \<Rightarrow> conn_state run" where
  "apply_single_statement U query s = run_map (\<lambda>c. apply_class c s) (classify U query)"

fun apply_statements :: "unicode \<Rightarrow> rstr list \<Rightarrow> conn_state \<Rightarrow> conn_state run" where
  "apply_statements U [] s = Ret s"
| "apply_statements U (q # qs) s = run_bind (apply_single_statement U q s) (apply_statements U qs)"

definition apply_query :: "unicode \<Rightarrow> rstr \<Rightarrow> conn_state \<Rightarrow> conn_state run" where
  "apply_query U query s =
     (let statements = split_statements query in
      if statements = [] then apply_single_statement U query s
      else apply_statements U statements s)"

lemmas conn_ops = mark_unknown_command_def remove_prepared_statement_def
  clear_prepared_statements_def add_session_variable_def remove_session_variable_def
  clear_session_variables_def add_temp_table_def remove_temp_table_def add_cursor_def
  remove_cursor_def add_advisory_lock_def remove_advisory_lock_def add_listen_channel_def
  remove_listen_channel_def clear_listen_channels_def clear_all_def

text \<open>The statements \<open>apply_query\<close> runs through; an empty split falls back to the whole text.\<close>

definition batch :: "rstr \<Rightarrow> rstr list" where
  "batch q = (if split_statements q = [] then [q] else split_statements q)"

text \<open>The commands that can remove a pin reason.\<close>

fun releases :: "detected_command \<Rightarrow> pin_reason \<Rightarrow> bool" where
  "releases DiscardAll r = True"
| "releases (Reset _) r = (r = Pin_SessionVariable)"
| "releases ResetAll r = (r = Pin_SessionVariable)"
| "releases (DropTable _) r = (r = Pin_TempTable)"
| "releases (CloseCursor _) r = (r = Pin_Cursor)"
| "releases (AdvisoryUnlock _) r = (r = Pin_AdvisoryLock)"
| "releases (Deallocate _) r = (r = Pin_PreparedStatement)"
| "releases DeallocateAll r = (r = Pin_PreparedStatement)"
| "releases (Unlisten _) r = (r = Pin_Listen)"
| "releases _ r = False"

text \<open>
  The state is well formed: the statement store is a bounded LRU store, and every session variable
  has one value.
\<close>

definition conn_wf :: "conn_state \<Rightarrow> bool" where
  "conn_wf s = (lru_wf (prepared_statements s) (prepared_statements_lru s)
     \<and> length (prepared_statements s) \<le> max_prepared_statements s \<and> 1 \<le> max_prepared_statements s
     \<and> distinct (map fst (session_variables s)))"

text \<open>The states a connection goes through: queries, Parse and Close messages, resets.\<close>

inductive conn_reaches :: "unicode \<Rightarrow> conn_state \<Rightarrow> conn_state \<Rightarrow> bool" for U s0 where
  start: "conn_reaches U s0 s0"
| on_query: "conn_reaches U s0 s \<Longrightarrow> apply_query U q s = Ret s' \<Longrightarrow> conn_reaches U s0 s'"
| on_parse: "conn_reaches U s0 s \<Longrightarrow> conn_reaches U s0 (add_prepared_statement n stmt s)"
| on_close: "conn_reaches U s0 s \<Longrightarrow> conn_reaches U s0 (remove_prepared_statement n s)"
| on_reset: "conn_reaches U s0 s \<Longrightarrow> conn_reaches U s0 (clear_all s)"

text \<open>Replaying the saved part on a fresh connection.\<close>

definition replay :: "replayable_state \<Rightarrow> conn_state \<Rightarrow> conn_state" where
  "replay r s =
     fold (\<lambda>(n, v). add_session_variable n v) (replay_variables r)
       (fold (\<lambda>(n, stmt). add_prepared_statement n stmt) (replay_statements r) s)"

section \<open>The statement store\<close>

lemma add_prepared_statement_new:
  assumes "lru_wf (prepared_statements s) (prepared_statements_lru s)"
    and "name \<notin> fst ` set (prepared_statements s)"
  shows "evict_lru (max_prepared_statements s) (prepared_statements s)
      (filter (\<lambda>n. n \<noteq> name) (prepared_statements_lru s))
    = evict_lru (max_prepared_statements s) (prepared_statements s) (prepared_statements_lru s)"
  using assms by (simp add: lru_wf_def filter_neq_removeAll)

lemma add_prepared_statement_cases:
  assumes wf: "lru_wf (prepared_statements s) (prepared_statements_lru s)"
  obtains (existing) "name \<in> fst ` set (prepared_statements s)"
      "add_prepared_statement name stmt s =
        s\<lparr>prepared_statements := AList.update name stmt (prepared_statements s),
          prepared_statements_lru := filter (\<lambda>n. n \<noteq> name) (prepared_statements_lru s) @ [name]\<rparr>"
  | (fresh) m order where "evict_lru (max_prepared_statements s) (prepared_statements s)
        (filter (\<lambda>n. n \<noteq> name) (prepared_statements_lru s)) = (m, order)"
      "add_prepared_statement name stmt s =
        s\<lparr>prepared_statements := AList.update name stmt m, prepared_statements_lru := order @ [name]\<rparr>"
proof (cases "name \<in> fst ` set (prepared_statements s)")
  case True
  then show ?thesis using existing by (simp add: add_prepared_statement_def)
next
  case False
  obtain m order where "evict_lru (max_prepared_statements s) (prepared_statements s)
      (filter (\<lambda>n. n \<noteq> name) (prepared_statements_lru s)) = (m, order)" by fastforce
  then show ?thesis
    using fresh False add_prepared_statement_new [OF wf False] by (simp add: add_prepared_statement_def)
qed

interpretation cs: lru_store prepared_statements prepared_statements_lru max_prepared_statements
  add_prepared_statement remove_prepared_statement
proof
  fix s :: conn_state and k x :: rstr and v :: "rstr \<times> nat list"
  assume wf: "lru_wf (prepared_statements s) (prepared_statements_lru s)"
  show "map_of (prepared_statements (add_prepared_statement k v s)) k = Some v"
    using wf by (cases rule: add_prepared_statement_cases [of s k v]) auto
  show "\<exists>d. prepared_statements_lru (add_prepared_statement k v s)
      = drop d (filter (\<lambda>n. n \<noteq> k) (prepared_statements_lru s)) @ [k]"
    using wf
  proof (cases rule: add_prepared_statement_cases [of s k v])
    case existing
    then show ?thesis by (auto intro: exI [of _ 0])
  next
    case fresh
    then show ?thesis using evict_insert(2) [OF wf fresh(1)] by auto
  qed
  show "lru_wf (prepared_statements (remove_prepared_statement k s))
      (prepared_statements_lru (remove_prepared_statement k s))"
    using wf by (simp add: remove_prepared_statement_def lru_wf_delete)
  show "x \<noteq> k \<Longrightarrow> x \<in> set (prepared_statements_lru (add_prepared_statement k v s)) \<Longrightarrow>
      map_of (prepared_statements (add_prepared_statement k v s)) x = map_of (prepared_statements s) x"
    using wf
  proof (cases rule: add_prepared_statement_cases [of s k v])
    case fresh
    assume "x \<noteq> k" "x \<in> set (prepared_statements_lru (add_prepared_statement k v s))"
    then show ?thesis using evict_insert(3) [OF wf fresh(1), of x v] fresh(2) by simp
  qed auto
  assume len: "length (prepared_statements s) \<le> max 1 (max_prepared_statements s)"
  show "lru_wf (prepared_statements (add_prepared_statement k v s))
      (prepared_statements_lru (add_prepared_statement k v s))
    \<and> length (prepared_statements (add_prepared_statement k v s)) \<le> max 1 (max_prepared_statements s)"
    using wf
  proof (cases rule: add_prepared_statement_cases [of s k v])
    case existing
    then show ?thesis using lru_wf_touch [OF wf] len
      by (auto simp: lru_wf_def length_update distinct_update)
  next
    case fresh
    then show ?thesis using evict_insert(1,4) [OF wf fresh(1), of v] by simp
  qed
qed (auto simp: add_prepared_statement_def remove_prepared_statement_def split: prod.splits)

section \<open>Invariants\<close>

lemma conn_wf_new [simp]: "conn_wf (new_conn_state n)"
  by (simp add: conn_wf_def new_conn_state_def)

lemma conn_wf_add: "conn_wf s \<Longrightarrow> conn_wf (add_prepared_statement n stmt s)"
  using cs.ins_wf [of s n stmt] cs.ins_bound [of n stmt s]
  by (auto simp: conn_wf_def add_prepared_statement_def split: prod.splits)

lemma conn_wf_remove: "conn_wf s \<Longrightarrow> conn_wf (remove_prepared_statement n s)"
  using cs.store_ok_del [of s n]
  by (auto simp: conn_wf_def cs.store_ok_def remove_prepared_statement_def max_def)

lemma conn_wf_detected: "conn_wf s \<Longrightarrow> conn_wf (apply_detected cmd s)"
  using conn_wf_remove [of s]
  by (cases cmd) (auto simp: conn_ops conn_wf_def distinct_update distinct_delete split: option.splits)

lemma conn_wf_class: "conn_wf s \<Longrightarrow> conn_wf (apply_class c s)"
  using conn_wf_detected by (cases c) (auto simp: mark_unknown_command_def conn_wf_def)

lemma apply_single_Ret:
  "apply_single_statement U q s = Ret s' \<longleftrightarrow> (\<exists>c. classify U q = Ret c \<and> s' = apply_class c s)"
  by (auto simp: apply_single_statement_def run_map_def run_bind_Ret_iff)

text \<open>What holds of every classified statement holds of every batch.\<close>

lemma apply_statements_induct:
  assumes "apply_statements U qs s = Ret s'" and "P s"
    and "\<And>q c s. q \<in> set qs \<Longrightarrow> classify U q = Ret c \<Longrightarrow> P s \<Longrightarrow> P (apply_class c s)"
  shows "P s'"
  using assms
proof (induction qs arbitrary: s)
  case (Cons q qs)
  then obtain c where c: "classify U q = Ret c" "apply_statements U qs (apply_class c s) = Ret s'"
    by (auto simp: run_bind_Ret_iff apply_single_Ret)
  show ?case
    by (rule Cons.IH [OF c(2)]) (use Cons.prems(2,3) c(1) in auto)
qed simp

lemma apply_query_batch: "apply_query U q s = apply_statements U (batch q) s"
  by (cases "apply_single_statement U q s") (auto simp: apply_query_def batch_def Let_def)

lemma apply_statements_append:
  "apply_statements U (qs @ rs) s = run_bind (apply_statements U qs s) (apply_statements U rs)"
proof (induction qs arbitrary: s)
  case (Cons q qs)
  then show ?case by (cases "apply_single_statement U q s") auto
qed simp

lemma conn_wf_query: "apply_query U q s = Ret s' \<Longrightarrow> conn_wf s \<Longrightarrow> conn_wf s'"
  unfolding apply_query_batch
  by (erule apply_statements_induct [where P = conn_wf]) (auto simp: conn_wf_class)

lemma max_prepared_detected: "max_prepared_statements (apply_detected cmd s) = max_prepared_statements s"
  by (cases cmd) (auto simp: conn_ops split: option.splits)

lemma max_prepared_class: "max_prepared_statements (apply_class c s) = max_prepared_statements s"
  by (cases c) (auto simp: max_prepared_detected mark_unknown_command_def)

lemma conn_reaches_wf:
  "conn_reaches U s0 s \<Longrightarrow> conn_wf s0 \<Longrightarrow> conn_wf s \<and> max_prepared_statements s = max_prepared_statements s0"
proof (induction rule: conn_reaches.induct)
  case (on_query s q s')
  have "max_prepared_statements s' = max_prepared_statements s"
    by (rule apply_statements_induct [OF on_query.hyps(2) [unfolded apply_query_batch]])
      (simp_all add: max_prepared_class)
  then show ?case using on_query conn_wf_query by auto
next
  case (on_parse s n stmt)
  then show ?case using conn_wf_add cs.ins_bound [of n stmt s] by auto
next
  case (on_close s n)
  then show ?case using conn_wf_remove cs.del_bound [of n s] by auto
qed (auto simp: clear_all_def conn_wf_def)

lemma pin_reasons_iff [simp]:
  "Pin_PreparedStatement \<in> pin_reasons s \<longleftrightarrow> prepared_statements s \<noteq> []"
  "Pin_SessionVariable \<in> pin_reasons s \<longleftrightarrow> session_variables s \<noteq> []"
  "Pin_TempTable \<in> pin_reasons s \<longleftrightarrow> temp_tables s \<noteq> {}"
  "Pin_Cursor \<in> pin_reasons s \<longleftrightarrow> cursors s \<noteq> {}"
  "Pin_AdvisoryLock \<in> pin_reasons s \<longleftrightarrow> advisory_locks s \<noteq> {}"
  "Pin_Listen \<in> pin_reasons s \<longleftrightarrow> listen_channels s \<noteq> {}"
  "Pin_UnknownCommand \<in> pin_reasons s \<longleftrightarrow> unknown_command s"
  by (simp_all add: pin_reasons_def)

lemma releases_pin:
  assumes "r \<in> pin_reasons s" and "\<not> releases cmd r"
  shows "r \<in> pin_reasons (apply_detected cmd s)"
  using assms by (cases cmd; cases r; simp add: conn_ops split: option.splits)

lemma pin_reasons_class:
  assumes "r \<in> pin_reasons s" and "\<And>cmd. c = Stateful cmd \<Longrightarrow> \<not> releases cmd r"
  shows "r \<in> pin_reasons (apply_class c s)"
proof (cases c)
  case (Stateful cmd)
  then show ?thesis using assms releases_pin by simp
next
  case Unknown
  then show ?thesis using assms(1) by (cases r) (simp_all add: mark_unknown_command_def)
qed (use assms in simp)

lemma pin_reasons_pinned: "r \<in> pin_reasons s \<Longrightarrow> is_pinned s"
  by (cases r) (simp_all add: is_pinned_def)

lemma pin_reason_ex:
  "(\<exists>r. P r) \<longleftrightarrow> P Pin_PreparedStatement \<or> P Pin_SessionVariable \<or> P Pin_TempTable \<or> P Pin_Cursor
     \<or> P Pin_AdvisoryLock \<or> P Pin_Listen \<or> P Pin_UnknownCommand"
  by (metis pin_reason.exhaust)

section \<open>Replay\<close>

lemma evict_none: "length m < bound \<Longrightarrow> evict_lru bound m order = (m, order)"
  by (cases order) auto

lemma update_fresh: "k \<notin> fst ` set m \<Longrightarrow> AList.update k v m = m @ [(k, v)]"
  by (induction m) auto

lemma replay_variables_eq:
  "distinct (map fst (session_variables s @ kvs)) \<Longrightarrow>
   fold (\<lambda>(n, v). add_session_variable n v) kvs s = s\<lparr>session_variables := session_variables s @ kvs\<rparr>"
proof (induction kvs arbitrary: s)
  case (Cons kv kvs)
  obtain k v where kv: "kv = (k, v)" by (cases kv)
  have "add_session_variable k v s = s\<lparr>session_variables := session_variables s @ [(k, v)]\<rparr>"
    using Cons.prems kv by (simp add: add_session_variable_def update_fresh)
  then show ?case using Cons kv by simp
qed simp

lemma replay_statements_eq:
  "distinct (map fst (prepared_statements s @ kvs)) \<Longrightarrow>
   length (prepared_statements s) + length kvs \<le> max_prepared_statements s \<Longrightarrow>
   fold (\<lambda>(n, stmt). add_prepared_statement n stmt) kvs s =
     s\<lparr>prepared_statements := prepared_statements s @ kvs,
       prepared_statements_lru := prepared_statements_lru s @ map fst kvs\<rparr>"
proof (induction kvs arbitrary: s)
  case (Cons kv kvs)
  obtain k v where kv: "kv = (k, v)" by (cases kv)
  have "add_prepared_statement k v s = s\<lparr>prepared_statements := prepared_statements s @ [(k, v)],
      prepared_statements_lru := prepared_statements_lru s @ [k]\<rparr>"
    using Cons.prems kv by (simp add: add_prepared_statement_def update_fresh evict_none)
  then show ?case using Cons kv by simp
qed simp

lemma replay_fresh:
  assumes "conn_wf s"
  shows "replay (get_replayable_state s) (new_conn_state (max_prepared_statements s)) =
    (new_conn_state (max_prepared_statements s))\<lparr>prepared_statements := prepared_statements s,
      prepared_statements_lru := map fst (prepared_statements s),
      session_variables := session_variables s\<rparr>"
  using assms
  by (simp add: replay_def get_replayable_state_def replay_statements_eq replay_variables_eq
      new_conn_state_def conn_wf_def lru_wf_def)

section \<open>Blank text\<close>

lemma blank_not_letter: "c = 59 \<or> is_whitespace c \<Longrightarrow> c < 65 \<or> 122 < c"
  unfolding is_whitespace_def by linarith

lemma upper_blank:
  assumes U: "\<forall>c. is_whitespace c \<and> 128 \<le> c \<longrightarrow> upper_tab U c = [c]"
    and "\<forall>c\<in>set s. c = 59 \<or> is_whitespace c"
  shows "to_uppercase U s = s"
  using assms(2)
proof (induction s)
  case (Cons c s)
  then have c: "c = 59 \<or> is_whitespace c" by simp
  have "(if c < 128 then [ascii_upper c] else upper_tab U c) = [c]"
    using c U blank_not_letter [OF c] by (auto simp: ascii_upper_def)
  then show ?case using Cons by (simp add: to_uppercase_def)
qed (simp add: to_uppercase_def)

lemma blank_no_letter:
  assumes "\<forall>c\<in>set s. c = 59 \<or> is_whitespace c" and "list_ex (\<lambda>c. 65 \<le> c \<and> c \<le> 90) p"
  shows "\<not> contains s p" and "\<not> starts_with s p" and "s \<noteq> p"
proof -
  obtain c where c: "c \<in> set p" "65 \<le> c" "c \<le> 90" using assms(2) by (auto simp: list_ex_iff)
  then have "c \<notin> set s" using assms(1) blank_not_letter by fastforce
  then have "\<not> set p \<subseteq> set s" using c(1) by blast
  then show "\<not> contains s p" "\<not> starts_with s p" "s \<noteq> p"
    using str_find_mem [of s p] starts_with_mem [of s p] by (auto simp: contains_def)
qed

lemma trim_start_subset: "set (trim_start s) \<subseteq> set s"
  by (auto simp: trim_start_def dest: set_dropWhileD)

lemma classify_blank:
  assumes U: "\<forall>c. is_whitespace c \<and> 128 \<le> c \<longrightarrow> upper_tab U c = [c]"
    and s: "\<forall>c\<in>set s. c = 59 \<or> is_whitespace c"
  shows "classify U s = Ret Unknown"
proof -
  have t: "\<forall>c\<in>set (trim s). c = 59 \<or> is_whitespace c" "\<forall>c\<in>set (trim_start s). c = 59 \<or> is_whitespace c"
    using s trim_subset [of s] trim_start_subset [of s] by auto
  note up = upper_blank [OF U t(1)] upper_blank [OF U t(2)]
  have "detect U s = Ret None"
    unfolding detect_def up Let_def using blank_no_letter [OF t(1)] by (simp add: lit_def)
  moreover have "\<not> is_known_clean U s"
    unfolding is_known_clean_def up Let_def CLEAN_KEYWORDS_def using blank_no_letter [OF t(2)]
    by (simp add: lit_def starts_with_keyword_def strip_prefix_def)
  ultimately show ?thesis by (simp add: classify_def)
qed

section \<open>Properties of the tracker\<close>

text \<open>
  C5.  Invariant of the tracked state, over every history of queries, Parse and Close messages and
  resets from a new connection: the statement map and its LRU queue hold the same names once
  each, at most \<open>max(1, max_prepared_statements)\<close> of them; variables have one value each; and the
  statement parsed last is always recorded, so an eviction never makes the connection look clean.
\<close>

theorem conn_state_invariant:
  assumes "conn_reaches U (new_conn_state n) s"
  shows "conn_wf s \<and> length (prepared_statements s) \<le> max n 1
    \<and> map_of (prepared_statements (add_prepared_statement name stmt s)) name = Some stmt
    \<and> is_pinned (add_prepared_statement name stmt s)"
proof -
  have wf: "conn_wf s" "max_prepared_statements s = max n 1"
    using conn_reaches_wf [OF assms conn_wf_new] by (simp_all add: new_conn_state_def)
  then have latest: "map_of (prepared_statements (add_prepared_statement name stmt s)) name = Some stmt"
    using cs.ins_latest by (simp add: conn_wf_def)
  then have "prepared_statements (add_prepared_statement name stmt s) \<noteq> []" by auto
  then show ?thesis using wf latest by (auto simp: conn_wf_def is_pinned_def)
qed

lemma set_statement_eval:
  "apply_query plain_tables (lit ''SELECT 1; SET a = 1'') (new_conn_state 0)
     = Ret (add_session_variable (lit ''a'') (lit ''1'') (new_conn_state 0))"
  by (simp add: apply_query_def apply_single_statement_def detector_eval)

theorem conn_state_invariant_witness:
  "conn_wf (add_session_variable (lit ''a'') (lit ''1'') (new_conn_state 0))
   \<and> length (prepared_statements (add_session_variable (lit ''a'') (lit ''1'') (new_conn_state 0))) \<le> max 0 1
   \<and> map_of (prepared_statements (add_prepared_statement (lit ''s1'') (lit ''SELECT 2'', [])
       (add_session_variable (lit ''a'') (lit ''1'') (new_conn_state 0)))) (lit ''s1'') = Some (lit ''SELECT 2'', [])
   \<and> is_pinned (add_prepared_statement (lit ''s1'') (lit ''SELECT 2'', [])
       (add_session_variable (lit ''a'') (lit ''1'') (new_conn_state 0)))"
  by (rule conn_state_invariant [OF conn_reaches.on_query [OF conn_reaches.start set_statement_eval]])

text \<open>
  The three views of the state agree: a connection is pinned exactly if it has a pin reason,
  and has state that cannot be replayed exactly if one of its reasons is unsafe.
\<close>

lemma pin_views_agree:
  "(is_pinned s \<longleftrightarrow> pin_reasons s \<noteq> {}) \<and> (has_unsafe_state s \<longleftrightarrow> (\<exists>r. r \<in> pin_reasons s \<and> is_unsafe r))"
  unfolding ex_in_conv [symmetric] pin_reason_ex by (auto simp: is_pinned_def has_unsafe_state_def)

text \<open>
  C29.  Fail closed: if any statement of a batch is not recognised and no later statement of the
  same batch is DISCARD ALL, the connection is pinned afterwards with state that cannot be
  replayed.
\<close>

theorem unknown_statement_pins:
  assumes "batch q = pre @ x # post" and "classify U x = Ret Unknown"
    and "\<forall>y\<in>set post. classify U y \<noteq> Ret (Stateful DiscardAll)"
    and "apply_query U q s = Ret s'"
  shows "Pin_UnknownCommand \<in> pin_reasons s' \<and> is_pinned s' \<and> has_unsafe_state s'"
proof -
  obtain t where "apply_statements U post (mark_unknown_command t) = Ret s'"
    using assms by (auto simp: apply_query_batch apply_statements_append run_bind_Ret_iff apply_single_Ret)
  then have "Pin_UnknownCommand \<in> pin_reasons s'"
  proof (rule apply_statements_induct)
    fix y c t
    assume y: "y \<in> set post" "classify U y = Ret c" "Pin_UnknownCommand \<in> pin_reasons t"
    have "\<not> releases cmd Pin_UnknownCommand" if "c = Stateful cmd" for cmd
      using assms(3) y that by (cases cmd) auto
    then show "Pin_UnknownCommand \<in> pin_reasons (apply_class c t)"
      using y(3) by (intro pin_reasons_class)
  qed (simp add: mark_unknown_command_def)
  then show ?thesis by (simp add: is_pinned_def has_unsafe_state_def)
qed

theorem unknown_statement_pins_witness:
  "apply_query plain_tables (lit ''VACUUM; SELECT 1'') (new_conn_state 5)
     = Ret (mark_unknown_command (new_conn_state 5))
   \<and> is_pinned (mark_unknown_command (new_conn_state 5))"
proof -
  have b: "batch (lit ''VACUUM; SELECT 1'') = [] @ lit ''VACUUM'' # [lit ''SELECT 1'']"
    by (simp add: batch_def detector_eval)
  have c: "classify plain_tables (lit ''VACUUM'') = Ret Unknown"
    "classify plain_tables (lit ''SELECT 1'') = Ret Clean"
    by (simp_all add: detector_eval)
  have "apply_query plain_tables (lit ''VACUUM; SELECT 1'') (new_conn_state 5)
      = Ret (mark_unknown_command (new_conn_state 5))"
    by (simp add: apply_query_batch b apply_single_statement_def c)
  then show ?thesis using unknown_statement_pins [OF b c(1)] c(2) by simp
qed

text \<open>
  A pin reason is dropped only by a command that releases that kind of state (RESET,
  DROP TABLE, CLOSE, an advisory unlock, DEALLOCATE, UNLISTEN, each for its own kind, and
  DISCARD ALL for all): a batch without one keeps the connection pinned.
\<close>

lemma pin_persists:
  assumes "r \<in> pin_reasons s" and "apply_query U q s = Ret s'"
    and "\<forall>x cmd. x \<in> set (batch q) \<and> classify U x = Ret (Stateful cmd) \<longrightarrow> \<not> releases cmd r"
  shows "r \<in> pin_reasons s' \<and> is_pinned s'"
proof -
  have "r \<in> pin_reasons s'"
  proof (rule apply_statements_induct [OF assms(2) [unfolded apply_query_batch]])
    fix x c t
    assume "x \<in> set (batch q)" "classify U x = Ret c" "r \<in> pin_reasons t"
    then show "r \<in> pin_reasons (apply_class c t)" using assms(3) by (intro pin_reasons_class) auto
  qed (rule assms(1))
  then show ?thesis using pin_reasons_pinned by blast
qed

text \<open>
  Batches compose: applying two statement texts joined by a semicolon is applying the first
  and then the second, panics included.  No statement of a batch is lost or reordered.
\<close>

lemma apply_query_composes:
  assumes "split_statements a \<noteq> []" and "split_statements b \<noteq> []"
  shows "apply_query U (a @ 59 # b) s = run_bind (apply_query U a s) (apply_query U b)"
proof -
  have "apply_query U b = apply_statements U (split_statements b)"
    using assms(2) by (intro ext) (simp add: apply_query_batch batch_def)
  then show ?thesis
    using assms by (simp add: apply_query_batch batch_def split_statements_append apply_statements_append)
qed

text \<open>
  A text without any statement (empty, white space, semicolons) is not clean: the fallback
  classifies it whole and pins the connection.  The case table is assumed to leave white space
  alone, as Unicode's does.
\<close>

lemma blank_text_pins:
  assumes "\<forall>c. is_whitespace c \<and> 128 \<le> c \<longrightarrow> upper_tab U c = [c]" and "split_statements q = []"
  shows "apply_query U q s = Ret (mark_unknown_command s) \<and> is_pinned (mark_unknown_command s)"
proof -
  have "classify U q = Ret Unknown"
    using classify_blank [OF assms(1)] split_statements_Nil [OF assms(2)] by blast
  then show ?thesis
    using assms(2)
    by (simp add: apply_query_def apply_single_statement_def is_pinned_def mark_unknown_command_def)
qed




text \<open>
  Advisory locks the tracker misses: a two-key lock and a lock with a bound parameter leave
  the state as it was, and a lock taken twice and released once is no longer tracked although
  PostgreSQL still holds it.
\<close>

lemma advisory_lock_gaps:
  "apply_query U (lit ''SELECT pg_advisory_lock(1, 2)'') s = Ret s
   \<and> apply_query U (lit ''SELECT pg_advisory_lock($1)'') s = Ret s
   \<and> run_bind (apply_query U (lit ''SELECT pg_advisory_lock(7); SELECT pg_advisory_lock(7)'') (new_conn_state n))
       (apply_query U (lit ''SELECT pg_advisory_unlock(7)'')) = Ret (new_conn_state n)
   \<and> \<not> is_pinned (new_conn_state n)"
proof (intro conjI)
  show "apply_query U (lit ''SELECT pg_advisory_lock(1, 2)'') s = Ret s"
    by (simp add: apply_query_def apply_single_statement_def detector_eval)
  show "apply_query U (lit ''SELECT pg_advisory_lock($1)'') s = Ret s"
    by (simp add: apply_query_def apply_single_statement_def detector_eval)
  show "run_bind (apply_query U (lit ''SELECT pg_advisory_lock(7); SELECT pg_advisory_lock(7)'') (new_conn_state n))
      (apply_query U (lit ''SELECT pg_advisory_unlock(7)'')) = Ret (new_conn_state n)"
    by (simp add: apply_query_def apply_single_statement_def detector_eval new_conn_state_def
        add_advisory_lock_def remove_advisory_lock_def)
  show "\<not> is_pinned (new_conn_state n)" by (simp add: is_pinned_def new_conn_state_def)
qed

end
