(* ===== verification/Health_Metrics.thy ===== *)
theory Health_Metrics
  imports Float64 Hot_Data Circuit_Breaker Connection_State
begin

text \<open>
  \<open>observability/health.rs\<close> and \<open>observability/metrics.rs\<close>: the health monitor with its moving
  averages, and the counters and gauges of the proxy.  An HDR histogram is the list of the values
  handed to its \<open>record\<close>, latest first; the library's quantile, maximum and mean are arguments that read
  such a list.  Atomic counters wrap around; the number of health checks is not bounded.
\<close>

section \<open>The health monitor\<close>

record health_config =
  error_rate_spike_factor :: f64
  latency_spike_factor :: f64
  pool_saturation_threshold :: f64
  ema_alpha :: f64

definition default_health_config :: health_config where
  "default_health_config = \<lparr>error_rate_spike_factor = 3, latency_spike_factor = 2,
     pool_saturation_threshold = f64_round (95 / 100), ema_alpha = f64_round (1 / 10)\<rparr>"

datatype health_warning =
    ErrorRateSpike f64 f64 f64
  | LatencySpike f64 f64 f64
  | PoolSaturation f64 f64
  | PoolStarvation nat nat

datatype health_status = Healthy | Degraded | Unhealthy

record baseline =
  avg_error_rate :: f64
  avg_latency_p99 :: f64
  avg_pool_utilization :: f64
  bl_alpha :: f64
  sample_count :: nat

record health_snapshot =
  error_rate :: f64
  latency_p99_ms :: f64
  pool_utilization :: f64
  hs_pool_size :: nat
  pool_available :: nat
  hs_active_connections :: nat

record health_monitor =
  hm_config :: health_config
  hm_warnings :: "health_warning list"
  hm_baseline :: baseline
  last_check :: nat

definition new_baseline :: "f64 \<Rightarrow> baseline" where
  "new_baseline a = \<lparr>avg_error_rate = 0, avg_latency_p99 = 0, avg_pool_utilization = 0, bl_alpha = a, sample_count = 0\<rparr>"

definition new_monitor :: "health_config \<Rightarrow> health_monitor" where
  "new_monitor cfg = \<lparr>hm_config = cfg, hm_warnings = [], hm_baseline = new_baseline (ema_alpha cfg), last_check = 0\<rparr>"

definition ema :: "f64 \<Rightarrow> f64 \<Rightarrow> f64 \<Rightarrow> f64" where
  "ema a sample avg = f64_add (f64_mul a sample) (f64_mul (f64_sub 1 a) avg)"

definition update_baseline :: "health_snapshot \<Rightarrow> baseline \<Rightarrow> baseline" where
  "update_baseline s b =
     (let a = bl_alpha b;
          b' = (if sample_count b = 0
                then b\<lparr>avg_error_rate := error_rate s, avg_latency_p99 := latency_p99_ms s,
                       avg_pool_utilization := pool_utilization s\<rparr>
                else b\<lparr>avg_error_rate := ema a (error_rate s) (avg_error_rate b),
                       avg_latency_p99 := ema a (latency_p99_ms s) (avg_latency_p99 b),
                       avg_pool_utilization := ema a (pool_utilization s) (avg_pool_utilization b)\<rparr>)
      in b'\<lparr>sample_count := sample_count b + 1\<rparr>)"

definition spike :: "(f64 \<Rightarrow> f64 \<Rightarrow> f64 \<Rightarrow> health_warning) \<Rightarrow> f64 \<Rightarrow> f64 \<Rightarrow> f64 \<Rightarrow> health_warning list" where
  "spike w limit current avg =
     (if 0 < current \<and> 0 < avg \<and> limit \<le> f64_div current avg then [w current avg (f64_div current avg)] else [])"

definition health_warnings :: "health_config \<Rightarrow> baseline \<Rightarrow> health_snapshot \<Rightarrow> health_warning list" where
  "health_warnings cfg b s =
     spike ErrorRateSpike (error_rate_spike_factor cfg) (error_rate s) (avg_error_rate b)
     @ spike LatencySpike (latency_spike_factor cfg) (latency_p99_ms s) (avg_latency_p99 b)
     @ (if pool_saturation_threshold cfg \<le> pool_utilization s
        then [PoolSaturation (pool_utilization s) (pool_saturation_threshold cfg)] else [])
     @ (if pool_available s = 0 \<and> hs_pool_size s < hs_active_connections s
        then [PoolStarvation (pool_available s) (hs_active_connections s - hs_pool_size s)] else [])"

definition check_and_update :: "nat \<Rightarrow> health_snapshot \<Rightarrow> health_monitor \<Rightarrow> health_monitor" where
  "check_and_update now s hm =
     hm\<lparr>hm_warnings := health_warnings (hm_config hm) (hm_baseline hm) s,
        hm_baseline := update_baseline s (hm_baseline hm), last_check := now\<rparr>"

fun critical :: "health_warning \<Rightarrow> bool" where
  "critical (PoolStarvation _ _) = True"
| "critical (PoolSaturation utilization _) = (f64_round (99 / 100) \<le> utilization)"
| "critical (ErrorRateSpike _ _ factor) = (5 \<le> factor)"
| "critical (LatencySpike _ _ _) = False"

definition get_status :: "health_monitor \<Rightarrow> health_status" where
  "get_status hm =
     (if hm_warnings hm = [] then Healthy
      else if list_ex critical (hm_warnings hm) then Unhealthy else Degraded)"

section \<open>Metrics\<close>

definition incr :: "nat \<Rightarrow> nat" where
  "incr n = (n + 1) mod usize_modulus"

definition decr :: "nat \<Rightarrow> nat" where
  "decr n = (n + usize_modulus - 1) mod usize_modulus"

record query_metrics =
  latency_histogram :: "nat list"
  queue_time_histogram :: "nat list"
  pool_acquire_histogram :: "nat list"
  backend_time_histogram :: "nat list"
  proxy_overhead_histogram :: "nat list"
  total_queries :: nat
  total_errors :: nat
  total_query_timeouts :: nat

definition new_query_metrics :: query_metrics where
  "new_query_metrics = \<lparr>latency_histogram = [], queue_time_histogram = [], pool_acquire_histogram = [],
     backend_time_histogram = [], proxy_overhead_histogram = [], total_queries = 0, total_errors = 0,
     total_query_timeouts = 0\<rparr>"

definition record_phase :: "nat option \<Rightarrow> nat list \<Rightarrow> nat list" where
  "record_phase v h = (case v of Some n \<Rightarrow> n # h | None \<Rightarrow> h)"

definition record_latency :: "timeline_phases \<Rightarrow> query_metrics \<Rightarrow> query_metrics" where
  "record_latency p q =
     q\<lparr>latency_histogram := total_micros p # latency_histogram q,
       queue_time_histogram := record_phase (queue_time_micros p) (queue_time_histogram q),
       pool_acquire_histogram := record_phase (pool_acquire_micros p) (pool_acquire_histogram q),
       backend_time_histogram := record_phase (backend_micros p) (backend_time_histogram q),
       proxy_overhead_histogram :=
         (if 0 < overhead_micros p then overhead_micros p # proxy_overhead_histogram q else proxy_overhead_histogram q)\<rparr>"

record latency_percentiles =
  p50_micros :: nat
  p90_micros :: nat
  p95_micros :: nat
  p99_micros :: nat
  p999_micros :: nat
  max_micros :: nat
  mean_micros :: f64

record histogram_reader =
  value_at_quantile :: "nat list \<Rightarrow> f64 \<Rightarrow> nat"
  hist_max :: "nat list \<Rightarrow> nat"
  hist_mean :: "nat list \<Rightarrow> f64"

definition percentiles :: "histogram_reader \<Rightarrow> nat list \<Rightarrow> latency_percentiles" where
  "percentiles H h = \<lparr>p50_micros = value_at_quantile H h (f64_round (1 / 2)),
     p90_micros = value_at_quantile H h (f64_round (9 / 10)), p95_micros = value_at_quantile H h (f64_round (95 / 100)),
     p99_micros = value_at_quantile H h (f64_round (99 / 100)), p999_micros = value_at_quantile H h (f64_round (999 / 1000)),
     max_micros = hist_max H h, mean_micros = hist_mean H h\<rparr>"

definition proxy_overhead_percentiles :: "histogram_reader \<Rightarrow> query_metrics \<Rightarrow> latency_percentiles" where
  "proxy_overhead_percentiles H q = percentiles H (proxy_overhead_histogram q)"

definition get_latency_percentiles :: "histogram_reader \<Rightarrow> query_metrics \<Rightarrow> latency_percentiles" where
  "get_latency_percentiles H q = percentiles H (latency_histogram q)"

definition get_queue_percentiles :: "histogram_reader \<Rightarrow> query_metrics \<Rightarrow> latency_percentiles" where
  "get_queue_percentiles H q = percentiles H (queue_time_histogram q)"

definition get_pool_acquire_percentiles :: "histogram_reader \<Rightarrow> query_metrics \<Rightarrow> latency_percentiles" where
  "get_pool_acquire_percentiles H q = percentiles H (pool_acquire_histogram q)"

definition get_backend_percentiles :: "histogram_reader \<Rightarrow> query_metrics \<Rightarrow> latency_percentiles" where
  "get_backend_percentiles H q = percentiles H (backend_time_histogram q)"

record latency_percentiles_ms =
  p50 :: f64
  p90 :: f64
  p95 :: f64
  p99 :: f64
  p999 :: f64
  ms_max :: f64
  ms_mean :: f64

definition to_millis :: "latency_percentiles \<Rightarrow> latency_percentiles_ms" where
  "to_millis l = \<lparr>p50 = f64_div (f64_of_nat (p50_micros l)) 1000, p90 = f64_div (f64_of_nat (p90_micros l)) 1000,
     p95 = f64_div (f64_of_nat (p95_micros l)) 1000, p99 = f64_div (f64_of_nat (p99_micros l)) 1000,
     p999 = f64_div (f64_of_nat (p999_micros l)) 1000, ms_max = f64_div (f64_of_nat (max_micros l)) 1000,
     ms_mean = f64_div (mean_micros l) 1000\<rparr>"

definition latency_p99 :: "histogram_reader \<Rightarrow> query_metrics \<Rightarrow> f64" where
  "latency_p99 H q = f64_div (f64_of_nat (value_at_quantile H (latency_histogram q) (f64_round (99 / 100)))) 1000"

record pool_metrics =
  pm_size :: nat
  pm_available :: nat
  pm_max_size :: nat
  pm_pinned :: nat
  pm_queue_depth :: nat
  pm_max_queue_depth :: nat
  queue_rejected_total :: nat
  pool_wait_timeouts :: nat
  backend_connect_timeouts :: nat
  requests_shed_total :: nat
  pin_counts :: "pin_reason \<Rightarrow> nat"
  wait_histogram :: "nat list"

definition new_pool_metrics :: pool_metrics where
  "new_pool_metrics = \<lparr>pm_size = 0, pm_available = 0, pm_max_size = 0, pm_pinned = 0, pm_queue_depth = 0,
     pm_max_queue_depth = 0, queue_rejected_total = 0, pool_wait_timeouts = 0, backend_connect_timeouts = 0,
     requests_shed_total = 0, pin_counts = (\<lambda>r. 0), wait_histogram = []\<rparr>"

definition update_pool :: "nat \<Rightarrow> nat \<Rightarrow> nat \<Rightarrow> pool_metrics \<Rightarrow> pool_metrics" where
  "update_pool sz avail mx p = p\<lparr>pm_size := sz, pm_available := avail, pm_max_size := mx\<rparr>"

definition record_pin :: "pin_reason \<Rightarrow> pool_metrics \<Rightarrow> pool_metrics" where
  "record_pin r p = p\<lparr>pin_counts := (pin_counts p)(r := incr (pin_counts p r))\<rparr>"

definition record_queue_wait :: "nat \<Rightarrow> pool_metrics \<Rightarrow> pool_metrics" where
  "record_queue_wait us p = p\<lparr>wait_histogram := max (min us 3600000000) 1 # wait_histogram p\<rparr>"

definition get_wait_percentiles :: "histogram_reader \<Rightarrow> pool_metrics \<Rightarrow> latency_percentiles" where
  "get_wait_percentiles H p = percentiles H (wait_histogram p)"

record pool_status =
  ps_size :: nat
  ps_available :: nat
  ps_max_size :: nat

definition get_pool_status :: "pool_metrics \<Rightarrow> pool_status" where
  "get_pool_status p = \<lparr>ps_size = pm_size p, ps_available = pm_available p, ps_max_size = pm_max_size p\<rparr>"

definition utilization :: "bool \<Rightarrow> pool_status \<Rightarrow> f64 run" where
  "utilization oc st =
     (if ps_max_size st = 0 then Ret 0
      else run_map (\<lambda>used. f64_div (f64_of_nat used) (f64_of_nat (ps_max_size st))) (usize_sub oc (ps_size st) (ps_available st)))"

definition get_queue_saturation :: "pool_metrics \<Rightarrow> f64" where
  "get_queue_saturation p =
     (if pm_max_queue_depth p = 0 then 0
      else min (f64_div (f64_of_nat (pm_queue_depth p)) (f64_of_nat (pm_max_queue_depth p))) 1)"

record proxy_metrics =
  mt_query :: query_metrics
  mt_pool :: pool_metrics
  mt_hot_data :: tracker
  mt_health :: health_monitor
  mt_active_connections :: nat
  mt_breakers :: "(rstr \<times> breaker) list"
  mt_max_connections :: nat
  connections_rejected :: nat

definition new_metrics :: "nat \<Rightarrow> health_config \<Rightarrow> proxy_metrics" where
  "new_metrics k cfg = \<lparr>mt_query = new_query_metrics, mt_pool = new_pool_metrics, mt_hot_data = new_tracker k,
     mt_health = new_monitor cfg, mt_active_connections = 0, mt_breakers = [], mt_max_connections = 0,
     connections_rejected = 0\<rparr>"

definition record_query :: "timeline_phases \<Rightarrow> bool \<Rightarrow> proxy_metrics \<Rightarrow> proxy_metrics" where
  "record_query p success mt =
     (let q = record_latency p (mt_query mt);
          q = q\<lparr>total_queries := incr (total_queries q)\<rparr>
      in mt\<lparr>mt_query := (if success then q else q\<lparr>total_errors := incr (total_errors q)\<rparr>)\<rparr>)"

definition record_hot_data ::
    "(nat \<Rightarrow> rstr \<Rightarrow> nat) \<Rightarrow> ((rstr \<times> nat) list \<Rightarrow> rstr \<times> nat) \<Rightarrow> rstr list \<Rightarrow> proxy_metrics \<Rightarrow> proxy_metrics" where
  "record_hot_data hash pick fps mt = mt\<lparr>mt_hot_data := fold (record_access hash pick) fps (mt_hot_data mt)\<rparr>"

definition create_health_snapshot :: "bool \<Rightarrow> histogram_reader \<Rightarrow> proxy_metrics \<Rightarrow> health_snapshot run" where
  "create_health_snapshot oc H mt =
     (let q = mt_query mt; st = get_pool_status (mt_pool mt);
          rate = (if 0 < total_queries q then f64_div (f64_of_nat (total_errors q)) (f64_of_nat (total_queries q)) else 0)
      in run_map (\<lambda>u. \<lparr>error_rate = rate, latency_p99_ms = latency_p99 H q,
             pool_utilization = u, hs_pool_size = ps_size st, pool_available = ps_available st,
             hs_active_connections = mt_active_connections mt\<rparr>)
         (if 0 < ps_max_size st
          then run_map (\<lambda>used. f64_div (f64_of_nat used) (f64_of_nat (ps_max_size st))) (usize_sub oc (ps_size st) (ps_available st))
          else Ret 0))"

definition run_health_check :: "bool \<Rightarrow> histogram_reader \<Rightarrow> nat \<Rightarrow> proxy_metrics \<Rightarrow> proxy_metrics run" where
  "run_health_check oc H now mt =
     run_map (\<lambda>s. mt\<lparr>mt_health := check_and_update now s (mt_health mt)\<rparr>) (create_health_snapshot oc H mt)"

section \<open>The calls of the proxy\<close>

text \<open>
  One constructor for each call the program makes outside its tests.  Neither the sizes of the pool
  (\<open>update_pool\<close>) nor pins and waiting times are among them.
\<close>

datatype metrics_call =
    RecordQuery timeline_phases bool
  | RecordHotData "rstr list"
  | Connected
  | Disconnected
  | ConnectionRejected
  | SetMaxConnections nat
  | SetMaxQueueDepth nat
  | SetQueueDepth nat
  | QueryTimedOut
  | QueueRejected
  | PoolWaitTimedOut
  | ConnectTimedOut
  | RequestShed
  | RegisterBreaker rstr breaker
  | ClearBreakers
  | HealthCheck nat
  | DecayHotData

definition pool_step :: "metrics_call \<Rightarrow> pool_metrics \<Rightarrow> pool_metrics" where
  "pool_step call p =
     (case call of
        SetMaxQueueDepth n \<Rightarrow> p\<lparr>pm_max_queue_depth := n\<rparr>
      | SetQueueDepth n \<Rightarrow> p\<lparr>pm_queue_depth := n\<rparr>
      | QueueRejected \<Rightarrow> p\<lparr>queue_rejected_total := incr (queue_rejected_total p)\<rparr>
      | PoolWaitTimedOut \<Rightarrow> p\<lparr>pool_wait_timeouts := incr (pool_wait_timeouts p)\<rparr>
      | ConnectTimedOut \<Rightarrow> p\<lparr>backend_connect_timeouts := incr (backend_connect_timeouts p)\<rparr>
      | RequestShed \<Rightarrow> p\<lparr>requests_shed_total := incr (requests_shed_total p)\<rparr>
      | _ \<Rightarrow> p)"

definition metrics_step ::
    "bool \<Rightarrow> histogram_reader \<Rightarrow> (nat \<Rightarrow> rstr \<Rightarrow> nat) \<Rightarrow> ((rstr \<times> nat) list \<Rightarrow> rstr \<times> nat) \<Rightarrow> (nat \<Rightarrow> nat)
      \<Rightarrow> metrics_call \<Rightarrow> proxy_metrics \<Rightarrow> proxy_metrics run" where
  "metrics_step oc H hash pick decayed call mt =
     (case call of
        RecordQuery p ok \<Rightarrow> Ret (record_query p ok mt)
      | RecordHotData fps \<Rightarrow> Ret (record_hot_data hash pick fps mt)
      | Connected \<Rightarrow> Ret (mt\<lparr>mt_active_connections := incr (mt_active_connections mt)\<rparr>)
      | Disconnected \<Rightarrow> Ret (mt\<lparr>mt_active_connections := decr (mt_active_connections mt)\<rparr>)
      | ConnectionRejected \<Rightarrow> Ret (mt\<lparr>connections_rejected := incr (connections_rejected mt)\<rparr>)
      | SetMaxConnections n \<Rightarrow> Ret (mt\<lparr>mt_max_connections := n\<rparr>)
      | QueryTimedOut \<Rightarrow> Ret (mt\<lparr>mt_query := (mt_query mt)\<lparr>total_query_timeouts := incr (total_query_timeouts (mt_query mt))\<rparr>\<rparr>)
      | RegisterBreaker name cb \<Rightarrow> Ret (mt\<lparr>mt_breakers := AList.update name cb (mt_breakers mt)\<rparr>)
      | ClearBreakers \<Rightarrow> Ret (mt\<lparr>mt_breakers := []\<rparr>)
      | HealthCheck now \<Rightarrow> run_health_check oc H now mt
      | DecayHotData \<Rightarrow> Ret (mt\<lparr>mt_hot_data := apply_decay decayed (mt_hot_data mt)\<rparr>)
      | _ \<Rightarrow> Ret (mt\<lparr>mt_pool := pool_step call (mt_pool mt)\<rparr>))"

fun metrics_run ::
    "bool \<Rightarrow> histogram_reader \<Rightarrow> (nat \<Rightarrow> rstr \<Rightarrow> nat) \<Rightarrow> ((rstr \<times> nat) list \<Rightarrow> rstr \<times> nat) \<Rightarrow> (nat \<Rightarrow> nat)
      \<Rightarrow> metrics_call list \<Rightarrow> proxy_metrics \<Rightarrow> proxy_metrics run" where
  "metrics_run oc H hash pick decayed [] mt = Ret mt"
| "metrics_run oc H hash pick decayed (c # cs) mt =
     run_bind (metrics_step oc H hash pick decayed c mt) (metrics_run oc H hash pick decayed cs)"

text \<open>
  One tick of the queue monitor of the server: for each pool in turn its queue depth and the time (in
  milliseconds), the saturation is read, then the gauge set to that depth, and the pool is warned about
  unless a warning was given in the last thirty seconds.  The result lists the pools warned about.
\<close>

fun saturation_tick :: "f64 \<Rightarrow> (rstr \<times> nat \<times> nat) list \<Rightarrow> nat \<Rightarrow> pool_metrics \<Rightarrow> rstr list \<times> nat \<times> pool_metrics" where
  "saturation_tick limit [] last_warned p = ([], last_warned, p)"
| "saturation_tick limit ((db_name, queue_depth, now) # pools) last_warned p =
     (let warned = limit \<le> get_queue_saturation p \<and> 30000 < now - last_warned;
          (names, r) = saturation_tick limit pools (if warned then now else last_warned) (p\<lparr>pm_queue_depth := queue_depth\<rparr>)
      in (if warned then db_name # names else names, r))"

section \<open>What the monitor reports\<close>

lemma get_status_check:
  "get_status (check_and_update now s hm) = Unhealthy \<longleftrightarrow> list_ex critical (health_warnings (hm_config hm) (hm_baseline hm) s)"
  by (auto simp: get_status_def check_and_update_def)

lemma starved_unhealthy:
  "pool_available s = 0 \<Longrightarrow> hs_pool_size s < hs_active_connections s \<Longrightarrow> get_status (check_and_update now s hm) = Unhealthy"
  by (simp add: get_status_check health_warnings_def)

text \<open>The sizes of the pool stay zero under every call the program makes.\<close>

definition gauges_unset :: "proxy_metrics \<Rightarrow> bool" where
  "gauges_unset mt = (pm_size (mt_pool mt) = 0 \<and> pm_available (mt_pool mt) = 0 \<and> pm_max_size (mt_pool mt) = 0
     \<and> pm_pinned (mt_pool mt) = 0 \<and> pin_counts (mt_pool mt) = (\<lambda>r. 0) \<and> wait_histogram (mt_pool mt) = [])"

lemma gauges_unset_new: "gauges_unset (new_metrics k cfg)"
  by (simp add: gauges_unset_def new_metrics_def new_pool_metrics_def)

lemma gauges_unset_step:
  assumes "gauges_unset mt" and "metrics_step oc H hash pick decayed c mt = Ret mt'"
  shows "gauges_unset mt'"
  using assms
  by (cases c)
    (auto simp: metrics_step_def pool_step_def gauges_unset_def record_query_def record_hot_data_def run_health_check_def run_map_def
      run_bind_Ret_iff Let_def)

lemma gauges_unset_run:
  "gauges_unset mt \<Longrightarrow> metrics_run oc H hash pick decayed cs mt = Ret mt' \<Longrightarrow> gauges_unset mt'"
  by (induction cs arbitrary: mt) (auto simp: run_bind_Ret_iff dest: gauges_unset_step)

lemma metrics_run_returns:
  "gauges_unset mt \<Longrightarrow> \<exists>mt'. metrics_run oc H hash pick decayed cs mt = Ret mt'"
proof (induction cs arbitrary: mt)
  case (Cons c cs)
  have "\<exists>mt'. metrics_step oc H hash pick decayed c mt = Ret mt'"
    using Cons.prems
    by (cases c) (simp_all add: metrics_step_def run_health_check_def create_health_snapshot_def get_pool_status_def gauges_unset_def Let_def)
  then obtain mt' where s: "metrics_step oc H hash pick decayed c mt = Ret mt'" by blast
  then show ?case using Cons.IH [OF gauges_unset_step [OF Cons.prems s]] by simp
qed simp

text \<open>
  C39. The gauges the health check reads are never set by the program, and a connected client is then
  taken for a starved pool: whatever the proxy has counted, a health check while a client is connected
  reports the proxy unhealthy, and with the monitor in use the next single failure opens a closed
  circuit breaker, far below its threshold.
\<close>

theorem health_check_cries_wolf:
  assumes "metrics_run oc H hash pick decayed calls (new_metrics k cfg) = Ret mt"
    and "0 < mt_active_connections mt"
    and "cb_enabled bcfg" and "use_health_monitor bcfg"
  shows "\<exists>mt'. run_health_check oc H now mt = Ret mt' \<and> get_status (mt_health mt') = Unhealthy
    \<and> (\<forall>b b' later. record_failure oc bcfg later (Some (get_status (mt_health mt') = Unhealthy)) Closed b = Ret b'
         \<longrightarrow> cb_state b' = Open)"
proof -
  have g: "gauges_unset mt" by (rule gauges_unset_run [OF gauges_unset_new assms(1)])
  then obtain s where "create_health_snapshot oc H mt = Ret s" and "pool_available s = 0" and "hs_pool_size s < hs_active_connections s"
    using assms(2) by (simp add: create_health_snapshot_def get_pool_status_def gauges_unset_def Let_def)
  then obtain mt' where mt': "run_health_check oc H now mt = Ret mt'" and u: "get_status (mt_health mt') = Unhealthy"
    using starved_unhealthy [of s now "mt_health mt"] by (simp add: run_health_check_def)
  have "cb_state b' = Open" if "record_failure oc bcfg later (Some True) Closed b = Ret b'" for b b' later
    using that assms(3, 4)
    by (auto simp: record_failure_def run_map_def run_bind_Ret_iff transition_to_open_def Let_def split: if_splits)
  then show ?thesis using mt' u by auto
qed

theorem health_check_cries_wolf_witness:
  "\<exists>mt'. run_health_check True \<lparr>value_at_quantile = \<lambda>h q. 0, hist_max = \<lambda>h. 0, hist_mean = \<lambda>h. 0\<rparr> 10
        ((new_metrics 1 default_health_config)\<lparr>mt_active_connections := 1\<rparr>) = Ret mt'
     \<and> get_status (mt_health mt') = Unhealthy"
  using health_check_cries_wolf [of True "\<lparr>value_at_quantile = \<lambda>h q. 0, hist_max = \<lambda>h. 0, hist_mean = \<lambda>h. 0\<rparr>"
      "\<lambda>i s. 0" hd "\<lambda>n. n" "[Connected]" 1 default_health_config
      "(new_metrics 1 default_health_config)\<lparr>mt_active_connections := 1\<rparr>"
      "\<lparr>cb_enabled = True, failure_threshold = 5, success_threshold = 2, window_secs = 60, open_timeout_secs = 30,
         use_health_monitor = True\<rparr>" 10]
  by (auto simp: metrics_step_def new_metrics_def incr_def usize_modulus_def)

text \<open>
  A full queue of one pool is reported for the pool visited after it: what the monitor compares with
  the limit is the depth stored by the previous visit.
\<close>

lemma saturation_of_previous_pool:
  assumes "30000 < now2 - last_warned" and "0 < pm_max_queue_depth p" and "get_queue_saturation p < limit"
  shows "fst (saturation_tick limit [(a, depth_a, now1), (b, depth_b, now2)] last_warned p)
    = (if limit \<le> get_queue_saturation (p\<lparr>pm_queue_depth := depth_a\<rparr>) then [b] else [])"
  using assms by (auto simp: Let_def split: prod.splits)

end
