(* ===== verification/Mode_Enforcer.thy ===== *)
theory Mode_Enforcer
  imports Connection_State Backend_Scan
begin

text \<open>
  \<open>proxy/mode_enforcer.rs\<close>: which commands a pooling mode refuses, and the error a refused client
  gets.
\<close>

section \<open>Validation\<close>

datatype pooling_mode = SessionMode | TransactionMode | HybridMode

definition validate :: "unicode \<Rightarrow> pooling_mode \<Rightarrow> rstr \<Rightarrow> bool \<Rightarrow> (rstr + unit) run" where
  "validate U mode sql in_transaction =
     (if mode \<noteq> TransactionMode then Ret (Inr ())
      else run_map (\<lambda>detected.
        case detected of
          Some (Set _ _) \<Rightarrow>
            if in_transaction then Inr ()
            else Inl (lit ''session variables not supported in transaction pooling mode'')
        | Some (CreateTempTable _) \<Rightarrow> Inl (lit ''temporary tables not supported in transaction pooling mode'')
        | Some (DeclareCursor _ True) \<Rightarrow> Inl (lit ''cursors WITH HOLD not supported in transaction pooling mode'')
        | Some (AdvisoryLock _) \<Rightarrow> Inl (lit ''advisory locks not supported in transaction pooling mode'')
        | _ \<Rightarrow> Inr ()) (detect U sql))"

text \<open>A message whose length field is written after the body.\<close>

definition sized :: "byte \<Rightarrow> bytes \<Rightarrow> bytes" where
  "sized tag body = tag # be32 (as_i32 (length body + 4)) @ body"

definition mode_error_response :: "rstr \<Rightarrow> bytes" where
  "mode_error_response message =
     sized 69 ((83 # as_bytes (lit ''ERROR'') @ [0]) @ (67 # as_bytes (lit ''0A000'') @ [0])
       @ (77 # as_bytes message @ [0]) @ [0])"

section \<open>Statements and whole texts\<close>

lemma dropWhile_idem: "dropWhile P (dropWhile P xs) = dropWhile P xs"
  by (induction xs) auto

lemma dropWhile_rev_keeps:
  "xs = dropWhile P xs \<Longrightarrow> rev (dropWhile P (rev xs)) = dropWhile P (rev (dropWhile P (rev xs)))"
proof (cases xs)
  case (Cons a l)
  assume "xs = dropWhile P xs"
  then have a: "\<not> P a" using Cons hd_dropWhile [of P xs] by (metis list.distinct(1) list.sel(1))
  then have "rev (dropWhile P (rev xs)) = a # rev (dropWhile P (rev l))"
    using Cons by (simp add: dropWhile_append)
  then show ?thesis using a by simp
qed simp

lemma trim_idem [simp]: "trim (trim s) = trim s"
proof -
  let ?w = "is_whitespace"
  have "dropWhile ?w (trim s) = trim s"
    using dropWhile_rev_keeps [of "dropWhile ?w s" ?w] by (simp add: trim_def dropWhile_idem)
  then show ?thesis by (simp add: trim_def dropWhile_idem)
qed

lemma detect_trim: "detect U (trim s) = detect U s"
  by (simp add: detect_def)

lemma batch_single: "59 \<notin> set q \<Longrightarrow> batch q = [trim q] \<or> batch q = [q]"
  by (auto simp: batch_def split_statements_def split_char_notin)

lemma batch_detect:
  assumes "59 \<notin> set q" and "p \<in> set (batch q)"
  shows "detect U p = detect U q"
proof -
  have "p = trim q \<or> p = q" using batch_single [OF assms(1)] assms(2) by auto
  then show ?thesis using detect_trim by auto
qed

lemma AList_delete_subset: "set (AList.delete k xs) \<subseteq> set xs"
  by (auto simp: AList.delete_eq)

text \<open>What a class of commands that passes the enforcer does to the state it watches.\<close>

lemma accepted_class_keeps:
  assumes "case c of Stateful (Set _ _) \<Rightarrow> False | Stateful (CreateTempTable _) \<Rightarrow> False
      | Stateful (AdvisoryLock _) \<Rightarrow> False | _ \<Rightarrow> True"
  shows "set (session_variables (apply_class c s)) \<subseteq> set (session_variables s)
    \<and> temp_tables (apply_class c s) \<subseteq> temp_tables s \<and> advisory_locks (apply_class c s) \<subseteq> advisory_locks s"
proof (cases c)
  case (Stateful cmd)
  then show ?thesis
    using assms AList_delete_subset [of _ "session_variables s"]
    by (cases cmd) (auto simp: conn_ops add_listen_channel_def split: option.splits)
qed (auto simp: mark_unknown_command_def)

section \<open>Properties of the enforcer\<close>

text \<open>
  C19.  In transaction mode, outside a transaction, a single statement that is accepted leaves no new
  session variable, temporary table or advisory lock on the connection.
\<close>

theorem enforced_statement_leaves_no_state:
  assumes "59 \<notin> set sql" and "validate U TransactionMode sql False = Ret (Inr ())" and "apply_query U sql s = Ret s'"
  shows "set (session_variables s') \<subseteq> set (session_variables s) \<and> temp_tables s' \<subseteq> temp_tables s
    \<and> advisory_locks s' \<subseteq> advisory_locks s"
proof (rule apply_statements_induct [where P = "\<lambda>s' :: conn_state. set (session_variables s') \<subseteq> set (session_variables s)
      \<and> temp_tables s' \<subseteq> temp_tables s \<and> advisory_locks s' \<subseteq> advisory_locks s"])
  show "apply_statements U (batch sql) s = Ret s'" using assms(3) by (simp add: apply_query_batch)
next
  fix q c and t :: conn_state
  assume q: "q \<in> set (batch sql)" and c: "classify U q = Ret c"
    and t: "set (session_variables t) \<subseteq> set (session_variables s) \<and> temp_tables t \<subseteq> temp_tables s
      \<and> advisory_locks t \<subseteq> advisory_locks s"
  obtain d where d: "detect U sql = Ret d" "(\<exists>cmd. d = Some cmd \<and> c = Stateful cmd) \<or> c = Clean \<or> c = Unknown"
    using c batch_detect [OF assms(1) q, of U]
    by (auto simp: classify_def run_bind_Ret_iff split: option.splits)
  have "case c of Stateful (Set _ _) \<Rightarrow> False | Stateful (CreateTempTable _) \<Rightarrow> False
      | Stateful (AdvisoryLock _) \<Rightarrow> False | _ \<Rightarrow> True"
    using assms(2) d
    by (auto simp: validate_def split: detected_command.splits command_class.splits)
  from accepted_class_keeps [OF this, of t] t
  show "set (session_variables (apply_class c t)) \<subseteq> set (session_variables s)
      \<and> temp_tables (apply_class c t) \<subseteq> temp_tables s \<and> advisory_locks (apply_class c t) \<subseteq> advisory_locks s"
    by blast
qed simp

theorem enforced_statement_leaves_no_state_witness:
  "let s = add_session_variable (lit ''a'') (lit ''1'') (new_conn_state 5)
   in \<exists>s'. apply_query plain_tables (lit ''RESET a'') s = Ret s'
      \<and> set (session_variables s') \<subseteq> set (session_variables s) \<and> temp_tables s' \<subseteq> temp_tables s
      \<and> advisory_locks s' \<subseteq> advisory_locks s"
proof -
  let ?s = "add_session_variable (lit ''a'') (lit ''1'') (new_conn_state 5)"
  have v: "validate plain_tables TransactionMode (lit ''RESET a'') False = Ret (Inr ())"
    by (simp add: validate_def detector_eval)
  have a: "apply_query plain_tables (lit ''RESET a'') ?s = Ret (remove_session_variable (lit ''a'') ?s)"
    by (simp add: apply_query_def apply_single_statement_def detector_eval)
  have n: "59 \<notin> set (lit ''RESET a'')" by (simp add: lit_def)
  from enforced_statement_leaves_no_state [OF n v a] a show ?thesis unfolding Let_def by blast
qed

text \<open>
  The enforcer looks at the whole text only: a batch that starts with a harmless statement sets
  a session variable outside a transaction in transaction mode.
\<close>

lemma batch_evades_enforcer:
  "validate U TransactionMode (lit ''SELECT 1; SET a = 1'') False = Ret (Inr ())
   \<and> apply_query U (lit ''SELECT 1; SET a = 1'') s = Ret (add_session_variable (lit ''a'') (lit ''1'') s)
   \<and> validate U TransactionMode (lit ''SET a = 1'') False \<noteq> Ret (Inr ())"
proof (intro conjI)
  show "validate U TransactionMode (lit ''SELECT 1; SET a = 1'') False = Ret (Inr ())"
    by (simp add: validate_def detector_eval)
  show "apply_query U (lit ''SELECT 1; SET a = 1'') s = Ret (add_session_variable (lit ''a'') (lit ''1'') s)"
    by (simp add: apply_query_def apply_single_statement_def detector_eval)
  show "validate U TransactionMode (lit ''SET a = 1'') False \<noteq> Ret (Inr ())"
    by (simp add: validate_def detector_eval)
qed

end
