(* ===== verification/Stmt_Cache.thy ===== *)
theory Stmt_Cache
  imports Rust_Str Lru
begin

text \<open>
  \<open>proxy/cache.rs\<close>: the statements a client has prepared, kept for query events, and the execution
  pending on each portal.  The parameters of a pending execution are values of an external crate
  (type \<open>'p\<close>); the tracing span is observational and left out.
\<close>

record prepared_statement =
  ps_query :: rstr
  ps_param_oids :: "nat list"

record 'p pending_execution =
  pe_query :: rstr
  pe_params :: "'p list"
  params_incomplete :: bool
  started_at :: nat

record 'p stmt_cache =
  statements :: "(rstr \<times> prepared_statement) list"
  lru_order :: "rstr list"
  max_size :: nat
  pending :: "(rstr \<times> 'p pending_execution) list"

definition new_cache :: "nat \<Rightarrow> 'p stmt_cache" where
  "new_cache n = \<lparr>statements = [], lru_order = [], max_size = n, pending = []\<rparr>"

text \<open>
  The eviction loop runs for a name that is already cached as well: its own entry still counts
  against the limit, although its place in the queue is gone.
\<close>

definition insert_statement :: "rstr \<Rightarrow> prepared_statement \<Rightarrow> 'p stmt_cache \<Rightarrow> 'p stmt_cache" where
  "insert_statement name stmt c =
     (let order = (if name \<in> fst ` set (statements c) then filter (\<lambda>n. n \<noteq> name) (lru_order c)
                   else lru_order c);
          (m, order) = evict_lru (max_size c) (statements c) order
      in c\<lparr>statements := AList.update name stmt m, lru_order := order @ [name]\<rparr>)"

definition get_statement :: "rstr \<Rightarrow> 'p stmt_cache \<Rightarrow> prepared_statement option \<times> 'p stmt_cache" where
  "get_statement name c =
     (if name \<in> fst ` set (statements c)
      then (map_of (statements c) name,
            c\<lparr>lru_order := filter (\<lambda>n. n \<noteq> name) (lru_order c) @ [name]\<rparr>)
      else (None, c))"

definition remove_statement :: "rstr \<Rightarrow> 'p stmt_cache \<Rightarrow> 'p stmt_cache" where
  "remove_statement name c =
     c\<lparr>statements := AList.delete name (statements c),
       lru_order := filter (\<lambda>n. n \<noteq> name) (lru_order c)\<rparr>"

definition set_pending :: "rstr \<Rightarrow> 'p pending_execution \<Rightarrow> 'p stmt_cache \<Rightarrow> 'p stmt_cache" where
  "set_pending portal pe c = c\<lparr>pending := AList.update portal pe (pending c)\<rparr>"

definition take_pending :: "rstr \<Rightarrow> 'p stmt_cache \<Rightarrow> 'p pending_execution option \<times> 'p stmt_cache" where
  "take_pending portal c =
     (map_of (pending c) portal, c\<lparr>pending := AList.delete portal (pending c)\<rparr>)"

definition has_pending :: "rstr \<Rightarrow> 'p stmt_cache \<Rightarrow> bool" where
  "has_pending portal c = (portal \<in> fst ` set (pending c))"

definition clear_pending :: "rstr \<Rightarrow> 'p stmt_cache \<Rightarrow> 'p stmt_cache" where
  "clear_pending portal c = c\<lparr>pending := AList.delete portal (pending c)\<rparr>"

definition clear_cache :: "'p stmt_cache \<Rightarrow> 'p stmt_cache" where
  "clear_cache c = c\<lparr>statements := [], lru_order := [], pending := []\<rparr>"

definition cache_len :: "'p stmt_cache \<Rightarrow> nat" where
  "cache_len c = length (statements c)"

definition cache_is_empty :: "'p stmt_cache \<Rightarrow> bool" where
  "cache_is_empty c = (statements c = [])"

text \<open>The states of a cache over the messages of one client.\<close>

inductive cache_reaches :: "'p stmt_cache \<Rightarrow> 'p stmt_cache \<Rightarrow> bool" for c0 where
  start: "cache_reaches c0 c0"
| on_insert: "cache_reaches c0 c \<Longrightarrow> cache_reaches c0 (insert_statement n stmt c)"
| on_get: "cache_reaches c0 c \<Longrightarrow> cache_reaches c0 (snd (get_statement n c))"
| on_remove: "cache_reaches c0 c \<Longrightarrow> cache_reaches c0 (remove_statement n c)"
| on_set: "cache_reaches c0 c \<Longrightarrow> cache_reaches c0 (set_pending portal pe c)"
| on_take: "cache_reaches c0 c \<Longrightarrow> cache_reaches c0 (snd (take_pending portal c))"
| on_clear: "cache_reaches c0 c \<Longrightarrow> cache_reaches c0 (clear_cache c)"

section \<open>The statement store\<close>

lemma insert_statement_evict:
  assumes wf: "lru_wf (statements c) (lru_order c)"
  obtains m order where
    "evict_lru (max_size c) (statements c) (filter (\<lambda>n. n \<noteq> name) (lru_order c)) = (m, order)"
    "insert_statement name stmt c = c\<lparr>statements := AList.update name stmt m, lru_order := order @ [name]\<rparr>"
proof -
  obtain m order where ev:
    "evict_lru (max_size c) (statements c) (filter (\<lambda>n. n \<noteq> name) (lru_order c)) = (m, order)"
    by fastforce
  have "name \<notin> fst ` set (statements c) \<Longrightarrow> filter (\<lambda>n. n \<noteq> name) (lru_order c) = lru_order c"
    using wf by (simp add: lru_wf_def filter_neq_removeAll)
  then have "insert_statement name stmt c = c\<lparr>statements := AList.update name stmt m, lru_order := order @ [name]\<rparr>"
    using ev by (auto simp: insert_statement_def Let_def)
  then show ?thesis using that ev by blast
qed

interpretation sc: lru_store statements lru_order max_size insert_statement remove_statement
proof
  fix s :: "'p stmt_cache" and k x :: rstr and v :: prepared_statement
  assume wf: "lru_wf (statements s) (lru_order s)"
  obtain m order where
    ev: "evict_lru (max_size s) (statements s) (filter (\<lambda>n. n \<noteq> k) (lru_order s)) = (m, order)"
    and ins: "insert_statement k v s = s\<lparr>statements := AList.update k v m, lru_order := order @ [k]\<rparr>"
    using insert_statement_evict [OF wf] .
  show "map_of (statements (insert_statement k v s)) k = Some v" using ins by simp
  show "\<exists>d. lru_order (insert_statement k v s) = drop d (filter (\<lambda>n. n \<noteq> k) (lru_order s)) @ [k]"
    using evict_insert(2) [OF wf ev] ins by simp
  show "x \<noteq> k \<Longrightarrow> x \<in> set (lru_order (insert_statement k v s)) \<Longrightarrow>
      map_of (statements (insert_statement k v s)) x = map_of (statements s) x"
    using evict_insert(3) [OF wf ev, of x v] ins by simp
  show "lru_wf (statements (remove_statement k s)) (lru_order (remove_statement k s))"
    using wf by (simp add: remove_statement_def lru_wf_delete)
  show "lru_wf (statements (insert_statement k v s)) (lru_order (insert_statement k v s))
      \<and> length (statements (insert_statement k v s)) \<le> max 1 (max_size s)"
    using evict_insert(1,4) [OF wf ev, of v] ins by simp
qed (auto simp: insert_statement_def remove_statement_def Let_def split: prod.splits)

lemma get_statement_ok: "sc.store_ok c \<Longrightarrow> sc.store_ok (snd (get_statement n c))"
  using lru_wf_touch [of "statements c" "lru_order c" n] by (auto simp: sc.store_ok_def get_statement_def)

lemma insert_max_size: "max_size (insert_statement n stmt c) = max_size c"
  by (simp add: insert_statement_def Let_def split: prod.splits)

lemma cache_reaches_ok:
  "cache_reaches c0 c \<Longrightarrow> sc.store_ok c0 \<and> distinct (map fst (pending c0)) \<Longrightarrow>
   sc.store_ok c \<and> distinct (map fst (pending c)) \<and> max_size c = max_size c0"
proof (induction rule: cache_reaches.induct)
  case (on_insert c n stmt)
  then show ?case
    using sc.store_ok_ins [of c n stmt]
    by (auto simp: insert_max_size) (auto simp: insert_statement_def Let_def split: prod.splits)
next
  case (on_get c n)
  then show ?case using get_statement_ok [of c n] by (auto simp: get_statement_def)
next
  case (on_remove c n)
  then show ?case using sc.store_ok_del [of c n] by (auto simp: remove_statement_def)
qed (auto simp: sc.store_ok_def set_pending_def take_pending_def clear_cache_def distinct_update
    distinct_delete)

section \<open>Properties of the cache\<close>

text \<open>
  Invariant of the cache over every history: map and LRU queue hold the same names once each,
  at most \<open>max(1, max_size)\<close> statements, one pending execution per portal.
\<close>

lemma cache_invariant:
  assumes "cache_reaches (new_cache n) c"
  shows "lru_wf (statements c) (lru_order c) \<and> cache_len c \<le> max 1 n \<and> distinct (map fst (pending c))"
  using cache_reaches_ok [OF assms] by (auto simp: sc.store_ok_def new_cache_def cache_len_def)

text \<open>
  A statement just inserted is found, a pending execution just set is taken once and exactly
  once, and looking a statement up never changes what any name is bound to.
\<close>

lemma cache_lookup:
  assumes "cache_reaches (new_cache n) c"
  shows "fst (get_statement name (insert_statement name stmt c)) = Some stmt
    \<and> fst (get_statement name (remove_statement name c)) = None
    \<and> fst (get_statement x (snd (get_statement name c))) = fst (get_statement x c)
    \<and> fst (take_pending portal (set_pending portal pe c)) = Some pe
    \<and> \<not> has_pending portal (snd (take_pending portal (set_pending portal pe c)))"
proof -
  have wf: "lru_wf (statements c) (lru_order c)"
    using cache_reaches_ok [OF assms] by (simp add: sc.store_ok_def new_cache_def)
  have some: "map_of (statements (insert_statement name stmt c)) name = Some stmt"
    using sc.ins_latest [OF wf] .
  then have "name \<in> fst ` set (statements (insert_statement name stmt c))"
    by (metis map_of_SomeD image_eqI fst_conv)
  then show ?thesis
    using some by (auto simp: get_statement_def remove_statement_def take_pending_def set_pending_def has_pending_def)
qed

text \<open>
  Preparing a cached name again in a full cache evicts another statement although the cache
  would not have grown: with a limit of at least two, the least recently used other name is lost.
\<close>

lemma reinsert_evicts_other:
  assumes "cache_reaches (new_cache n) c" and "cache_len c = n" and "2 \<le> n"
    and "lru_order c = oldest # rest" and "name \<in> set rest"
  shows "fst (get_statement oldest (insert_statement name stmt c)) = None
    \<and> cache_len (insert_statement name stmt c) = n - 1"
proof -
  have ok: "lru_wf (statements c) (lru_order c)" "max_size c = n"
    using cache_reaches_ok [OF assms(1)] by (simp_all add: sc.store_ok_def new_cache_def)
  have name: "name \<in> fst ` set (statements c)" "oldest \<noteq> name" "oldest \<in> fst ` set (statements c)"
    using ok(1) assms(4,5) by (auto simp: lru_wf_def)
  have dist: "distinct (map fst (statements c))" using ok(1) by (simp add: lru_wf_def)
  have len: "Suc (length (AList.delete oldest (statements c))) = n"
    using length_delete [OF dist name(3)] assms(2) by (simp add: cache_len_def)
  have "evict_lru n (statements c) (filter (\<lambda>x. x \<noteq> name) (lru_order c))
      = (AList.delete oldest (statements c), filter (\<lambda>x. x \<noteq> name) rest)"
    using assms(2-4) name(2) len
    by (cases "filter (\<lambda>x. x \<noteq> name) rest") (auto simp: cache_len_def)
  then have ins: "statements (insert_statement name stmt c)
      = AList.update name stmt (AList.delete oldest (statements c))"
    using name(1) ok(2) by (simp add: insert_statement_def)
  have "name \<in> fst ` set (AList.delete oldest (statements c))" using name by simp
  then show ?thesis
    using ins len name(2) by (auto simp: get_statement_def cache_len_def length_update)
qed

end
