(* ===== verification/Auth_Messages.thy ===== *)
theory Auth_Messages
  imports Backend_Scan "HOL-Library.AList"
begin

text \<open>
  \<open>protocol/startup.rs\<close> and \<open>protocol/auth_messages.rs\<close>: reading the length-prefixed first message
  of a client, the startup parameters, and the builders and parsers of the authentication
  messages.  The exact read of the async runtime and the MD5 digest are parameters.
\<close>

section \<open>Reading the first message\<close>

definition MAX_STARTUP_MESSAGE_SIZE :: nat where
  "MAX_STARTUP_MESSAGE_SIZE = 65536"

definition MIN_STARTUP_MESSAGE_SIZE :: nat where
  "MIN_STARTUP_MESSAGE_SIZE = 8"

datatype startup_error = LengthUnread | TooSmall nat | TooLarge nat | BodyUnread

text \<open>
  \<open>read_exact n s\<close> takes \<open>n\<close> bytes off the stream \<open>s\<close>, or fails when the peer closes earlier.
\<close>

definition read_startup_message ::
    "(nat \<Rightarrow> 's \<Rightarrow> (bytes \<times> 's) option) \<Rightarrow> 's \<Rightarrow> startup_error + (bytes \<times> 's)" where
  "read_startup_message read_exact s =
     (case read_exact 4 s of
        None \<Rightarrow> Inl LengthUnread
      | Some (length_buf, s1) \<Rightarrow>
          (let len = as_usize (i32_from_be (length_buf ! 0) (length_buf ! 1) (length_buf ! 2)
                       (length_buf ! 3))
           in if len < MIN_STARTUP_MESSAGE_SIZE then Inl (TooSmall len)
              else if len > MAX_STARTUP_MESSAGE_SIZE then Inl (TooLarge len)
              else case read_exact (len - 4) s1 of
                     None \<Rightarrow> Inl BodyUnread
                   | Some (body, s2) \<Rightarrow> Inr (length_buf @ body, s2)))"

definition SSL_REQUEST_CODE :: int where
  "SSL_REQUEST_CODE = 80877103"

definition is_ssl_request :: "bytes \<Rightarrow> bool" where
  "is_ssl_request data =
     (8 \<le> length data
      \<and> i32_from_be (data ! 0) (data ! 1) (data ! 2) (data ! 3) = 8
      \<and> i32_from_be (data ! 4) (data ! 5) (data ! 6) (data ! 7) = SSL_REQUEST_CODE)"

section \<open>The startup message\<close>

record startup_message =
  protocol_version :: int
  parameters :: "(rstr \<times> rstr) list"

definition PROTOCOL_VERSION_3 :: int where
  "PROTOCOL_VERSION_3 = 196608"

text \<open>\<open>while offset < stop && data[offset] != 0\<close>: where the scan for a NUL ends.\<close>

definition scan_nul :: "bytes \<Rightarrow> nat \<Rightarrow> nat \<Rightarrow> nat" where
  "scan_nul data stop offset =
     offset + length (takeWhile (\<lambda>b. b \<noteq> 0) (take (stop - offset) (drop offset data)))"

lemma scan_nul_ge: "offset \<le> scan_nul data stop offset"
  by (simp add: scan_nul_def)

definition span :: "bytes \<Rightarrow> nat \<Rightarrow> nat \<Rightarrow> bytes" where
  "span data a b = take (b - a) (drop a data)"

function parse_parameters :: "bytes \<Rightarrow> nat \<Rightarrow> nat \<Rightarrow> (rstr \<times> rstr) list \<Rightarrow> (rstr \<times> rstr) list" where
  "parse_parameters data len offset ps =
     (if offset < len then
        (let key_end = scan_nul data len offset
         in if len \<le> key_end then ps
            else
              (let key = from_utf8_lossy (span data offset key_end); value_start = key_end + 1
               in if key = [] then ps
                  else
                    (let value_end = scan_nul data len value_start
                     in parse_parameters data len (value_end + 1)
                          (AList.update key (from_utf8_lossy (span data value_start value_end)) ps))))
      else ps)"
  by pat_completeness auto
termination
  by (relation "measure (\<lambda>(data, len, offset, ps). len - offset)") (auto simp: scan_nul_def)

declare parse_parameters.simps [simp del]

definition startup_parse :: "bytes \<Rightarrow> startup_message option" where
  "startup_parse data =
     (if length data < 8 then None
      else
        (let len = as_usize (i32_from_be (data ! 0) (data ! 1) (data ! 2) (data ! 3))
         in if length data < len then None
            else
              (let version = i32_from_be (data ! 4) (data ! 5) (data ! 6) (data ! 7)
               in if version = 80877103 then None
                  else Some \<lparr>protocol_version = version, parameters = parse_parameters data len 8 []\<rparr>)))"

definition startup_user :: "startup_message \<Rightarrow> rstr option" where
  "startup_user m = map_of (parameters m) (lit ''user'')"

definition startup_database :: "startup_message \<Rightarrow> rstr option" where
  "startup_database m = map_of (parameters m) (lit ''database'')"

text \<open>\<open>Vec::with_capacity(length as usize)\<close> panics when the length does not fit an \<open>i32\<close>.\<close>

definition startup_build :: "rstr \<Rightarrow> rstr \<Rightarrow> (rstr \<times> rstr) list \<Rightarrow> bytes run" where
  "startup_build user database extra_params =
     (let params = cstr (lit ''user'') @ cstr user @ cstr (lit ''database'') @ cstr database
            @ concat (map (\<lambda>(k, v). cstr k @ cstr v) extra_params) @ [0];
          len = as_i32 (4 + 4 + length params)
      in if with_capacity_ok 1 (as_usize len)
         then Ret (be32 len @ be32 PROTOCOL_VERSION_3 @ params) else Panic)"

section \<open>Requests of the backend\<close>

datatype auth_request =
    AuthOk
  | CleartextPassword
  | Md5Password bytes
  | Sasl "rstr list"
  | SaslContinue bytes
  | SaslFinal bytes

function sasl_mechanisms :: "bytes \<Rightarrow> nat \<Rightarrow> nat \<Rightarrow> rstr list \<Rightarrow> rstr list" where
  "sasl_mechanisms data stop offset acc =
     (if offset < stop then
        (let name_end = scan_nul data stop offset;
             acc = (if offset < name_end
                    then (case from_utf8 (span data offset name_end) of
                            Some mech \<Rightarrow> acc @ [mech] | None \<Rightarrow> acc)
                    else acc);
             next = name_end + 1
         in if next < stop \<and> data ! next = 0 then acc else sasl_mechanisms data stop next acc)
      else acc)"
  by pat_completeness auto
termination
  by (relation "measure (\<lambda>(data, stop, offset, acc). stop - offset)") (auto simp: scan_nul_def)

declare sasl_mechanisms.simps [simp del]

definition auth_request_parse :: "bool \<Rightarrow> bytes \<Rightarrow> auth_request option run" where
  "auth_request_parse oc data =
     (if length data < 9 then Ret None
      else if data ! 0 \<noteq> 82 then Ret None
      else
        (let len = as_usize (i32_from_be (data ! 1) (data ! 2) (data ! 3) (data ! 4))
         in run_bind (usize_add oc 1 len) (\<lambda>stop.
              if length data < stop then Ret None
              else
                (let auth_code = i32_from_be (data ! 5) (data ! 6) (data ! 7) (data ! 8)
                 in if auth_code = 0 then Ret (Some AuthOk)
                    else if auth_code = 3 then Ret (Some CleartextPassword)
                    else if auth_code = 5 then
                      Ret (if length data < 13 then None
                           else Some (Md5Password [data ! 9, data ! 10, data ! 11, data ! 12]))
                    else if auth_code = 10 then Ret (Some (Sasl (sasl_mechanisms data stop 9 [])))
                    else if auth_code = 11 then
                      run_map (\<lambda>payload. Some (SaslContinue payload)) (slice data 9 stop)
                    else if auth_code = 12 then
                      run_map (\<lambda>payload. Some (SaslFinal payload)) (slice data 9 stop)
                    else Ret None))))"

section \<open>Builders\<close>

text \<open>
  The common shape of the builders: the length as an \<open>i32\<close>, a vector of \<open>1 + length\<close> bytes, the tag,
  the length, the content.
\<close>

definition built :: "bool \<Rightarrow> byte \<Rightarrow> bytes \<Rightarrow> bytes run" where
  "built oc tag content =
     (let len = as_i32 (4 + length content)
      in run_bind (usize_add oc 1 (as_usize len)) (\<lambda>cap.
           if with_capacity_ok 1 cap then Ret (tag # be32 len @ content) else Panic))"

definition build_auth_ok :: bytes where
  "build_auth_ok = 82 # be32 8 @ be32 0"

definition build_auth_cleartext_password :: bytes where
  "build_auth_cleartext_password = 82 # be32 8 @ be32 3"

definition build_auth_md5_password :: "bytes \<Rightarrow> bytes" where
  "build_auth_md5_password salt = 82 # be32 12 @ be32 5 @ salt"

definition parse_password_message :: "bool \<Rightarrow> bytes \<Rightarrow> rstr option run" where
  "parse_password_message oc data =
     (if length data < 5 then Ret None
      else if data ! 0 \<noteq> 112 then Ret None
      else
        (let len = as_usize (i32_from_be (data ! 1) (data ! 2) (data ! 3) (data ! 4))
         in run_bind (usize_add oc 1 len) (\<lambda>stop.
              if length data < stop then Ret None
              else run_bind (usize_sub oc stop 1) (\<lambda>last.
                run_map from_utf8 (slice data 5 last)))))"

definition build_password_message :: "bool \<Rightarrow> rstr \<Rightarrow> bytes run" where
  "build_password_message oc password = built oc 112 (as_bytes password @ [0])"

definition build_sasl_initial_response :: "bool \<Rightarrow> rstr \<Rightarrow> bytes \<Rightarrow> bytes run" where
  "build_sasl_initial_response oc mechanism client_first =
     built oc 112 (as_bytes mechanism @ [0] @ be32 (as_i32 (length client_first)) @ client_first)"

definition build_sasl_response :: "bool \<Rightarrow> bytes \<Rightarrow> bytes run" where
  "build_sasl_response oc data = built oc 112 data"

definition build_error_response :: "bool \<Rightarrow> rstr \<Rightarrow> rstr \<Rightarrow> rstr \<Rightarrow> bytes run" where
  "build_error_response oc sev code message =
     built oc 69 ((83 # as_bytes sev @ [0]) @ (67 # as_bytes code @ [0])
       @ (77 # as_bytes message @ [0]) @ [0])"

text \<open>\<open>md5_hex\<close> is the lower-case hexadecimal digest.\<close>

definition compute_md5_response :: "(bytes \<Rightarrow> rstr) \<Rightarrow> rstr \<Rightarrow> rstr \<Rightarrow> bytes \<Rightarrow> rstr" where
  "compute_md5_response md5_hex password username salt =
     (let inner_hash = md5_hex (as_bytes (password @ username))
      in lit ''md5'' @ md5_hex (as_bytes inner_hash @ salt))"

definition verify_md5_response ::
    "(bytes \<Rightarrow> rstr) \<Rightarrow> rstr \<Rightarrow> rstr \<Rightarrow> rstr \<Rightarrow> bytes \<Rightarrow> bool" where
  "verify_md5_response md5_hex client_response password username salt =
     (client_response = compute_md5_response md5_hex password username salt)"

section \<open>Round trips\<close>

text \<open>
  What the code relies on in the exact read of the runtime: it fails when fewer bytes come before
  the peer closes, and otherwise returns the next bytes of the stream, however they are cut into
  segments.  \<open>content\<close> gives the bytes of a stream.
\<close>

definition reads_exactly :: "(nat \<Rightarrow> 's \<Rightarrow> (bytes \<times> 's) option) \<Rightarrow> ('s \<Rightarrow> bytes) \<Rightarrow> bool" where
  "reads_exactly rd content =
     (\<forall>n s. if length (content s) < n then rd n s = None
            else \<exists>s'. rd n s = Some (take n (content s), s') \<and> content s' = drop n (content s))"

text \<open>A reader over a list of segments.\<close>

fun read_segments :: "nat \<Rightarrow> bytes list \<Rightarrow> (bytes \<times> bytes list) option" where
  "read_segments n [] = (if n = 0 then Some ([], []) else None)"
| "read_segments n (seg # segs) =
     (if n \<le> length seg then Some (take n seg, drop n seg # segs)
      else map_option (\<lambda>(got, rest). (seg @ got, rest)) (read_segments (n - length seg) segs))"

definition startup_text :: "(rstr \<times> rstr) list \<Rightarrow> bool" where
  "startup_text = list_all (\<lambda>(k, v). k \<noteq> [] \<and> c_text k \<and> c_text v)"

definition put_all :: "('k \<times> 'v) list \<Rightarrow> ('k \<times> 'v) list \<Rightarrow> ('k \<times> 'v) list" where
  "put_all kvs ps = fold (\<lambda>(k, v). AList.update k v) kvs ps"

lemma read_segments_exact: "reads_exactly read_segments concat"
proof -
  have "if length (concat segs) < n then read_segments n segs = None
        else \<exists>s'. read_segments n segs = Some (take n (concat segs), s') \<and> concat s' = drop n (concat segs)"
    for n segs
    by (induction n segs rule: read_segments.induct) (auto split: if_splits)
  then show ?thesis by (simp add: reads_exactly_def)
qed

lemma reads_exactlyD:
  assumes "reads_exactly rd content" and "n \<le> length (content s)"
  obtains s' where "rd n s = Some (take n (content s), s')" and "content s' = drop n (content s)"
  using assms unfolding reads_exactly_def by (meson not_less)

lemma scan_nul_cstr:
  assumes "c_text s" and "length pre + blen s + 1 \<le> stop"
  shows "scan_nul (pre @ cstr s @ post) stop (length pre) = length pre + blen s"
proof -
  have "take (stop - length pre) (cstr s @ post) = as_bytes s @ 0 # take (stop - length pre - blen s - 1) post"
    using assms(2) by (simp add: cstr_def length_as_bytes take_Cons')
  then show ?thesis
    using as_bytes_nonzero [OF assms(1)] by (simp add: scan_nul_def takeWhile_append length_as_bytes)
qed

lemma span_cstr: "span (pre @ cstr s @ post) (length pre) (length pre + blen s) = as_bytes s"
  by (simp add: span_def cstr_def length_as_bytes)

lemma lossy_as_bytes: "c_text s \<Longrightarrow> from_utf8_lossy (as_bytes s) = s"
  by (rule from_utf8_lossy_valid) (simp add: from_utf8_as_bytes c_text_def)

lemma parse_parameters_one:
  assumes "offset < len" and "scan_nul data len offset = ke" and "ke < len"
    and "from_utf8_lossy (span data offset ke) = k" and "k \<noteq> []"
    and "scan_nul data len (ke + 1) = ve" and "from_utf8_lossy (span data (ke + 1) ve) = v"
  shows "parse_parameters data len offset ps = parse_parameters data len (ve + 1) (AList.update k v ps)"
  using assms by (subst parse_parameters.simps) (simp add: Let_def)

lemma parse_parameters_encode:
  assumes "startup_text kvs"
  shows "parse_parameters (pre @ concat (map (\<lambda>(k, v). cstr k @ cstr v) kvs) @ [0])
      (length pre + length (concat (map (\<lambda>(k, v). cstr k @ cstr v) kvs)) + 1) (length pre) ps
    = put_all kvs ps"
  using assms
proof (induction kvs arbitrary: pre ps)
  case Nil
  have "from_utf8_lossy [] = []" by (rule from_utf8_lossy_valid) simp
  then show ?case by (subst parse_parameters.simps) (simp add: scan_nul_def span_def put_all_def Let_def)
next
  case (Cons kv kvs)
  obtain k v where kv: "kv = (k, v)" by (cases kv)
  let ?rest = "concat (map (\<lambda>(k, v). cstr k @ cstr v) kvs) @ [0]"
  let ?data = "pre @ cstr k @ cstr v @ ?rest"
  let ?len = "length ?data"
  let ?pre = "pre @ cstr k @ cstr v"
  have t: "c_text k" "c_text v" "k \<noteq> []" "startup_text kvs"
    using Cons.prems kv by (auto simp: startup_text_def)
  have ke: "scan_nul ?data ?len (length pre) = length pre + blen k"
    by (rule scan_nul_cstr) (use t in auto)
  have ks: "span ?data (length pre) (length pre + blen k) = as_bytes k"
    by (rule span_cstr)
  have ve: "scan_nul ?data ?len (length pre + blen k + 1) = length pre + blen k + 1 + blen v"
    using scan_nul_cstr [of v "pre @ cstr k" ?len ?rest] t by simp
  have vs: "span ?data (length pre + blen k + 1) (length pre + blen k + 1 + blen v) = as_bytes v"
    using span_cstr [of "pre @ cstr k" v ?rest] by simp
  have "parse_parameters ?data ?len (length pre) ps
      = parse_parameters ?data ?len (length pre + blen k + 1 + blen v + 1) (AList.update k v ps)"
    by (rule parse_parameters_one [OF _ ke _ _ _ ve, unfolded ks vs])
       (use t in \<open>simp_all add: lossy_as_bytes\<close>)
  also have "length pre + blen k + 1 + blen v + 1 = length ?pre" by simp
  also have "parse_parameters ?data ?len (length ?pre) (AList.update k v ps) = put_all kvs (AList.update k v ps)"
    using Cons.IH [OF t(4), of ?pre "AList.update k v ps"] by (simp add: add_ac)
  finally show ?case using kv by (simp add: put_all_def add_ac)
qed

text \<open>The parameters of a built startup message, and its size.\<close>

definition startup_params :: "rstr \<Rightarrow> rstr \<Rightarrow> (rstr \<times> rstr) list \<Rightarrow> (rstr \<times> rstr) list" where
  "startup_params user database extra = (lit ''user'', user) # (lit ''database'', database) # extra"

definition params_bytes :: "(rstr \<times> rstr) list \<Rightarrow> bytes" where
  "params_bytes kvs = concat (map (\<lambda>(k, v). cstr k @ cstr v) kvs) @ [0]"

lemma startup_build_small:
  assumes "8 + length (params_bytes (startup_params user database extra)) < 2 ^ 31"
  shows "startup_build user database extra =
    Ret (be32 (int (8 + length (params_bytes (startup_params user database extra))))
         @ be32 PROTOCOL_VERSION_3 @ params_bytes (startup_params user database extra))"
proof -
  let ?p = "params_bytes (startup_params user database extra)"
  have p: "cstr (lit ''user'') @ cstr user @ cstr (lit ''database'') @ cstr database
      @ concat (map (\<lambda>(k, v). cstr k @ cstr v) extra) @ [0] = ?p"
    by (simp add: params_bytes_def startup_params_def)
  have n: "8 + length ?p < 2147483648" using assms by simp
  have l: "as_i32 (4 + 4 + length ?p) = int (8 + length ?p)" using as_i32_small [OF n] by simp
  have u: "as_usize (int (8 + length ?p)) = 8 + length ?p"
    using n by (simp add: as_usize_nonneg del: of_nat_add)
  have "with_capacity_ok 1 (8 + length ?p)" using n by (simp add: with_capacity_ok_def)
  then show ?thesis unfolding startup_build_def Let_def p l u by simp
qed

lemma be32_nth:
  assumes "- 2147483648 \<le> i" and "i < 2147483648"
  shows "i32_from_be ((be32 i @ r) ! 0) ((be32 i @ r) ! 1) ((be32 i @ r) ! 2) ((be32 i @ r) ! 3) = i"
proof -
  obtain a b c d where w: "be32 i = [a, b, c, d]" by (rule be32_elems)
  have "i32_from_be a b c d = i" by (rule i32_be32 [OF assms w])
  then show ?thesis using w by simp
qed

lemma be32_nth_at:
  assumes "- 2147483648 \<le> i" and "i < 2147483648" and "length pre = k"
  shows "i32_from_be ((pre @ be32 i @ r) ! k) ((pre @ be32 i @ r) ! Suc k)
      ((pre @ be32 i @ r) ! (k + 2)) ((pre @ be32 i @ r) ! (k + 3)) = i"
  using be32_nth [OF assms(1, 2), of r] assms(3) by (simp add: nth_append)

lemma startup_parse_built:
  assumes "startup_text kvs" and "8 + length (params_bytes kvs) < 2 ^ 31"
  shows "startup_parse (be32 (int (8 + length (params_bytes kvs))) @ be32 PROTOCOL_VERSION_3 @ params_bytes kvs)
    = Some \<lparr>protocol_version = PROTOCOL_VERSION_3, parameters = put_all kvs []\<rparr>"
proof -
  let ?n = "int (8 + length (params_bytes kvs))"
  let ?pre = "be32 ?n @ be32 PROTOCOL_VERSION_3"
  let ?data = "?pre @ params_bytes kvs"
  have n: "?n < 2147483648" using assms(2) by simp
  have len: "i32_from_be (?data ! 0) (?data ! 1) (?data ! 2) (?data ! 3) = ?n"
    using be32_nth [of ?n "be32 PROTOCOL_VERSION_3 @ params_bytes kvs"] n by simp
  have ver: "i32_from_be (?data ! 4) (?data ! 5) (?data ! 6) (?data ! 7) = 196608"
    using be32_nth_at [of 196608 "be32 ?n" 4 "params_bytes kvs"] by (simp add: PROTOCOL_VERSION_3_def)
  have u: "as_usize ?n = 8 + length (params_bytes kvs)"
    using n by (simp add: as_usize_nonneg del: of_nat_add)
  have "parse_parameters ?data (8 + length (params_bytes kvs)) 8 [] = put_all kvs []"
    using parse_parameters_encode [OF assms(1), of ?pre "[]"] by (simp add: params_bytes_def)
  then show ?thesis
    using len ver u by (simp add: startup_parse_def PROTOCOL_VERSION_3_def Let_def)
qed

lemma read_startup_built:
  assumes "reads_exactly rd content" and "content s = be32 (int (4 + length body)) @ body @ post"
    and "4 \<le> length body" and "4 + length body \<le> MAX_STARTUP_MESSAGE_SIZE"
  shows "\<exists>s'. read_startup_message rd s = Inr (be32 (int (4 + length body)) @ body, s') \<and> content s' = post"
proof -
  let ?n = "int (4 + length body)"
  have n: "?n < 2147483648" using assms(4) by (simp add: MAX_STARTUP_MESSAGE_SIZE_def)
  obtain s1 where s1: "rd 4 s = Some (be32 ?n, s1)" "content s1 = body @ post"
    by (rule reads_exactlyD [OF assms(1), of 4 s]) (use assms(2) in auto)
  obtain s2 where s2: "rd (length body) s1 = Some (body, s2)" "content s2 = post"
    by (rule reads_exactlyD [OF assms(1), of "length body" s1]) (use s1(2) in auto)
  have "i32_from_be (be32 ?n ! 0) (be32 ?n ! 1) (be32 ?n ! 2) (be32 ?n ! 3) = ?n"
    using be32_nth [of ?n "[]"] n by simp
  moreover have "as_usize ?n = 4 + length body" using n by (simp add: as_usize_nonneg del: of_nat_add)
  ultimately show ?thesis
    using s1 s2 assms(3, 4)
    by (simp add: read_startup_message_def MIN_STARTUP_MESSAGE_SIZE_def Let_def del: of_nat_add)
qed

lemma built_frame: "4 + length content < 2 ^ 31 \<Longrightarrow> built oc tag content = Ret (frame tag content)"
proof -
  assume a: "4 + length content < 2 ^ 31"
  let ?n = "4 + length content"
  have l: "as_i32 ?n = int ?n" using a by (simp add: as_i32_small)
  have u: "as_usize (int ?n) = ?n" using a by (simp add: as_usize_nonneg del: of_nat_add)
  have "usize_add oc 1 ?n = Ret (1 + ?n)" using a by (intro usize_add_small) (simp add: usize_modulus_def)
  then show ?thesis
    using a unfolding built_def Let_def l u by (simp add: with_capacity_ok_def frame_def)
qed

lemma map_of_put_all: "map_of (put_all kvs ps) = map_of (rev kvs @ ps)"
proof (induction kvs arbitrary: ps)
  case (Cons kv kvs)
  then show ?case by (cases kv) (auto simp: put_all_def update_conv' map_add_def fun_eq_iff split: option.splits)
qed (simp add: put_all_def)

lemma startup_not_ssl: "startup_parse data = Some m \<Longrightarrow> \<not> is_ssl_request data"
  by (auto simp: startup_parse_def is_ssl_request_def SSL_REQUEST_CODE_def Let_def split: if_splits)

text \<open>The length field decides what becomes of a password message.\<close>

lemma password_by_length:
  assumes "5 \<le> length data" and "length data < 2 ^ 63" and "data ! 0 = 112"
    and "n = i32_from_be (data ! 1) (data ! 2) (data ! 3) (data ! 4)"
  shows "parse_password_message oc data =
    (if - 1 \<le> n \<and> n < 5 then Panic
     else if n < - 1 \<or> length data < nat n + 1 then Ret None
     else Ret (from_utf8 (span data 5 (nat n))))"
proof -
  have b: "- 2147483648 \<le> n" "n < 2147483648" using i32_bounds assms(4) by simp_all
  consider "n = - 1" | "n < - 1" | "0 \<le> n" by linarith
  then show ?thesis
  proof cases
    case 1
    then have "int (as_usize n) = 2 ^ 64 - 1" using as_usize_neg [of n] by simp
    then have u: "as_usize n = 18446744073709551615" by simp
    show ?thesis
      using assms 1 unfolding parse_password_message_def assms(4) [symmetric] u Let_def
      by (cases oc) (simp_all add: usize_add_def usize_sub_def usize_modulus_def slice_def)
  next
    case 2
    then have "int (as_usize n) = 2 ^ 64 + n" using as_usize_neg [of n] b by simp
    then have "usize_add oc 1 (as_usize n) = Ret (1 + as_usize n)" "length data < 1 + as_usize n"
      using 2 b assms(2) by (auto intro!: usize_add_small simp: usize_modulus_def)
    then show ?thesis
      using assms 2 unfolding parse_password_message_def assms(4) [symmetric] by (simp add: Let_def)
  next
    case 3
    then have u: "as_usize n = nat n" using b by (simp add: as_usize_nonneg)
    have "usize_add oc 1 (nat n) = Ret (1 + nat n)"
      using b by (intro usize_add_small) (simp add: usize_modulus_def)
    then show ?thesis
      using assms 3 unfolding parse_password_message_def assms(4) [symmetric] u
      by (auto simp: Let_def slice_def span_def)
  qed
qed

lemma password_roundtrip:
  assumes "list_all scalar pw" and "5 + blen pw < 2 ^ 31"
  shows "run_bind (build_password_message oc pw) (parse_password_message oc) = Ret (Some pw)"
proof -
  let ?c = "as_bytes pw @ [0]"
  let ?n = "int (4 + length ?c)"
  have b: "build_password_message oc pw = Ret (frame 112 ?c)"
    unfolding build_password_message_def by (rule built_frame) (use assms in \<open>simp add: length_as_bytes\<close>)
  have n: "?n < 2147483648" using assms(2) by (simp add: length_as_bytes)
  have h: "i32_from_be (frame 112 ?c ! 1) (frame 112 ?c ! 2) (frame 112 ?c ! 3) (frame 112 ?c ! 4) = ?n"
    using be32_nth_at [of ?n "[112]" 1 ?c] n by (simp add: frame_def numeral_2_eq_2)
  have d: "span (frame 112 ?c) 5 (nat ?n) = as_bytes pw"
    using length_be32 [of ?n] by (simp add: span_def frame_def)
  have l: "length (frame 112 ?c) < 2 ^ 63" using assms(2) by (simp add: length_as_bytes)
  have "frame 112 ?c ! 0 = 112" by (simp add: frame_def)
  from password_by_length [OF _ l this h [symmetric], of oc] show ?thesis
    unfolding b d by (simp add: from_utf8_as_bytes assms(1))
qed

text \<open>What a client finds in an ErrorResponse the proxy builds.\<close>

definition error_body :: "rstr \<Rightarrow> rstr \<Rightarrow> rstr \<Rightarrow> bytes" where
  "error_body sev code msg = encode_fields [(83, sev), (67, code), (77, msg)]"

lemma length_error_body: "length (error_body sev code msg) = blen sev + blen code + blen msg + 7"
  by (simp add: error_body_def encode_fields_def)

lemma build_error_response_frame:
  "blen sev + blen code + blen msg < 2 ^ 30 \<Longrightarrow>
   build_error_response oc sev code msg = Ret (frame MSG_ERROR_RESPONSE (error_body sev code msg))"
proof -
  assume a: "blen sev + blen code + blen msg < 2 ^ 30"
  have c: "(83 # as_bytes sev @ [0]) @ (67 # as_bytes code @ [0]) @ (77 # as_bytes msg @ [0]) @ [0]
      = error_body sev code msg"
    by (simp add: error_body_def encode_fields_def cstr_def)
  show ?thesis
    unfolding build_error_response_def c MSG_ERROR_RESPONSE_def
    by (rule built_frame) (use a in \<open>simp add: length_error_body\<close>)
qed

lemma error_body_found:
  assumes "c_text sev" and "c_text code" and "c_text msg" and "blen sev + blen code + blen msg < 2 ^ 30"
  shows "find_error_fields oc (frame MSG_ERROR_RESPONSE (error_body sev code msg) @ post) =
    Ret (Some (set_field 77 msg (set_field 67 code (set_field 83 sev no_fields))))"
proof -
  have small: "4 + length (error_body sev code msg) < 2 ^ 31" using assms(4) by (simp add: length_error_body)
  have "parse_error_fields (error_body sev code msg) =
      set_field 77 msg (set_field 67 code (set_field 83 sev no_fields))"
    unfolding parse_error_fields_def error_body_def
    by (subst parse_fields_encode) (use assms(1-3) in simp_all)
  then show ?thesis using find_error_frame [OF small, of oc post] by simp
qed

section \<open>Properties of the startup and authentication messages\<close>

text \<open>
  C22.  A startup message the proxy builds is read back whole by the proxy's own reader, however the
  network cuts it, and parses to protocol 3.0 with the parameters it was built from, the last value
  of a repeated name winning; it is never taken for an SSL request.
\<close>

theorem startup_handshake_roundtrip:
  assumes "reads_exactly rd content" and "startup_text (startup_params user database extra)"
    and "8 + length (params_bytes (startup_params user database extra)) \<le> MAX_STARTUP_MESSAGE_SIZE"
    and "startup_build user database extra = Ret msg" and "content s = msg @ post"
  shows "\<exists>s' ps. read_startup_message rd s = Inr (msg, s') \<and> content s' = post
    \<and> startup_parse msg = Some \<lparr>protocol_version = PROTOCOL_VERSION_3, parameters = ps\<rparr>
    \<and> map_of ps = map_of (rev (startup_params user database extra)) \<and> \<not> is_ssl_request msg"
proof -
  let ?kvs = "startup_params user database extra"
  let ?body = "be32 PROTOCOL_VERSION_3 @ params_bytes ?kvs"
  have small: "8 + length (params_bytes ?kvs) < 2 ^ 31"
    using assms(3) by (simp add: MAX_STARTUP_MESSAGE_SIZE_def)
  have msg: "msg = be32 (int (4 + length ?body)) @ ?body"
    using startup_build_small [OF small] assms(4) by simp
  obtain s' where "read_startup_message rd s = Inr (msg, s')" "content s' = post"
    using read_startup_built [OF assms(1), of s ?body post] assms(3, 5) msg by auto
  moreover have p: "startup_parse msg =
      Some \<lparr>protocol_version = PROTOCOL_VERSION_3, parameters = put_all ?kvs []\<rparr>"
    using startup_parse_built [OF assms(2) small] msg by simp
  ultimately show ?thesis using startup_not_ssl [OF p] map_of_put_all [of ?kvs "[]"] by auto
qed

theorem startup_handshake_roundtrip_witness:
  "let m = be32 27 @ be32 PROTOCOL_VERSION_3 @ params_bytes (startup_params (lit ''u'') (lit ''d'') [])
   in startup_build (lit ''u'') (lit ''d'') [] = Ret m
      \<and> (\<exists>s' ps. read_startup_message read_segments [take 3 m, [], drop 3 m @ [1]] = Inr (m, s')
           \<and> concat s' = [1]
           \<and> startup_parse m = Some \<lparr>protocol_version = PROTOCOL_VERSION_3, parameters = ps\<rparr>
           \<and> map_of ps = map_of (rev (startup_params (lit ''u'') (lit ''d'') [])) \<and> \<not> is_ssl_request m)"
proof -
  let ?m = "be32 27 @ be32 PROTOCOL_VERSION_3 @ params_bytes (startup_params (lit ''u'') (lit ''d'') [])"
  have len: "length (params_bytes (startup_params (lit ''u'') (lit ''d'') [])) = 19"
    by (simp add: params_bytes_def startup_params_def lit_def blen_def len_utf8_def)
  have t: "startup_text (startup_params (lit ''u'') (lit ''d'') [])"
    by (simp add: startup_text_def startup_params_def lit_def c_text_def scalar_def)
  have b: "startup_build (lit ''u'') (lit ''d'') [] = Ret ?m"
    using startup_build_small [of "lit ''u''" "lit ''d''" "[]"] unfolding len by simp
  have c: "concat [take 3 ?m, [], drop 3 ?m @ [1]] = ?m @ [1]" by (simp flip: append_assoc)
  show ?thesis
    unfolding Let_def
    using startup_handshake_roundtrip [OF read_segments_exact t _ b c] len b
    by (simp add: MAX_STARTUP_MESSAGE_SIZE_def)
qed

text \<open>
  A password message panics the connection exactly when its length field is between \<open>-1\<close> and
  \<open>4\<close>, in both builds: the field is sent by a client that is not yet authenticated.
\<close>

lemma password_message_panics:
  assumes "5 \<le> length data" and "length data < 2 ^ 63" and "data ! 0 = 112"
  shows "parse_password_message oc data = Panic \<longleftrightarrow>
    (let n = i32_from_be (data ! 1) (data ! 2) (data ! 3) (data ! 4) in - 1 \<le> n \<and> n < 5)"
  using password_by_length [OF assms refl, of oc] by (simp add: Let_def)

end
