(* ===== verification/Client_Auth.thy ===== *)
theory Client_Auth
  imports Auth_Messages "HOL-Library.Multiset"
begin

text \<open>
  How a client is let in: the TLS negotiation of \<open>tls/startup.rs\<close>, the user list of
  \<open>auth/file_auth.rs\<close> and the handshake of \<open>auth/authenticator.rs\<close>.  The bytes a call writes to
  the client are part of its result; whether a write succeeds, what a read returns, the TLS
  handshake, the random salt and the MD5 digest are arguments.
\<close>

section \<open>TLS negotiation\<close>

datatype tls_sslmode = Disable | AllowTls | Require | VerifyCa | VerifyFull

definition requires_encryption :: "tls_sslmode \<Rightarrow> bool" where
  "requires_encryption m = (m = Require \<or> m = VerifyCa \<or> m = VerifyFull)"

definition SSL_RESPONSE_YES :: byte where "SSL_RESPONSE_YES = 83"
definition SSL_RESPONSE_NO :: byte where "SSL_RESPONSE_NO = 78"

text \<open>A stream in a result is the connection after the bytes read so far.\<close>

datatype 's ssl_startup_result = Upgraded 's | Declined 's bytes | NoSslRequest 's bytes | Rejected

datatype ssl_startup_error = StartupUnread startup_error | WriteFailed | HandshakeFailed | TlsNotConfigured

definition decline_ssl ::
    "(nat \<Rightarrow> 's \<Rightarrow> (bytes \<times> 's) option) \<Rightarrow> bool \<Rightarrow> 's
      \<Rightarrow> (ssl_startup_error + 's ssl_startup_result) \<times> bytes" where
  "decline_ssl rd write_ok s =
     (if \<not> write_ok then (Inl WriteFailed, [])
      else case read_startup_message rd s of
             Inl e \<Rightarrow> (Inl (StartupUnread e), [SSL_RESPONSE_NO])
           | Inr (startup_buf, s') \<Rightarrow> (Inr (Declined s' startup_buf), [SSL_RESPONSE_NO]))"

definition handle_ssl_startup ::
    "bool \<Rightarrow> (nat \<Rightarrow> 's \<Rightarrow> (bytes \<times> 's) option) \<Rightarrow> bool \<Rightarrow> bool \<Rightarrow> tls_sslmode \<Rightarrow> bool \<Rightarrow> 's
      \<Rightarrow> ((ssl_startup_error + 's ssl_startup_result) \<times> bytes) run" where
  "handle_ssl_startup oc rd write_ok accept_ok sslmode has_tls s =
     (case read_startup_message rd s of
        Inl e \<Rightarrow> Ret (Inl (StartupUnread e), [])
      | Inr (buf, s1) \<Rightarrow>
          if \<not> is_ssl_request buf then
            if requires_encryption sslmode then
              run_map (\<lambda>err. (Inr Rejected, if write_ok then err else []))
                (build_error_response oc (lit ''FATAL'') (lit ''28000'')
                   (lit ''SSL connection is required by this server''))
            else Ret (Inr (NoSslRequest s1 buf), [])
          else if sslmode = Disable then Ret (decline_ssl rd write_ok s1)
          else if sslmode = AllowTls \<and> \<not> has_tls then Ret (decline_ssl rd write_ok s1)
          else if has_tls then
            Ret (if \<not> write_ok then (Inl WriteFailed, [])
                 else if accept_ok then (Inr (Upgraded s1), [SSL_RESPONSE_YES])
                 else (Inl HandshakeFailed, [SSL_RESPONSE_YES]))
          else
            Ret (if \<not> write_ok then (Inl WriteFailed, []) else (Inl TlsNotConfigured, [SSL_RESPONSE_NO])))"

section \<open>The user list\<close>

datatype password_entry = Plain rstr | Md5Hash rstr | ScramSha256 rstr

fun is_plain :: "password_entry \<Rightarrow> bool" where
  "is_plain (Plain _) = True"
| "is_plain _ = False"

fun as_plain :: "password_entry \<Rightarrow> rstr option" where
  "as_plain (Plain p) = Some p"
| "as_plain _ = None"

datatype auth_error = InvalidCredentials | UserNotFound rstr | AuthFileNotFound rstr | AuthFileReadError
  | InvalidFormat rstr

text \<open>\<open>str::lines\<close>: pieces ended by a newline, a carriage return before it dropped.\<close>

definition strip_cr :: "rstr \<Rightarrow> rstr" where
  "strip_cr s = (if s \<noteq> [] \<and> last s = 13 then butlast s else s)"

definition lines_of :: "rstr \<Rightarrow> rstr list" where
  "lines_of s =
     (let parts = split_char 10 s
      in map strip_cr (butlast parts) @ (if last parts = [] then [] else [last parts]))"

fun parse_line_from :: "bool \<Rightarrow> rstr list \<Rightarrow> rstr \<Rightarrow> rstr \<Rightarrow> rstr list" where
  "parse_line_from in_quotes parts current [] = parts"
| "parse_line_from in_quotes parts current (ch # rest) =
     (if ch = 34 then
        if in_quotes then parse_line_from False (parts @ [current]) [] rest
        else parse_line_from True parts current rest
      else if in_quotes then parse_line_from in_quotes parts (current @ [ch]) rest
      else parse_line_from in_quotes parts current rest)"

definition parse_line :: "rstr \<Rightarrow> (rstr \<times> rstr) option" where
  "parse_line line =
     (let parts = parse_line_from False [] [] line
      in if 2 \<le> length parts then Some (parts ! 0, parts ! 1) else None)"

definition password_entry_of :: "rstr \<Rightarrow> password_entry" where
  "password_entry_of pass =
     (if starts_with pass (lit ''md5'') \<and> blen pass = 35 then Md5Hash (drop 3 pass)
      else if starts_with pass (lit ''SCRAM-SHA-256$'') then ScramSha256 pass
      else Plain pass)"

type_synonym users = "(rstr \<times> password_entry) list"

fun load_lines :: "nat \<Rightarrow> rstr list \<Rightarrow> users \<Rightarrow> auth_error + users" where
  "load_lines line_num [] users = Inr users"
| "load_lines line_num (raw # rest) users =
     (let line = trim raw
      in if line = [] \<or> starts_with line (lit '';'') \<or> starts_with line (lit ''#'')
         then load_lines (Suc line_num) rest users
         else case parse_line line of
                Some (user, pass) \<Rightarrow>
                  load_lines (Suc line_num) rest (AList.update user (password_entry_of pass) users)
              | None \<Rightarrow>
                  Inl (InvalidFormat (lit ''Invalid format at line '' @ show_nat (line_num + 1)
                         @ lit '': '' @ line)))"

definition from_string :: "rstr \<Rightarrow> auth_error + users" where
  "from_string content = load_lines 0 (lines_of content) []"

text \<open>\<open>file\<close> is what reading the file gives: the text, or whether it is missing.\<close>

definition from_file :: "rstr \<Rightarrow> bool + rstr \<Rightarrow> auth_error + users" where
  "from_file path file =
     (case file of
        Inl not_found \<Rightarrow> Inl (if not_found then AuthFileNotFound path else AuthFileReadError)
      | Inr content \<Rightarrow> from_string content)"

definition has_user :: "users \<Rightarrow> rstr \<Rightarrow> bool" where
  "has_user users username = (map_of users username \<noteq> None)"

definition get_user :: "users \<Rightarrow> rstr \<Rightarrow> (rstr \<times> password_entry) option" where
  "get_user users username = map_option (\<lambda>entry. (username, entry)) (map_of users username)"

definition compute_md5_password :: "(bytes \<Rightarrow> rstr) \<Rightarrow> rstr \<Rightarrow> rstr \<Rightarrow> rstr" where
  "compute_md5_password md5_hex password username = md5_hex (as_bytes (password @ username))"

definition check_password :: "(bytes \<Rightarrow> rstr) \<Rightarrow> users \<Rightarrow> rstr \<Rightarrow> rstr \<Rightarrow> bool" where
  "check_password md5_hex users username password =
     (case map_of users username of
        Some (Plain stored) \<Rightarrow> stored = password
      | Some (Md5Hash stored_hash) \<Rightarrow> compute_md5_password md5_hex password username = stored_hash
      | Some (ScramSha256 _) \<Rightarrow> False
      | None \<Rightarrow> False)"

definition get_password :: "users \<Rightarrow> rstr \<Rightarrow> rstr option" where
  "get_password users username =
     (case map_of users username of Some (Plain p) \<Rightarrow> Some p | _ \<Rightarrow> None)"

section \<open>The handshake\<close>

datatype auth_type = Trust | Md5 | AuthScramSha256 | Cert

record auth_settings =
  auth_type :: auth_type
  backend_user :: rstr
  backend_database :: rstr

record auth_handshake_result =
  hs_startup :: startup_message
  hs_username :: rstr
  hs_database :: "rstr option"
  hs_startup_bytes :: bytes

datatype auth_failure = StartupReadFailed startup_error | StartupUnparsable | MissingUser | NoAuthFile
  | SendFailed | NotInAuthFile rstr | PasswordUnread | InvalidPasswordMessage | NoPlainPassword
  | WrongPassword rstr | ScramUnsupported | NoClientCertificate

text \<open>
  \<open>iter\<close> is the order in which the hash map of parameters is traversed.
\<close>

definition build_backend_startup ::
    "((rstr \<times> rstr) list \<Rightarrow> (rstr \<times> rstr) list) \<Rightarrow> auth_settings \<Rightarrow> startup_message \<Rightarrow> bytes run" where
  "build_backend_startup iter cfg client_startup =
     startup_build (backend_user cfg) (backend_database cfg)
       (filter (\<lambda>(k, v). k \<noteq> lit ''user'' \<and> k \<noteq> lit ''database'') (iter (parameters client_startup)))"

definition accept_client ::
    "((rstr \<times> rstr) list \<Rightarrow> (rstr \<times> rstr) list) \<Rightarrow> auth_settings \<Rightarrow> startup_message \<Rightarrow> rstr
      \<Rightarrow> bytes \<Rightarrow> ((auth_failure + auth_handshake_result) \<times> bytes) run" where
  "accept_client iter cfg startup username out =
     run_map (\<lambda>bs. (Inr \<lparr>hs_startup = startup, hs_username = username,
                        hs_database = startup_database startup, hs_startup_bytes = bs\<rparr>, out))
       (build_backend_startup iter cfg startup)"

definition send_auth_error ::
    "bool \<Rightarrow> bool \<Rightarrow> bytes \<Rightarrow> auth_failure \<Rightarrow> ((auth_failure + auth_handshake_result) \<times> bytes) run" where
  "send_auth_error oc write_ok out failure =
     run_map (\<lambda>err. if write_ok then (Inl failure, out @ err) else (Inl SendFailed, out))
       (build_error_response oc (lit ''FATAL'') (lit ''28P01'') (lit ''password authentication failed''))"

text \<open>
  \<open>write_ok k\<close> is whether the \<open>k\<close>-th write succeeds, \<open>reply\<close> the one read of the password message,
  \<open>None\<close> when it fails.
\<close>

definition authenticate_md5 ::
    "bool \<Rightarrow> (bytes \<Rightarrow> rstr) \<Rightarrow> ((rstr \<times> rstr) list \<Rightarrow> (rstr \<times> rstr) list) \<Rightarrow> auth_settings
      \<Rightarrow> users option \<Rightarrow> bytes \<Rightarrow> (nat \<Rightarrow> bool) \<Rightarrow> bytes option \<Rightarrow> startup_message \<Rightarrow> rstr
      \<Rightarrow> ((auth_failure + auth_handshake_result) \<times> bytes) run" where
  "authenticate_md5 oc md5_hex iter cfg file_auth salt write_ok reply startup username =
     (case file_auth of
        None \<Rightarrow> Ret (Inl NoAuthFile, [])
      | Some users \<Rightarrow>
          if \<not> has_user users username then send_auth_error oc (write_ok 0) [] (NotInAuthFile username)
          else if \<not> write_ok 0 then Ret (Inl SendFailed, [])
          else
            (let out = build_auth_md5_password salt
             in case reply of
                  None \<Rightarrow> Ret (Inl PasswordUnread, out)
                | Some buf \<Rightarrow>
                    run_bind (parse_password_message oc buf) (\<lambda>parsed.
                      case parsed of
                        None \<Rightarrow> Ret (Inl InvalidPasswordMessage, out)
                      | Some client_password \<Rightarrow>
                          (case get_password users username of
                             None \<Rightarrow> Ret (Inl NoPlainPassword, out)
                           | Some stored_password \<Rightarrow>
                               if \<not> verify_md5_response md5_hex client_password stored_password username salt
                               then send_auth_error oc (write_ok 1) out (WrongPassword username)
                               else accept_client iter cfg startup username out))))"

definition authenticate ::
    "bool \<Rightarrow> (bytes \<Rightarrow> rstr) \<Rightarrow> ((rstr \<times> rstr) list \<Rightarrow> (rstr \<times> rstr) list) \<Rightarrow> auth_settings
      \<Rightarrow> users option \<Rightarrow> bytes \<Rightarrow> (nat \<Rightarrow> bool) \<Rightarrow> bytes option \<Rightarrow> bool
      \<Rightarrow> (nat \<Rightarrow> 's \<Rightarrow> (bytes \<times> 's) option) \<Rightarrow> 's \<Rightarrow> bytes
      \<Rightarrow> ((auth_failure + auth_handshake_result) \<times> bytes) run" where
  "authenticate oc md5_hex iter cfg file_auth salt write_ok reply has_cert rd s startup_data =
     (case (if startup_data = []
            then (case read_startup_message rd s of
                    Inl e \<Rightarrow> Inl (StartupReadFailed e)
                  | Inr (buf, _) \<Rightarrow> (case startup_parse buf of None \<Rightarrow> Inl StartupUnparsable | Some m \<Rightarrow> Inr m))
            else (case startup_parse startup_data of None \<Rightarrow> Inl StartupUnparsable | Some m \<Rightarrow> Inr m)) of
        Inl failure \<Rightarrow> Ret (Inl failure, [])
      | Inr startup \<Rightarrow>
          (case startup_user startup of
             None \<Rightarrow> Ret (Inl MissingUser, [])
           | Some username \<Rightarrow>
               (case auth_type cfg of
                  Trust \<Rightarrow> accept_client iter cfg startup username []
                | Md5 \<Rightarrow> authenticate_md5 oc md5_hex iter cfg file_auth salt write_ok reply startup username
                | AuthScramSha256 \<Rightarrow> Ret (Inl ScramUnsupported, [])
                | Cert \<Rightarrow>
                    if \<not> has_cert then Ret (Inl NoClientCertificate, [])
                    else accept_client iter cfg startup username [])))"

definition send_auth_ok :: "bool \<Rightarrow> (auth_failure + unit) \<times> bytes" where
  "send_auth_ok write_ok = (if write_ok then (Inr (), build_auth_ok) else (Inl SendFailed, []))"

definition requires_auth :: "auth_settings \<Rightarrow> bool" where
  "requires_auth cfg = (auth_type cfg \<noteq> Trust)"

section \<open>Parameters of a parsed startup message\<close>

text \<open>Bytes the parameters take in a startup message, the final NUL apart.\<close>

definition params_size :: "(rstr \<times> rstr) list \<Rightarrow> nat" where
  "params_size ps = sum_list (map (\<lambda>(k, v). blen k + blen v + 2) ps)"

lemma length_params_bytes: "length (params_bytes ps) = params_size ps + 1"
  by (induction ps) (auto simp: params_bytes_def params_size_def)

lemma params_size_update: "params_size (AList.update k v ps) \<le> params_size ps + blen k + blen v + 2"
  by (induction ps) (auto simp: params_size_def)

lemma startup_text_update:
  "startup_text ps \<Longrightarrow> k \<noteq> [] \<Longrightarrow> c_text k \<Longrightarrow> c_text v \<Longrightarrow> startup_text (AList.update k v ps)"
  by (induction ps) (auto simp: startup_text_def)

lemma from_utf8_lossy_Nil [simp]: "from_utf8_lossy [] = []"
  by (rule from_utf8_lossy_valid) simp

lemma blen_lossy: "blen (from_utf8_lossy bs) \<le> 3 * length bs"
proof (induction bs rule: from_utf8_lossy.induct)
  case (1 bs)
  show ?case
  proof (cases "bs = []")
    case False
    show ?thesis
    proof (cases "utf8_next bs")
      case None
      have "utf8_bad_len bs \<ge> 1" by (simp add: Suc_leI)
      moreover have "length bs \<ge> 1" using False by (cases bs) auto
      ultimately show ?thesis
        using False None 1 by (subst from_utf8_lossy.simps) (auto simp: blen_def len_utf8_def)
    next
      case (Some cr)
      then obtain c r where cr: "utf8_next bs = Some (c, r)" by (cases cr) auto
      have "bs = utf8_enc c @ r" using utf8_next_sound [OF cr] by simp
      then have "length bs = len_utf8 c + length r" by (simp add: length_utf8_enc)
      moreover have "blen (from_utf8_lossy r) \<le> 3 * length r" using 1(2) [OF False cr] by simp
      ultimately show ?thesis using False cr by (subst from_utf8_lossy.simps) (simp add: blen_def)
    qed
  qed (simp add: blen_def)
qed

lemma c_text_lossy: "0 \<notin> set bs \<Longrightarrow> c_text (from_utf8_lossy bs)"
proof (induction bs rule: from_utf8_lossy.induct)
  case (1 bs)
  show ?case
  proof (cases "bs = []")
    case False
    show ?thesis
    proof (cases "utf8_next bs")
      case None
      have "0 \<notin> set (drop (utf8_bad_len bs) bs)" using 1(3) by (meson in_set_dropD)
      then have "c_text (from_utf8_lossy (drop (utf8_bad_len bs) bs))" using 1(1) False None by simp
      then show ?thesis
        using False None by (subst from_utf8_lossy.simps) (simp add: c_text_def scalar_def)
    next
      case (Some cr)
      then obtain c r where cr: "utf8_next bs = Some (c, r)" by (cases cr) auto
      have bs: "scalar c" "bs = utf8_enc c @ r" using utf8_next_sound [OF cr] by simp_all
      have "utf8_enc 0 = [0]" by (simp add: utf8_enc_def byte_of_def)
      then have "c \<noteq> 0" using 1(3) bs(2) by (cases "c = 0") auto
      moreover have "c_text (from_utf8_lossy r)" using 1(2) [OF False cr] 1(3) bs(2) by simp
      ultimately show ?thesis
        using False cr bs(1) by (subst from_utf8_lossy.simps) (simp add: c_text_def)
    qed
  qed (simp add: c_text_def)
qed

lemma set_span_scan: "0 \<notin> set (span data a (scan_nul data stop a))"
proof -
  let ?w = "takeWhile (\<lambda>b. b \<noteq> 0) (take (stop - a) (drop a data))"
  have "span data a (scan_nul data stop a) = take (length ?w) (drop a data)"
    by (simp add: span_def scan_nul_def)
  also have "\<dots> = take (length ?w) (take (stop - a) (drop a data))"
    using length_takeWhile_le [of "\<lambda>b. b \<noteq> 0" "take (stop - a) (drop a data)"]
    by (simp add: min_absorb1)
  also have "\<dots> = ?w" by (metis takeWhile_eq_take)
  finally show ?thesis using set_takeWhileD by fastforce
qed

lemma scan_nul_le: "a \<le> stop \<Longrightarrow> scan_nul data stop a \<le> stop"
  using length_takeWhile_le [of "\<lambda>b. b \<noteq> 0" "take (stop - a) (drop a data)"]
  by (simp add: scan_nul_def) linarith

lemma length_span_le: "length (span data a b) \<le> b - a"
  by (simp add: span_def)

lemma parse_parameters_wf:
  assumes "startup_text ps" and "distinct (map fst ps)" and "params_size ps \<le> 3 * offset"
    and "offset \<le> len + 1"
  shows "startup_text (parse_parameters data len offset ps)
    \<and> distinct (map fst (parse_parameters data len offset ps))
    \<and> params_size (parse_parameters data len offset ps) \<le> 3 * (len + 1)"
  using assms
proof (induction data len offset ps rule: parse_parameters.induct)
  case (1 data len offset ps)
  define ke where "ke = scan_nul data len offset"
  define k where "k = from_utf8_lossy (span data offset ke)"
  define ve where "ve = scan_nul data len (ke + 1)"
  define v where "v = from_utf8_lossy (span data (ke + 1) ve)"
  have stop: ?case if "parse_parameters data len offset ps = ps" using 1(2-5) that by auto
  show ?case
  proof (cases "offset < len \<and> ke < len \<and> k \<noteq> []")
    case False
    then show ?thesis
      by (intro stop, subst parse_parameters.simps) (auto simp: Let_def ke_def k_def)
  next
    case True
    have step: "parse_parameters data len offset ps
        = parse_parameters data len (ve + 1) (AList.update k v ps)"
      by (rule parse_parameters_one) (use True in \<open>auto simp: ke_def k_def ve_def v_def\<close>)
    have "c_text k" "c_text v"
      unfolding k_def ke_def v_def ve_def by (intro c_text_lossy set_span_scan)+
    moreover have "ve \<le> len" unfolding ve_def by (rule scan_nul_le) (use True in simp)
    moreover have "offset \<le> ke" "ke + 1 \<le> ve" by (simp_all add: ke_def ve_def scan_nul_def)
    moreover have "blen k \<le> 3 * (ke - offset)" "blen v \<le> 3 * (ve - (ke + 1))"
      unfolding k_def v_def by (meson blen_lossy length_span_le mult_le_mono2 order_trans)+
    moreover have "params_size (AList.update k v ps) \<le> params_size ps + blen k + blen v + 2"
      by (rule params_size_update)
    ultimately show ?thesis
      unfolding step using True 1(2-5)
      by (intro 1(1) [OF _ ke_def _ k_def refl _ ve_def, folded v_def])
         (auto intro: startup_text_update distinct_update)
  qed
qed

lemma startup_parse_wf:
  assumes "startup_parse data = Some m"
  shows "startup_text (parameters m)" and "distinct (map fst (parameters m))"
    and "params_size (parameters m) \<le> 3 * (length data + 1)"
proof -
  let ?len = "as_usize (i32_from_be (data ! 0) (data ! 1) (data ! 2) (data ! 3))"
  have len: "?len \<le> length data" and ps: "parameters m = parse_parameters data ?len 8 []"
    using assms by (auto simp: startup_parse_def Let_def split: if_splits)
  have "startup_text (parameters m) \<and> distinct (map fst (parameters m))
      \<and> params_size (parameters m) \<le> 3 * (?len + 1)"
  proof (cases "8 \<le> ?len")
    case True
    then show ?thesis
      unfolding ps using parse_parameters_wf [of "[]" 8 ?len data]
      by (simp add: startup_text_def params_size_def)
  next
    case False
    then show ?thesis
      unfolding ps by (subst (1 2 3) parse_parameters.simps) (simp add: startup_text_def params_size_def)
  qed
  then show "startup_text (parameters m)" "distinct (map fst (parameters m))"
    "params_size (parameters m) \<le> 3 * (length data + 1)"
    using len by auto
qed

section \<open>The message sent to the backend\<close>

lemma map_of_same_set:
  "set xs = set ys \<Longrightarrow> distinct (map fst xs) \<Longrightarrow> distinct (map fst ys) \<Longrightarrow> map_of xs = map_of ys"
proof (rule ext)
  fix k
  assume a: "set xs = set ys" "distinct (map fst xs)" "distinct (map fst ys)"
  show "map_of xs k = map_of ys k"
  proof (cases "map_of xs k")
    case None
    then have "map_of ys k = None" using a(1) unfolding map_of_eq_None_iff by simp
    then show ?thesis using None by simp
  next
    case (Some v)
    then have "(k, v) \<in> set ys" using a(1) map_of_SomeD [of xs k v] by simp
    then show ?thesis using Some a(3) by simp
  qed
qed

lemma map_of_filter_key: "map_of (filter (\<lambda>(k, v). P k) xs) k = (if P k then map_of xs k else None)"
  by (induction xs) auto

lemma backend_startup_parses:
  assumes "startup_text ps" and "distinct (map fst ps)" and "mset (iter ps) = mset ps"
    and "ps = parameters client"
    and "c_text (backend_user cfg)" and "c_text (backend_database cfg)"
    and "params_size ps + blen (backend_user cfg) + blen (backend_database cfg) + 100 < 2 ^ 31"
  shows "\<exists>bs m. build_backend_startup iter cfg client = Ret bs \<and> startup_parse bs = Some m
    \<and> startup_user m = Some (backend_user cfg) \<and> startup_database m = Some (backend_database cfg)
    \<and> (\<forall>k. k \<noteq> lit ''user'' \<and> k \<noteq> lit ''database'' \<longrightarrow> map_of (parameters m) k = map_of ps k)"
proof -
  let ?f = "\<lambda>(k, v :: rstr). k \<noteq> lit ''user'' \<and> k \<noteq> lit ''database''"
  define extra where "extra = filter ?f (iter ps)"
  define kvs where "kvs = startup_params (backend_user cfg) (backend_database cfg) extra"
  have set: "set (iter ps) = set ps" using assms(3) by (metis mset_eq_setD)
  have "mset (map fst (iter ps)) = mset (map fst ps)" using assms(3) by simp
  then have fst: "distinct (map fst (iter ps))" using assms(2) mset_eq_imp_distinct_iff by blast
  then have d: "distinct (map fst extra)" unfolding extra_def by (rule distinct_map_filter)
  have "startup_text (iter ps)" using assms(1) set by (simp add: startup_text_def list_all_iff)
  then have t: "startup_text kvs"
    using assms(5, 6)
    by (auto simp: kvs_def extra_def startup_text_def startup_params_def list_all_iff lit_def c_text_def scalar_def)
  have "params_size extra \<le> params_size (iter ps)"
    unfolding params_size_def extra_def by (rule sum_list_filter_le_nat)
  also have "params_size (iter ps) = params_size ps"
    using assms(3) unfolding params_size_def by (simp flip: sum_mset_sum_list)
  finally have small: "8 + length (params_bytes kvs) < 2 ^ 31"
    using assms(7) by (simp add: kvs_def length_params_bytes params_size_def startup_params_def lit_def blen_def
        len_utf8_def)
  let ?m = "\<lparr>protocol_version = PROTOCOL_VERSION_3, parameters = put_all kvs []\<rparr>"
  have b: "build_backend_startup iter cfg client
      = Ret (be32 (int (8 + length (params_bytes kvs))) @ be32 PROTOCOL_VERSION_3 @ params_bytes kvs)"
    unfolding build_backend_startup_def assms(4) [symmetric] extra_def [symmetric] kvs_def
    by (rule startup_build_small [OF small [unfolded kvs_def]])
  have p: "startup_parse (be32 (int (8 + length (params_bytes kvs))) @ be32 PROTOCOL_VERSION_3
      @ params_bytes kvs) = Some ?m" by (rule startup_parse_built [OF t small])
  have ne: "lit ''user'' \<noteq> lit ''database''" by (simp add: lit_def)
  have "distinct (map fst kvs)" using d ne by (auto simp: kvs_def extra_def startup_params_def)
  then have "map_of (rev kvs) = map_of kvs" by (intro map_of_same_set) (simp_all flip: rev_map)
  then have look: "map_of (put_all kvs []) = map_of kvs" using map_of_put_all [of kvs "[]"] by simp
  have it: "map_of (iter ps) = map_of ps"
    using set fst assms(2) by (rule map_of_same_set)
  have ex: "map_of extra k = map_of ps k" if "k \<noteq> lit ''user''" "k \<noteq> lit ''database''" for k
    using that it by (simp add: extra_def map_of_filter_key)
  have "startup_user ?m = Some (backend_user cfg)" "startup_database ?m = Some (backend_database cfg)"
    using look ne by (simp_all add: startup_user_def startup_database_def kvs_def startup_params_def)
  moreover have "map_of (parameters ?m) k = map_of ps k"
    if "k \<noteq> lit ''user''" "k \<noteq> lit ''database''" for k
    using look ex [OF that] that by (simp add: kvs_def startup_params_def)
  ultimately show ?thesis using b p by (intro exI [of _ ?m] exI conjI) auto
qed

section \<open>User lists as text\<close>

text \<open>One line of a user list, and the names and passwords such a line can carry.\<close>

definition userlist_line :: "rstr \<times> rstr \<Rightarrow> rstr" where
  "userlist_line e = (case e of (u, p) \<Rightarrow> [34] @ u @ [34, 32, 34] @ p @ [34])"

definition userlist :: "(rstr \<times> rstr) list \<Rightarrow> rstr" where
  "userlist es = concat (map (\<lambda>e. userlist_line e @ [10]) es)"

definition quotable :: "rstr \<Rightarrow> bool" where
  "quotable s = (34 \<notin> set s \<and> 10 \<notin> set s)"

lemma parse_line_quoted:
  "34 \<notin> set s \<Longrightarrow> parse_line_from True parts current (s @ 34 # rest)
   = parse_line_from False (parts @ [current @ s]) [] rest"
  by (induction s arbitrary: current) auto

lemma parse_userlist_line:
  "34 \<notin> set u \<Longrightarrow> 34 \<notin> set p \<Longrightarrow> parse_line (userlist_line (u, p)) = Some (u, p)"
  by (simp add: parse_line_def userlist_line_def parse_line_quoted)

lemma trim_userlist_line: "trim (userlist_line e) = userlist_line e"
  by (cases e) (simp add: userlist_line_def trim_def trim_start_def is_whitespace_def)

lemma split_userlist:
  "list_all (\<lambda>(u, p). quotable u \<and> quotable p) es \<Longrightarrow>
   split_char 10 (userlist es) = map userlist_line es @ [[]]"
proof (induction es)
  case (Cons e es)
  have "10 \<notin> set (userlist_line e)" using Cons.prems by (cases e) (auto simp: userlist_line_def quotable_def)
  then show ?case
    using Cons split_char_append [of 10 "userlist_line e" "userlist es"]
    by (simp add: userlist_def split_char_notin)
qed (simp add: userlist_def)

lemma lines_of_userlist:
  assumes "list_all (\<lambda>(u, p). quotable u \<and> quotable p) es"
  shows "lines_of (userlist es) = map userlist_line es"
proof -
  have "strip_cr (userlist_line e) = userlist_line e" for e
    by (cases e) (simp add: strip_cr_def userlist_line_def)
  then show ?thesis by (simp add: lines_of_def split_userlist [OF assms] Let_def)
qed

lemma load_userlist:
  "list_all (\<lambda>(u, p). quotable u \<and> quotable p) es \<Longrightarrow>
   load_lines n (map userlist_line es) users =
     Inr (put_all (map (\<lambda>(u, p). (u, password_entry_of p)) es) users)"
proof (induction es arbitrary: n users)
  case (Cons e es)
  obtain u p where e: "e = (u, p)" by (cases e)
  have "\<not> starts_with (userlist_line e) (lit '';'')" "\<not> starts_with (userlist_line e) (lit ''#'')"
    "userlist_line e \<noteq> []"
    by (simp_all add: e userlist_line_def starts_with_def lit_def)
  then show ?case
    using Cons e by (simp add: trim_userlist_line parse_userlist_line quotable_def put_all_def)
qed (simp add: put_all_def)

lemma accept_client_user:
  "accept_client iter cfg m u out = Ret (Inr r, out') \<Longrightarrow> hs_username r = u \<and> hs_startup r = m"
  by (auto simp: accept_client_def run_map_def run_bind_Ret_iff)

lemma send_auth_error_fails: "send_auth_error oc w out f \<noteq> Ret (Inr r, out')"
  by (auto simp: send_auth_error_def run_map_def run_bind_Ret_iff split: if_splits)

lemma authenticate_md5_sound:
  assumes "authenticate_md5 oc md5_hex iter cfg file_auth salt write_ok reply m u = Ret (Inr r, out)"
  obtains users p buf where "file_auth = Some users" and "map_of users u = Some (Plain p)"
    and "reply = Some buf"
    and "parse_password_message oc buf = Ret (Some (compute_md5_response md5_hex p u salt))"
    and "accept_client iter cfg m u (build_auth_md5_password salt) = Ret (Inr r, out)"
  using assms
  by (auto simp: authenticate_md5_def get_password_def verify_md5_response_def send_auth_error_fails
      run_bind_Ret_iff Let_def split: option.splits if_splits password_entry.splits)

lemma read_startup_length:
  assumes "reads_exactly rd content" and "read_startup_message rd s = Inr (buf, s')"
  shows "length buf \<le> MAX_STARTUP_MESSAGE_SIZE"
proof -
  obtain hdr s1 body n where r: "rd 4 s = Some (hdr, s1)" "rd (n - 4) s1 = Some (body, s')"
    "buf = hdr @ body" "8 \<le> n" "n \<le> MAX_STARTUP_MESSAGE_SIZE"
    using assms(2) by (auto simp: read_startup_message_def MIN_STARTUP_MESSAGE_SIZE_def Let_def
        split: option.splits if_splits)
  have "length got \<le> k" if "rd k t = Some (got, t')" for k t got t'
  proof (cases "length (content t) < k")
    case True
    then show ?thesis using assms(1) that unfolding reads_exactly_def by (metis option.distinct(1))
  next
    case False
    then obtain t2 where "rd k t = Some (take k (content t), t2)"
      using reads_exactlyD [OF assms(1), of k t] by auto
    then show ?thesis using that by simp
  qed
  from this [OF r(1)] this [OF r(2)] r(3-5) show ?thesis by simp
qed

text \<open>A successful handshake accepts a parsed startup message and sends its own to the backend.\<close>

lemma authenticate_accepts:
  assumes "authenticate oc md5_hex iter cfg file_auth salt write_ok reply has_cert rd s startup_data
      = Ret (Inr r, out)"
    and "reads_exactly rd content" and "length startup_data \<le> MAX_STARTUP_MESSAGE_SIZE"
  obtains buf where "length buf \<le> MAX_STARTUP_MESSAGE_SIZE" and "startup_parse buf = Some (hs_startup r)"
    and "build_backend_startup iter cfg (hs_startup r) = Ret (hs_startup_bytes r)"
proof -
  have acc: "m = hs_startup r \<and> build_backend_startup iter cfg m = Ret (hs_startup_bytes r)"
    if "accept_client iter cfg m u o1 = Ret (Inr r, o2)" for m u o1 o2
    using that by (auto simp: accept_client_def run_map_def run_bind_Ret_iff)
  obtain m u buf where m: "startup_parse buf = Some m" "length buf \<le> MAX_STARTUP_MESSAGE_SIZE"
    and a: "(case auth_type cfg of
        Trust \<Rightarrow> accept_client iter cfg m u []
      | Md5 \<Rightarrow> authenticate_md5 oc md5_hex iter cfg file_auth salt write_ok reply m u
      | AuthScramSha256 \<Rightarrow> Ret (Inl ScramUnsupported, [])
      | Cert \<Rightarrow> if \<not> has_cert then Ret (Inl NoClientCertificate, []) else accept_client iter cfg m u [])
      = Ret (Inr r, out)"
    using assms(1, 3) read_startup_length [OF assms(2)] unfolding authenticate_def
    by (auto split: sum.splits option.splits if_splits)
  have "\<exists>o1. accept_client iter cfg m u o1 = Ret (Inr r, out)"
    using a by (cases "auth_type cfg") (auto elim: authenticate_md5_sound split: if_splits)
  then show thesis using that m acc by blast
qed

text \<open>A concrete successful MD5 handshake, with a constant digest.\<close>

definition example_settings :: auth_settings where
  "example_settings = \<lparr>auth_type = Md5, backend_user = lit ''b'', backend_database = lit ''d''\<rparr>"

definition example_startup :: bytes where
  "example_startup = be32 27 @ be32 PROTOCOL_VERSION_3 @ params_bytes (startup_params (lit ''u'') (lit ''d'') [])"

definition example_reply :: bytes where
  "example_reply = frame 112 (as_bytes (lit ''md50'') @ [0])"

lemma example_startup_parse:
  "startup_parse example_startup =
     Some \<lparr>protocol_version = PROTOCOL_VERSION_3, parameters = [(lit ''user'', lit ''u''), (lit ''database'', lit ''d'')]\<rparr>"
proof -
  let ?kvs = "startup_params (lit ''u'') (lit ''d'') []"
  have n: "length (params_bytes ?kvs) = 19"
    by (simp add: params_bytes_def startup_params_def lit_def blen_def len_utf8_def)
  have t: "startup_text ?kvs" by (simp add: startup_text_def startup_params_def lit_def c_text_def scalar_def)
  have "put_all ?kvs [] = [(lit ''user'', lit ''u''), (lit ''database'', lit ''d'')]"
    by (simp add: put_all_def startup_params_def lit_def)
  then show ?thesis using startup_parse_built [OF t] n by (simp add: example_startup_def)
qed

lemma example_reply_parse: "parse_password_message oc example_reply = Ret (Some (lit ''md50''))"
proof -
  have "list_all scalar (lit ''md50'')" "5 + blen (lit ''md50'') < 2 ^ 31"
    by (simp_all add: lit_def scalar_def blen_def len_utf8_def)
  moreover have "build_password_message oc (lit ''md50'') = Ret example_reply"
    unfolding build_password_message_def example_reply_def
    by (rule built_frame) (simp add: length_utf8_enc lit_def len_utf8_def)
  ultimately show ?thesis using password_roundtrip [of "lit ''md50''" oc] by simp
qed

lemma example_handshake:
  "\<exists>r out. authenticate True (\<lambda>_. lit ''0'') id example_settings (Some [(lit ''u'', Plain (lit ''p''))])
     [1, 2, 3, 4] (\<lambda>_. True) (Some example_reply) False read_segments [] example_startup = Ret (Inr r, out)"
proof -
  let ?m = "\<lparr>protocol_version = PROTOCOL_VERSION_3,
      parameters = [(lit ''user'', lit ''u''), (lit ''database'', lit ''d'')]\<rparr>"
  have "example_startup \<noteq> []" by (simp add: example_startup_def be32_def Let_def)
  moreover have "startup_user ?m = Some (lit ''u'')" by (simp add: startup_user_def)
  moreover have "compute_md5_response (\<lambda>_. lit ''0'') (lit ''p'') (lit ''u'') [1, 2, 3, 4] = lit ''md50''"
    by (simp add: compute_md5_response_def lit_def)
  moreover obtain bs where "build_backend_startup id example_settings ?m = Ret bs"
    using backend_startup_parses [of "parameters ?m" id ?m example_settings]
    by (auto simp: example_settings_def startup_text_def params_size_def lit_def c_text_def scalar_def blen_def
        len_utf8_def)
  ultimately show ?thesis
    by (simp add: authenticate_def example_startup_parse authenticate_md5_def example_reply_parse has_user_def
        get_password_def verify_md5_response_def accept_client_def example_settings_def)
qed

section \<open>Properties of client authentication\<close>

text \<open>
  C11.  With an SSL mode that requires encryption a client is never served in plaintext: the
  negotiation returns, and its result is an upgraded connection, for which TLS is configured and the
  only byte sent in the clear is the acceptance, or a refusal with at most a FATAL 28000
  ErrorResponse sent, or an error.
\<close>

theorem tls_required_no_plaintext:
  assumes "requires_encryption sslmode"
  shows "\<exists>r out. handle_ssl_startup oc rd write_ok accept_ok sslmode has_tls s = Ret (r, out)
    \<and> (case r of
         Inl _ \<Rightarrow> length out \<le> 1
       | Inr (Upgraded _) \<Rightarrow> has_tls \<and> out = [SSL_RESPONSE_YES]
       | Inr Rejected \<Rightarrow> out = [] \<or> (\<exists>f. find_error_fields oc out = Ret (Some f)
           \<and> severity f = Some (lit ''FATAL'') \<and> sqlstate f = Some (lit ''28000''))
       | Inr _ \<Rightarrow> False)"
proof (cases "read_startup_message rd s")
  case (Inr bs)
  obtain buf s1 where bs: "bs = (buf, s1)" by (cases bs)
  let ?msg = "lit ''SSL connection is required by this server''"
  have small: "blen (lit ''FATAL'') + blen (lit ''28000'') + blen ?msg < 2 ^ 30"
    by (simp add: lit_def blen_def len_utf8_def)
  have b: "build_error_response oc (lit ''FATAL'') (lit ''28000'') ?msg
      = Ret (frame MSG_ERROR_RESPONSE (error_body (lit ''FATAL'') (lit ''28000'') ?msg))"
    by (rule build_error_response_frame [OF small])
  have "find_error_fields oc (frame MSG_ERROR_RESPONSE (error_body (lit ''FATAL'') (lit ''28000'') ?msg))
      = Ret (Some (set_field 77 ?msg (set_field 67 (lit ''28000'') (set_field 83 (lit ''FATAL'') no_fields))))"
    using error_body_found [OF _ _ _ small, of oc "[]"] by (simp add: c_text_def lit_def scalar_def)
  then have "\<exists>f. find_error_fields oc (frame MSG_ERROR_RESPONSE (error_body (lit ''FATAL'') (lit ''28000'') ?msg))
        = Ret (Some f) \<and> severity f = Some (lit ''FATAL'') \<and> sqlstate f = Some (lit ''28000'')"
    by (simp add: set_field_def)
  then show ?thesis
    using assms Inr bs b by (auto simp: handle_ssl_startup_def requires_encryption_def)
qed (auto simp: handle_ssl_startup_def)

theorem tls_required_no_plaintext_witness:
  "requires_encryption Require \<and>
   (\<exists>r out. handle_ssl_startup True read_segments True True Require True [be32 8, be32 80877103] = Ret (r, out)
    \<and> (case r of
         Inl _ \<Rightarrow> length out \<le> 1
       | Inr (Upgraded _) \<Rightarrow> True \<and> out = [SSL_RESPONSE_YES]
       | Inr Rejected \<Rightarrow> out = [] \<or> (\<exists>f. find_error_fields True out = Ret (Some f)
           \<and> severity f = Some (lit ''FATAL'') \<and> sqlstate f = Some (lit ''28000''))
       | Inr _ \<Rightarrow> False))"
proof -
  have r: "requires_encryption Require" by (simp add: requires_encryption_def)
  show ?thesis
    using r tls_required_no_plaintext [OF r, of True read_segments True True True "[be32 8, be32 80877103]"]
    by blast
qed

lemma authenticate_sound:
  assumes "authenticate oc md5_hex iter cfg file_auth salt write_ok reply has_cert rd s startup_data
      = Ret (Inr r, out)"
  shows "startup_user (hs_startup r) = Some (hs_username r)
    \<and> (case auth_type cfg of
         Trust \<Rightarrow> True
       | Md5 \<Rightarrow> (\<exists>users p buf. file_auth = Some users \<and> map_of users (hs_username r) = Some (Plain p)
           \<and> reply = Some buf \<and> parse_password_message oc buf
               = Ret (Some (compute_md5_response md5_hex p (hs_username r) salt)))
       | AuthScramSha256 \<Rightarrow> False
       | Cert \<Rightarrow> has_cert)"
proof -
  obtain m u where u: "startup_user m = Some u"
    and a: "(case auth_type cfg of
        Trust \<Rightarrow> accept_client iter cfg m u []
      | Md5 \<Rightarrow> authenticate_md5 oc md5_hex iter cfg file_auth salt write_ok reply m u
      | AuthScramSha256 \<Rightarrow> Ret (Inl ScramUnsupported, [])
      | Cert \<Rightarrow> if \<not> has_cert then Ret (Inl NoClientCertificate, []) else accept_client iter cfg m u [])
      = Ret (Inr r, out)"
    using assms unfolding authenticate_def by (auto split: sum.splits option.splits)
  show ?thesis
  proof (cases "auth_type cfg")
    case Md5
    then have "authenticate_md5 oc md5_hex iter cfg file_auth salt write_ok reply m u = Ret (Inr r, out)"
      using a by simp
    then show ?thesis
      by (rule authenticate_md5_sound) (use Md5 u accept_client_user in fastforce)
  qed (use a u accept_client_user in \<open>fastforce split: if_splits\<close>)+
qed

text \<open>
  C7.  A handshake succeeds only for a client that proved what the configured method asks for: under
  MD5 it is in the user list with a plain password and sent the salted digest of that password and
  its name, under certificate authentication a verified certificate was presented, and SCRAM is never
  accepted.
\<close>

theorem authentication_sound:
  assumes "authenticate oc md5_hex iter cfg file_auth salt write_ok reply has_cert rd s startup_data
      = Ret (Inr r, out)"
  shows "startup_user (hs_startup r) = Some (hs_username r)
    \<and> (case auth_type cfg of
         Trust \<Rightarrow> True
       | Md5 \<Rightarrow> (\<exists>users p buf. file_auth = Some users \<and> map_of users (hs_username r) = Some (Plain p)
           \<and> reply = Some buf \<and> parse_password_message oc buf
               = Ret (Some (compute_md5_response md5_hex p (hs_username r) salt)))
       | AuthScramSha256 \<Rightarrow> False
       | Cert \<Rightarrow> has_cert)"
  by (rule authenticate_sound [OF assms])

theorem authentication_sound_witness:
  "\<exists>r out. authenticate True (\<lambda>_. lit ''0'') id example_settings (Some [(lit ''u'', Plain (lit ''p''))])
      [1, 2, 3, 4] (\<lambda>_. True) (Some example_reply) False read_segments [] example_startup = Ret (Inr r, out)
    \<and> startup_user (hs_startup r) = Some (hs_username r)
    \<and> (\<exists>users p buf. Some [(lit ''u'', Plain (lit ''p''))] = Some users
         \<and> map_of users (hs_username r) = Some (Plain p) \<and> Some example_reply = Some buf
         \<and> parse_password_message True buf
             = Ret (Some (compute_md5_response (\<lambda>_. lit ''0'') p (hs_username r) [1, 2, 3, 4])))"
proof -
  obtain r out where r: "authenticate True (\<lambda>_. lit ''0'') id example_settings
      (Some [(lit ''u'', Plain (lit ''p''))]) [1, 2, 3, 4] (\<lambda>_. True) (Some example_reply) False read_segments []
      example_startup = Ret (Inr r, out)" using example_handshake by blast
  moreover have "auth_type example_settings = Md5" by (simp add: example_settings_def)
  ultimately show ?thesis using authentication_sound [OF r] by auto
qed

text \<open>
  Whatever parameters a client sends, the startup message for the backend parses to the
  configured backend user and database, and to the client's own values for every other parameter, in
  whatever order the parameter map is traversed.
\<close>

lemma backend_identity_fixed:
  assumes "authenticate oc md5_hex iter cfg file_auth salt write_ok reply has_cert rd s startup_data
      = Ret (Inr r, out)"
    and "reads_exactly rd content" and "length startup_data \<le> MAX_STARTUP_MESSAGE_SIZE"
    and "\<And>ps. mset (iter ps) = mset ps"
    and "c_text (backend_user cfg)" and "c_text (backend_database cfg)"
    and "blen (backend_user cfg) + blen (backend_database cfg) \<le> 2 ^ 20"
  shows "\<exists>m. startup_parse (hs_startup_bytes r) = Some m
    \<and> startup_user m = Some (backend_user cfg) \<and> startup_database m = Some (backend_database cfg)
    \<and> (\<forall>k. k \<noteq> lit ''user'' \<and> k \<noteq> lit ''database'' \<longrightarrow>
          map_of (parameters m) k = map_of (parameters (hs_startup r)) k)"
proof (rule authenticate_accepts [OF assms(1-3)])
  fix buf
  assume buf: "length buf \<le> MAX_STARTUP_MESSAGE_SIZE" "startup_parse buf = Some (hs_startup r)"
    and b: "build_backend_startup iter cfg (hs_startup r) = Ret (hs_startup_bytes r)"
  have "params_size (parameters (hs_startup r)) + blen (backend_user cfg) + blen (backend_database cfg) + 100
      < 2 ^ 31"
    using startup_parse_wf(3) [OF buf(2)] buf(1) assms(7) by (simp add: MAX_STARTUP_MESSAGE_SIZE_def)
  from backend_startup_parses [where iter = iter and client = "hs_startup r",
      OF startup_parse_wf(1, 2) [OF buf(2)] assms(4) refl assms(5, 6) this]
  show ?thesis using b by auto
qed

text \<open>
  A user list written one quoted name and password per line loads to exactly those users, the
  last entry of a repeated name winning, each password classified by its form.
\<close>

lemma userlist_roundtrip:
  assumes "list_all (\<lambda>(u, p). quotable u \<and> quotable p) es"
  shows "\<exists>users. from_string (userlist es) = Inr users
    \<and> map_of users = map_of (rev (map (\<lambda>(u, p). (u, password_entry_of p)) es))"
  by (simp add: from_string_def lines_of_userlist [OF assms] load_userlist [OF assms] map_of_put_all)

end
