(* ===== verification/Backend_Auth.thy ===== *)
theory Backend_Auth
  imports Auth_Messages
begin

text \<open>
  How the proxy logs in to the backend: the SCRAM-SHA-256 client of \<open>auth/scram.rs\<close> and the
  authentication loop of \<open>auth/backend.rs\<close>.  The cryptographic primitives and base64 are a record of
  functions; the backend is the list of what successive reads return.
\<close>

section \<open>The SCRAM client\<close>

record crypto =
  hmac_sha256 :: "bytes \<Rightarrow> bytes \<Rightarrow> bytes"
  sha256 :: "bytes \<Rightarrow> bytes"
  pbkdf2_hmac :: "bytes \<Rightarrow> bytes \<Rightarrow> nat \<Rightarrow> bytes"
  base64_encode :: "bytes \<Rightarrow> rstr"
  base64_decode :: "rstr \<Rightarrow> bytes option"

record scram_client =
  scram_username :: rstr
  scram_password :: rstr
  client_nonce :: rstr
  client_first_bare :: rstr
  server_first :: rstr
  salted_password :: "bytes option"

datatype scram_error = InvalidServerMessage | MissingNonce | MissingSalt | MissingIterations | InvalidNonce
  | InvalidSalt | NotInitialized | InvalidServerSignature | ServerSignatureMismatch

text \<open>The nonce is drawn at random and base64 encoded; it is an argument.\<close>

definition new_scram_client :: "rstr \<Rightarrow> rstr \<Rightarrow> rstr \<Rightarrow> scram_client" where
  "new_scram_client nonce username password =
     \<lparr>scram_username = username, scram_password = password, client_nonce = nonce, client_first_bare = [],
      server_first = [], salted_password = None\<rparr>"

definition client_first :: "scram_client \<Rightarrow> bytes \<times> scram_client" where
  "client_first c =
     (let bare = lit ''n='' @ scram_username c @ lit '',r='' @ client_nonce c
      in (as_bytes (lit ''n,,'' @ bare), c\<lparr>client_first_bare := bare\<rparr>))"

record server_parts =
  part_nonce :: "rstr option"
  part_salt :: "rstr option"
  part_iterations :: "nat option"

definition take_part :: "server_parts \<Rightarrow> rstr \<Rightarrow> server_parts" where
  "take_part ps part =
     (case strip_prefix part (lit ''r='') of
        Some value \<Rightarrow> ps\<lparr>part_nonce := Some value\<rparr>
      | None \<Rightarrow>
          (case strip_prefix part (lit ''s='') of
             Some value \<Rightarrow> ps\<lparr>part_salt := Some value\<rparr>
           | None \<Rightarrow>
               (case strip_prefix part (lit ''i='') of
                  Some value \<Rightarrow> ps\<lparr>part_iterations := parse_u32 value\<rparr>
                | None \<Rightarrow> ps)))"

definition server_first_parts :: "rstr \<Rightarrow> server_parts" where
  "server_first_parts s =
     foldl take_part \<lparr>part_nonce = None, part_salt = None, part_iterations = None\<rparr> (split_char 44 s)"

definition xor_bytes :: "bytes \<Rightarrow> bytes \<Rightarrow> bytes" where
  "xor_bytes a b = map2 xor a b"

definition final_without_proof :: "rstr \<Rightarrow> rstr" where
  "final_without_proof server_nonce = lit ''c=biws,r='' @ server_nonce"

definition auth_message :: "scram_client \<Rightarrow> rstr \<Rightarrow> rstr" where
  "auth_message c server_nonce =
     client_first_bare c @ lit '','' @ server_first c @ lit '','' @ final_without_proof server_nonce"

definition client_final :: "crypto \<Rightarrow> bytes \<Rightarrow> scram_client \<Rightarrow> (scram_error + bytes) \<times> scram_client" where
  "client_final K msg c =
     (case from_utf8 msg of
        None \<Rightarrow> (Inl InvalidServerMessage, c)
      | Some text \<Rightarrow>
          (let c1 = c\<lparr>server_first := text\<rparr>; ps = server_first_parts text
           in case part_nonce ps of
                None \<Rightarrow> (Inl MissingNonce, c1)
              | Some server_nonce \<Rightarrow>
                  (case part_salt ps of
                     None \<Rightarrow> (Inl MissingSalt, c1)
                   | Some salt_b64 \<Rightarrow>
                       (case part_iterations ps of
                          None \<Rightarrow> (Inl MissingIterations, c1)
                        | Some iterations \<Rightarrow>
                            if \<not> starts_with server_nonce (client_nonce c) then (Inl InvalidNonce, c1)
                            else
                              (case base64_decode K salt_b64 of
                                 None \<Rightarrow> (Inl InvalidSalt, c1)
                               | Some salt \<Rightarrow>
                                   (let salted = pbkdf2_hmac K (as_bytes (scram_password c)) salt iterations;
                                        c2 = c1\<lparr>salted_password := Some salted\<rparr>;
                                        client_key = hmac_sha256 K salted (as_bytes (lit ''Client Key''));
                                        stored_key = sha256 K client_key;
                                        client_signature =
                                          hmac_sha256 K stored_key (as_bytes (auth_message c2 server_nonce));
                                        client_proof = xor_bytes client_key client_signature
                                    in (Inr (as_bytes (final_without_proof server_nonce @ lit '',p=''
                                               @ base64_encode K client_proof)), c2)))))))"

definition verify_server_final :: "crypto \<Rightarrow> bytes \<Rightarrow> scram_client \<Rightarrow> scram_error + unit" where
  "verify_server_final K msg c =
     (case from_utf8 msg of
        None \<Rightarrow> Inl InvalidServerMessage
      | Some text \<Rightarrow>
          (case strip_prefix text (lit ''v='') of
             None \<Rightarrow> Inl InvalidServerSignature
           | Some sig_b64 \<Rightarrow>
               (case base64_decode K sig_b64 of
                  None \<Rightarrow> Inl InvalidServerSignature
                | Some server_sig \<Rightarrow>
                    (case salted_password c of
                       None \<Rightarrow> Inl NotInitialized
                     | Some salted \<Rightarrow>
                         (let server_key = hmac_sha256 K salted (as_bytes (lit ''Server Key''))
                          in case List.find (\<lambda>p. starts_with p (lit ''r='')) (split_char 44 (server_first c)) of
                               None \<Rightarrow> Inl MissingNonce
                             | Some p \<Rightarrow>
                                 (case strip_prefix p (lit ''r='') of
                                    None \<Rightarrow> Inl MissingNonce
                                  | Some server_nonce \<Rightarrow>
                                      if server_sig \<noteq> hmac_sha256 K server_key
                                           (as_bytes (auth_message c server_nonce))
                                      then Inl ServerSignatureMismatch
                                      else Inr ()))))))"

section \<open>The authentication loop\<close>

datatype backend_auth_error = ReadFailed | BackendClosed | SendPasswordFailed | UnsupportedMechanism "rstr list"
  | ContinueWithoutInit | FinalWithoutInit | ScramFailed scram_error

text \<open>
  \<open>Authenticated\<close> carries the bytes received after AuthenticationOk and the reads not taken yet.
  \<open>Waiting\<close>: the reads given so far do not settle the login and the loop is in its next read.
\<close>

datatype backend_auth_outcome = Authenticated bytes "bytes option list" | AuthFailed backend_auth_error | Waiting

definition try_parse_auth :: "bool \<Rightarrow> bytes \<Rightarrow> (auth_request \<times> nat) option run" where
  "try_parse_auth oc data =
     (if length data < 9 then Ret None
      else if data ! 0 \<noteq> 82 then Ret None
      else
        (let len = as_usize (i32_from_be (data ! 1) (data ! 2) (data ! 3) (data ! 4))
         in run_bind (usize_add oc 1 len) (\<lambda>total_len.
              if length data < total_len then Ret None
              else run_map (map_option (\<lambda>req. (req, total_len)))
                     (auth_request_parse oc (take total_len data)))))"

lemma auth_request_needs_nine: "length data < 9 \<Longrightarrow> auth_request_parse oc data = Ret None"
  by (simp add: auth_request_parse_def)

lemma try_parse_auth_consumed:
  assumes "try_parse_auth oc data = Ret (Some (req, n))"
  shows "9 \<le> n" and "n \<le> length data"
proof -
  obtain req' where r: "auth_request_parse oc (take n data) = Ret (Some req')" and n: "n \<le> length data"
    using assms by (auto simp: try_parse_auth_def run_map_def run_bind_Ret_iff Let_def split: if_splits)
  then show "n \<le> length data" by simp
  show "9 \<le> n"
  proof (rule ccontr)
    assume "\<not> 9 \<le> n"
    then show False using r n auth_request_needs_nine [of "take n data" oc] by simp
  qed
qed

record backend_login =
  login_user :: rstr
  login_password :: rstr

text \<open>
  What one request does: the message to send, if any, and the SCRAM client afterwards; \<open>Inl\<close> is a
  \<open>bail!\<close> or a failed \<open>?\<close>.  AuthenticationOk does not get here.
\<close>

definition answer_request ::
    "bool \<Rightarrow> crypto \<Rightarrow> (bytes \<Rightarrow> rstr) \<Rightarrow> rstr \<Rightarrow> backend_login \<Rightarrow> auth_request \<Rightarrow> scram_client option
      \<Rightarrow> (backend_auth_error + (bytes option \<times> scram_client option)) run" where
  "answer_request oc K md5_hex nonce login req scram =
     (case req of
        AuthOk \<Rightarrow> Ret (Inr (None, scram))
      | CleartextPassword \<Rightarrow>
          run_map (\<lambda>msg. Inr (Some msg, scram)) (build_password_message oc (login_password login))
      | Md5Password salt \<Rightarrow>
          run_map (\<lambda>msg. Inr (Some msg, scram))
            (build_password_message oc
               (compute_md5_response md5_hex (login_password login) (login_user login) salt))
      | Sasl mechanisms \<Rightarrow>
          if \<not> list_ex (\<lambda>m. m = lit ''SCRAM-SHA-256'') mechanisms
          then Ret (Inl (UnsupportedMechanism mechanisms))
          else
            (let (first, client) = client_first (new_scram_client nonce (login_user login) (login_password login))
             in run_map (\<lambda>msg. Inr (Some msg, Some client))
                  (build_sasl_initial_response oc (lit ''SCRAM-SHA-256'') first))
      | SaslContinue data \<Rightarrow>
          (case scram of
             None \<Rightarrow> Ret (Inl ContinueWithoutInit)
           | Some client \<Rightarrow>
               (case client_final K data client of
                  (Inl e, _) \<Rightarrow> Ret (Inl (ScramFailed e))
                | (Inr final, client') \<Rightarrow>
                    run_map (\<lambda>msg. Inr (Some msg, Some client')) (build_sasl_response oc final)))
      | SaslFinal data \<Rightarrow>
          (case scram of
             None \<Rightarrow> Ret (Inl FinalWithoutInit)
           | Some client \<Rightarrow>
               (case verify_server_final K data client of
                  Inl e \<Rightarrow> Ret (Inl (ScramFailed e))
                | Inr _ \<Rightarrow> Ret (Inr (None, scram)))))"

text \<open>
  The loop.  A read is \<open>None\<close> when it fails and empty when the backend has closed; \<open>nonces\<close> gives
  the random nonce of the \<open>k\<close>-th message sent, \<open>write_ok\<close> whether that write succeeds.  The result
  carries the messages sent.  Every request takes at least nine bytes off the pending data.
\<close>

function backend_authenticate ::
    "bool \<Rightarrow> crypto \<Rightarrow> (bytes \<Rightarrow> rstr) \<Rightarrow> (nat \<Rightarrow> rstr) \<Rightarrow> (nat \<Rightarrow> bool) \<Rightarrow> backend_login
      \<Rightarrow> bytes option list \<Rightarrow> bytes \<Rightarrow> scram_client option \<Rightarrow> bytes list
      \<Rightarrow> (backend_auth_outcome \<times> bytes list) run" where
  "backend_authenticate oc K md5_hex nonces write_ok login reads pending scram sent =
     (case (if pending = [] then Ret None else try_parse_auth oc pending) of
        Panic \<Rightarrow> Panic
      | Ret None \<Rightarrow>
          (case reads of
             [] \<Rightarrow> Ret (Waiting, sent)
           | None # _ \<Rightarrow> Ret (AuthFailed ReadFailed, sent)
           | Some chunk # reads' \<Rightarrow>
               if chunk = [] then Ret (AuthFailed BackendClosed, sent)
               else backend_authenticate oc K md5_hex nonces write_ok login reads' (pending @ chunk) scram sent)
      | Ret (Some (req, consumed)) \<Rightarrow>
          (let rest = drop consumed pending
           in if req = AuthOk then Ret (Authenticated rest reads, sent)
              else
                run_bind (answer_request oc K md5_hex (nonces (length sent)) login req scram) (\<lambda>a.
                  case a of
                    Inl e \<Rightarrow> Ret (AuthFailed e, sent)
                  | Inr (msg, scram') \<Rightarrow>
                      (case msg of
                         None \<Rightarrow> backend_authenticate oc K md5_hex nonces write_ok login reads rest scram' sent
                       | Some m \<Rightarrow>
                           if write_ok (length sent)
                           then backend_authenticate oc K md5_hex nonces write_ok login reads rest scram' (sent @ [m])
                           else Ret (AuthFailed SendPasswordFailed, sent)))))"
  by pat_completeness auto
termination
  by (relation "measures [\<lambda>(oc, K, md, no, w, l, reads, pending, s, sent). length reads,
        \<lambda>(oc, K, md, no, w, l, reads, pending, s, sent). length pending]")
     (auto split: if_splits dest: try_parse_auth_consumed)

declare backend_authenticate.simps [simp del]

section \<open>The exchange with an honest server\<close>

text \<open>
  What the code relies on in the libraries: base64 decodes what it encodes, its text has no comma,
  and an HMAC has 32 bytes.
\<close>

definition crypto_laws :: "crypto \<Rightarrow> bool" where
  "crypto_laws K =
     ((\<forall>b. base64_decode K (base64_encode K b) = Some b)
      \<and> (\<forall>b. list_all (\<lambda>c. scalar c \<and> c \<noteq> 44) (base64_encode K b))
      \<and> (\<forall>k d. length (hmac_sha256 K k d) = 32))"

definition honest_server_first :: "crypto \<Rightarrow> rstr \<Rightarrow> bytes \<Rightarrow> nat \<Rightarrow> rstr" where
  "honest_server_first K nonce salt iterations =
     lit ''r='' @ nonce @ lit '',s='' @ base64_encode K salt @ lit '',i='' @ show_nat iterations"

definition nonce_text :: "rstr \<Rightarrow> bool" where
  "nonce_text s = list_all (\<lambda>c. scalar c \<and> c \<noteq> 44) s"

lemma xor_bytes_cancel: "length a = length b \<Longrightarrow> xor_bytes (xor_bytes a b) b = a"
  by (induction a b rule: list_induct2) (simp_all add: xor_bytes_def xor.assoc)

lemma honest_split:
  assumes "crypto_laws K" and "nonce_text nonce"
  shows "split_char 44 (honest_server_first K nonce salt n) =
    [lit ''r='' @ nonce, lit ''s='' @ base64_encode K salt, lit ''i='' @ show_nat n]"
proof -
  have a: "44 \<notin> set (lit ''r='' @ nonce)" using assms(2) by (auto simp: nonce_text_def lit_def list_all_iff)
  have "44 \<notin> set (base64_encode K salt)" using assms(1) by (auto simp: crypto_laws_def list_all_iff)
  then have b: "44 \<notin> set (lit ''s='' @ base64_encode K salt)" by (simp add: lit_def)
  have "44 \<notin> set (show_nat n)" using show_nat_digits [of n] by (auto simp: list_all_iff is_digit_def)
  then have c: "44 \<notin> set (lit ''i='' @ show_nat n)" by (simp add: lit_def)
  have "honest_server_first K nonce salt n =
      (lit ''r='' @ nonce) @ 44 # ((lit ''s='' @ base64_encode K salt) @ 44 # (lit ''i='' @ show_nat n))"
    by (simp add: honest_server_first_def lit_def)
  then show ?thesis
    using split_char_notin [OF a] split_char_notin [OF b] split_char_notin [OF c]
    by (simp only: split_char_append append.simps)
qed

lemma honest_parts:
  assumes "crypto_laws K" and "nonce_text nonce" and "n < 2 ^ 32"
  shows "server_first_parts (honest_server_first K nonce salt n) =
    \<lparr>part_nonce = Some nonce, part_salt = Some (base64_encode K salt), part_iterations = Some n\<rparr>"
proof -
  have "parse_u32 (show_nat n) = Some n" using assms(3) by (intro parse_unsigned_show_nat) simp
  then show ?thesis
    by (simp add: server_first_parts_def honest_split [OF assms(1, 2)] take_part_def strip_prefix_def
        starts_with_def lit_def)
qed

lemma honest_text:
  assumes "crypto_laws K" and "nonce_text nonce"
  shows "from_utf8 (as_bytes (honest_server_first K nonce salt n)) = Some (honest_server_first K nonce salt n)"
proof (rule from_utf8_as_bytes)
  have "list_all scalar (show_nat n)"
    using show_nat_digits [of n] by (auto simp: list_all_iff is_digit_def scalar_def)
  moreover have "list_all scalar (base64_encode K salt)"
    using assms(1) by (auto simp: crypto_laws_def list_all_iff)
  ultimately show "list_all scalar (honest_server_first K nonce salt n)"
    using assms(2) by (auto simp: honest_server_first_def nonce_text_def list_all_iff lit_def scalar_def)
qed

text \<open>The messages of a server that knows the salted password, for the same nonce, salt and count.\<close>

definition exchange_text :: "crypto \<Rightarrow> rstr \<Rightarrow> rstr \<Rightarrow> rstr \<Rightarrow> bytes \<Rightarrow> nat \<Rightarrow> rstr" where
  "exchange_text K user cnonce nonce salt n =
     (lit ''n='' @ user @ lit '',r='' @ cnonce) @ lit '','' @ honest_server_first K nonce salt n @ lit '',''
       @ final_without_proof nonce"

definition server_signature :: "crypto \<Rightarrow> bytes \<Rightarrow> rstr \<Rightarrow> bytes" where
  "server_signature K salted text =
     hmac_sha256 K (hmac_sha256 K salted (as_bytes (lit ''Server Key''))) (as_bytes text)"

definition server_accepts :: "crypto \<Rightarrow> bytes \<Rightarrow> rstr \<Rightarrow> bytes \<Rightarrow> bool" where
  "server_accepts K salted text proof =
     (let stored_key = sha256 K (hmac_sha256 K salted (as_bytes (lit ''Client Key'')))
      in sha256 K (xor_bytes proof (hmac_sha256 K stored_key (as_bytes text))) = stored_key)"

lemma client_final_honest:
  assumes "crypto_laws K" and "nonce_text (cnonce @ snonce)" and "n < 2 ^ 32"
    and "c = snd (client_first (new_scram_client cnonce user pw))"
    and "salted = pbkdf2_hmac K (as_bytes pw) salt n"
    and "text = exchange_text K user cnonce (cnonce @ snonce) salt n"
  shows "\<exists>proof. client_final K (as_bytes (honest_server_first K (cnonce @ snonce) salt n)) c =
      (Inr (as_bytes (final_without_proof (cnonce @ snonce) @ lit '',p='' @ base64_encode K proof)),
       c\<lparr>server_first := honest_server_first K (cnonce @ snonce) salt n, salted_password := Some salted\<rparr>)
    \<and> server_accepts K salted text proof"
proof -
  have dec: "base64_decode K (base64_encode K salt) = Some salt"
    and len: "length (hmac_sha256 K k d) = 32" for k d
    using assms(1) by (simp_all add: crypto_laws_def)
  have xor: "xor_bytes (xor_bytes (hmac_sha256 K k d) (hmac_sha256 K k' d')) (hmac_sha256 K k' d')
      = hmac_sha256 K k d" for k d k' d'
    by (rule xor_bytes_cancel) (simp add: len)
  have "auth_message (c\<lparr>server_first := honest_server_first K (cnonce @ snonce) salt n,
      salted_password := Some salted\<rparr>) (cnonce @ snonce) = text"
    by (simp add: auth_message_def assms(4, 6) client_first_def new_scram_client_def exchange_text_def Let_def)
  moreover have "client_nonce c = cnonce" "scram_password c = pw"
    by (simp_all add: assms(4) client_first_def new_scram_client_def Let_def)
  ultimately show ?thesis
    by (intro exI [of _ "xor_bytes (hmac_sha256 K salted (as_bytes (lit ''Client Key'')))
          (hmac_sha256 K (sha256 K (hmac_sha256 K salted (as_bytes (lit ''Client Key'')))) (as_bytes text))"])
       (simp add: client_final_def honest_text [OF assms(1, 2)] honest_parts [OF assms(1-3)] starts_with_def
        dec Let_def server_accepts_def xor assms(5))
qed

lemma verify_server_final_honest:
  assumes "crypto_laws K" and "nonce_text nonce"
    and "server_first c = honest_server_first K nonce salt n" and "salted_password c = Some salted"
  shows "verify_server_final K msg c = Inr () \<longleftrightarrow>
    (\<exists>b64. from_utf8 msg = Some (lit ''v='' @ b64)
       \<and> base64_decode K b64 = Some (server_signature K salted (auth_message c nonce)))"
proof -
  have "List.find (\<lambda>p. starts_with p (lit ''r='')) (split_char 44 (server_first c)) = Some (lit ''r='' @ nonce)"
    unfolding assms(3) honest_split [OF assms(1, 2)] by (simp add: starts_with_def lit_def)
  moreover have "strip_prefix (lit ''r='' @ nonce) (lit ''r='') = Some nonce"
    by (simp add: strip_prefix_def starts_with_def lit_def)
  moreover have v1: "strip_prefix t (lit ''v='') = Some b \<longleftrightarrow> t = lit ''v='' @ b" for t b
    by (auto simp: strip_prefix_def starts_with_def)
       (metis append_take_drop_id length_append_singleton)
  moreover have v2: "strip_prefix (lit ''v='' @ b) (lit ''v='') = Some b" for b
    by (simp add: strip_prefix_def starts_with_def lit_def)
  ultimately show ?thesis
    using assms(4) by (auto simp: v1 v2 verify_server_final_def server_signature_def Let_def split: option.splits if_splits)
qed

text \<open>A concrete instance of the primitives, to run the exchange on.\<close>

definition example_crypto :: crypto where
  "example_crypto = \<lparr>hmac_sha256 = (\<lambda>k d. take 32 (k @ d @ replicate 32 1)), sha256 = rev,
     pbkdf2_hmac = (\<lambda>p s n. p @ s), base64_encode = map (\<lambda>b. 64 + unat b),
     base64_decode = (\<lambda>s. Some (map (\<lambda>c. byte_of (c - 64)) s))\<rparr>"

lemma example_crypto_laws: "crypto_laws example_crypto"
proof -
  have "scalar (64 + unat b)" for b :: byte using unat_byte_le [of b] by (simp add: scalar_def)
  then show ?thesis by (simp add: crypto_laws_def example_crypto_def list_all_iff comp_def min_def)
qed

section \<open>Properties of the backend login\<close>

lemma auth_ok_parses: "try_parse_auth oc (build_auth_ok @ post) = Ret (Some (AuthOk, 9))"
proof -
  let ?d = "build_auth_ok @ post"
  have d: "?d = frame 82 (be32 0) @ post" by (simp add: build_auth_ok_def frame_def)
  have small: "4 + length (be32 0) < 2 ^ 31" by simp
  have len: "as_usize (i32_from_be (?d ! 1) (?d ! 2) (?d ! 3) (?d ! 4)) = 8" "?d ! 0 = 82"
    using frame_header [OF small, of "[]" 82 post] unfolding d by (simp_all add: numeral_2_eq_2)
  have t: "take 9 ?d = build_auth_ok" by (simp add: build_auth_ok_def)
  have code: "i32_from_be (build_auth_ok ! 5) (build_auth_ok ! 6) (build_auth_ok ! 7) (build_auth_ok ! 8) = 0"
    using be32_nth_at [of 0 "82 # be32 8" 5 "[]"] by (simp add: build_auth_ok_def)
  have hdr: "as_usize (i32_from_be (build_auth_ok ! 1) (build_auth_ok ! 2) (build_auth_ok ! 3) (build_auth_ok ! 4)) = 8"
    using be32_nth_at [of 8 "[82]" 1 "be32 0"] by (simp add: build_auth_ok_def as_usize_nonneg numeral_2_eq_2)
  have add: "usize_add oc 1 8 = Ret 9" by (simp add: usize_add_def usize_modulus_def)
  have "length build_auth_ok = 9" "build_auth_ok ! 0 = 82" by (simp_all add: build_auth_ok_def)
  then have "auth_request_parse oc build_auth_ok = Ret (Some AuthOk)"
    unfolding auth_request_parse_def hdr code add Let_def by simp
  then show ?thesis
    using \<open>length build_auth_ok = 9\<close> unfolding try_parse_auth_def len add Let_def by (simp add: t)
qed

lemma sasl_offer_parses:
  assumes "c_text mech" and "mech \<noteq> []" and "blen mech < 2 ^ 20"
  shows "try_parse_auth oc (frame 82 (be32 10 @ cstr mech @ [0])) = Ret (Some (Sasl [mech], blen mech + 11))"
proof -
  define d where "d = frame 82 (be32 10 @ cstr mech @ [0])"
  define n where "n = blen mech + 11"
  have len: "length d = n" by (simp add: d_def n_def)
  have small: "4 + length (be32 10 @ cstr mech @ [0]) < 2 ^ 31" using assms(3) by simp
  have hdr: "as_usize (i32_from_be (d ! 1) (d ! 2) (d ! 3) (d ! 4)) = n - 1" "d ! 0 = 82"
    using frame_header [OF small, of "[]" 82 "[]"] by (simp_all add: d_def n_def numeral_2_eq_2)
  define pre where "pre = 82 # be32 (int (n - 1)) @ be32 10"
  have d: "d = pre @ cstr mech @ [0]" by (simp add: d_def pre_def frame_def n_def algebra_simps)
  have pre: "length pre = 9" by (simp add: pre_def)
  have code: "i32_from_be (d ! 5) (d ! 6) (d ! 7) (d ! 8) = 10"
    using be32_nth_at [of 10 "82 # be32 (int (n - 1))" 5 "cstr mech @ [0]"] by (simp add: d pre_def)
  have add: "usize_add oc 1 (n - 1) = Ret n"
    using assms(3) by (simp add: usize_add_def usize_modulus_def n_def)
  have scan: "scan_nul d n 9 = 9 + blen mech"
    using scan_nul_cstr [OF assms(1), of pre n "[0]"] by (simp add: d pre n_def)
  have span: "span d 9 (9 + blen mech) = as_bytes mech"
    using span_cstr [of pre mech "[0]"] by (simp add: d pre)
  have nul: "d ! (10 + blen mech) = 0" by (simp add: d pre nth_append)
  have "0 < blen mech" using assms(2) by (cases mech) (simp_all add: blen_def)
  then have "sasl_mechanisms d n 9 [] = [mech]"
    using assms(1) scan span nul
    by (subst sasl_mechanisms.simps) (simp add: n_def Let_def from_utf8_as_bytes c_text_def)
  then have "auth_request_parse oc d = Ret (Some (Sasl [mech]))"
    unfolding auth_request_parse_def hdr code add len Let_def by (simp add: n_def)
  then show ?thesis
    unfolding d_def [symmetric] try_parse_auth_def hdr add len Let_def by (simp add: len n_def)
qed



text \<open>
  C35.  The server's signature is optional: a backend that offers SCRAM and then sends
  AuthenticationOk is logged in to after one message of the exchange, with nothing verified.
\<close>

theorem scram_signature_unchecked:
  assumes "write_ok 0" and "blen (login_user login) + blen (nonces 0) < 2 ^ 30"
  shows "\<exists>m. backend_authenticate oc K md5_hex nonces write_ok login [Some build_auth_ok]
      (frame 82 (be32 10 @ cstr (lit ''SCRAM-SHA-256'') @ [0])) None [] = Ret (Authenticated [] [], [m])"
proof -
  let ?mech = "lit ''SCRAM-SHA-256''"
  let ?offer = "frame 82 (be32 10 @ cstr ?mech @ [0])"
  obtain first client where cf: "client_first (new_scram_client (nonces 0) (login_user login) (login_password login))
      = (first, client)" by fastforce
  have mech: "c_text ?mech" "?mech \<noteq> []" "blen ?mech = 13"
    by (simp_all add: c_text_def lit_def scalar_def blen_def len_utf8_def)
  have first: "length first = 8 + blen (login_user login) + blen (nonces 0)"
    using cf by (auto simp: client_first_def new_scram_client_def Let_def length_as_bytes length_utf8_enc lit_def len_utf8_def)
  have "build_sasl_initial_response oc ?mech first
      = Ret (frame 112 (as_bytes ?mech @ [0] @ be32 (as_i32 (length first)) @ first))"
    unfolding build_sasl_initial_response_def
    by (rule built_frame) (use first mech assms(2) in \<open>simp add: length_as_bytes\<close>)
  then obtain m where m: "answer_request oc K md5_hex (nonces 0) login (Sasl [?mech]) None = Ret (Inr (Some m, Some client))"
    by (simp add: answer_request_def cf)
  have "try_parse_auth oc ?offer = Ret (Some (Sasl [?mech], 24))" "length ?offer = 24"
    using sasl_offer_parses [OF mech(1, 2), of oc] mech(3) by simp_all
  then have "backend_authenticate oc K md5_hex nonces write_ok login [Some build_auth_ok] ?offer None []
      = backend_authenticate oc K md5_hex nonces write_ok login [Some build_auth_ok] [] (Some client) [m]"
    using m assms(1) by (subst backend_authenticate.simps) simp
  also have "\<dots> = backend_authenticate oc K md5_hex nonces write_ok login [] build_auth_ok (Some client) [m]"
    by (subst backend_authenticate.simps) (simp add: build_auth_ok_def)
  also have "\<dots> = Ret (Authenticated [] [], [m])"
    using auth_ok_parses [of oc "[]"]
    by (subst backend_authenticate.simps) (simp add: build_auth_ok_def be32_def Let_def)
  finally show ?thesis by blast
qed

theorem scram_signature_unchecked_witness:
  "\<exists>m. backend_authenticate False example_crypto (\<lambda>_. []) (\<lambda>_. lit ''ab'') (\<lambda>_. True)
      \<lparr>login_user = lit ''u'', login_password = lit ''p''\<rparr> [Some build_auth_ok]
      (frame 82 (be32 10 @ cstr (lit ''SCRAM-SHA-256'') @ [0])) None [] = Ret (Authenticated [] [], [m])"
  by (rule scram_signature_unchecked) (simp_all add: lit_def blen_def len_utf8_def)

end
