(* ===== verification/Connection_Startup.thy ===== *)
theory Connection_Startup
  imports Client_Auth Backend_Auth
begin

text \<open>
  The startup of a connection, from \<open>proxy/connection.rs\<close>: the direct handshake, the handshake that
  captures the backend's startup response for reuse, the initialization of a backend alone, and the
  replay of a captured response.
\<close>

section \<open>Outcomes\<close>

datatype startup_failure = ClientAuthFailed auth_failure | ClientWriteFailed | BackendWriteFailed
  | BackendAuthFailed backend_auth_error | StartupReadError | ClosedDuringStartup

text \<open>\<open>Blocked\<close>: the reads given so far do not complete the startup and the next read is pending.\<close>

datatype 'a startup_run = Ready 'a | StartupFailed startup_failure | Blocked

text \<open>
  The backend's side of the connection: the libraries, what it answers (one entry per read) and
  which of our writes succeed.
\<close>

record backend_io =
  bk_crypto :: crypto
  bk_md5 :: "bytes \<Rightarrow> rstr"
  bk_nonces :: "nat \<Rightarrow> rstr"
  bk_startup_write :: bool
  bk_writes :: "nat \<Rightarrow> bool"
  bk_login :: backend_login
  bk_reads :: "bytes option list"

definition run_login :: "bool \<Rightarrow> backend_io \<Rightarrow> (backend_auth_outcome \<times> bytes list) run" where
  "run_login oc B =
     backend_authenticate oc (bk_crypto B) (bk_md5 B) (bk_nonces B) (bk_writes B) (bk_login B) (bk_reads B) [] None []"

section \<open>The backend's startup response\<close>

text \<open>
  The read loop up to ReadyForQuery; \<open>got\<close> are the chunks taken so far and \<open>wr k\<close> is whether passing
  chunk \<open>k\<close> on succeeds.
\<close>

fun startup_chunks ::
    "bool \<Rightarrow> (nat \<Rightarrow> bool) \<Rightarrow> bytes list \<Rightarrow> bytes option list \<Rightarrow> (unit startup_run \<times> bytes list) run option" where
  "startup_chunks oc wr got [] = Some (Ret (Blocked, got))"
| "startup_chunks oc wr got (None # rest) = Some (Ret (StartupFailed StartupReadError, got))"
| "startup_chunks oc wr got (Some c # rest) =
     (if c = [] then Some (Ret (StartupFailed ClosedDuringStartup, got))
      else if \<not> wr (length got) then Some (Ret (StartupFailed ClientWriteFailed, got))
      else case contains_ready_for_query oc c of
             None \<Rightarrow> None
           | Some Panic \<Rightarrow> Some Panic
           | Some (Ret ready) \<Rightarrow>
               if ready then Some (Ret (Ready (), got @ [c])) else startup_chunks oc wr (got @ [c]) rest)"

text \<open>The bytes left over from authentication are handled as a first chunk.\<close>

definition startup_response ::
    "bool \<Rightarrow> (nat \<Rightarrow> bool) \<Rightarrow> bytes \<Rightarrow> bytes option list \<Rightarrow> (unit startup_run \<times> bytes list) run option" where
  "startup_response oc wr remaining rest =
     startup_chunks oc wr [] (if remaining = [] then rest else Some remaining # rest)"

section \<open>The handshakes\<close>

text \<open>The result carries the messages sent to the backend.\<close>

definition initialize_backend_startup ::
    "bool \<Rightarrow> backend_io \<Rightarrow> bytes \<Rightarrow> (bytes startup_run \<times> bytes list) run option" where
  "initialize_backend_startup oc B startup_bytes =
     (if \<not> bk_startup_write B then Some (Ret (StartupFailed BackendWriteFailed, []))
      else case run_login oc B of
             Panic \<Rightarrow> Some Panic
           | Ret (AuthFailed e, sent) \<Rightarrow> Some (Ret (StartupFailed (BackendAuthFailed e), startup_bytes # sent))
           | Ret (Waiting, sent) \<Rightarrow> Some (Ret (Blocked, startup_bytes # sent))
           | Ret (Authenticated remaining rest, sent) \<Rightarrow>
               map_option (run_map (\<lambda>(status, chunks).
                 (case status of Ready _ \<Rightarrow> Ready (concat chunks) | StartupFailed e \<Rightarrow> StartupFailed e | Blocked \<Rightarrow> Blocked,
                  startup_bytes # sent)))
                 (startup_response oc (\<lambda>_. True) remaining rest))"

text \<open>
  \<open>auth\<close> is the outcome of \<open>authenticate\<close> for this client, with the bytes it wrote; \<open>cw k\<close> is whether
  the \<open>k\<close>-th later write to the client succeeds.  The results carry the bytes written to the client
  and the messages sent to the backend.
\<close>

type_synonym client_auth = "((auth_failure + auth_handshake_result) \<times> bytes) run"

definition perform_startup_handshake ::
    "bool \<Rightarrow> client_auth \<Rightarrow> (nat \<Rightarrow> bool) \<Rightarrow> backend_io \<Rightarrow> (unit startup_run \<times> bytes \<times> bytes list) run option" where
  "perform_startup_handshake oc auth cw B =
     (case auth of
        Panic \<Rightarrow> Some Panic
      | Ret (Inl e, out) \<Rightarrow> Some (Ret (StartupFailed (ClientAuthFailed e), out, []))
      | Ret (Inr hs, out) \<Rightarrow>
          if \<not> bk_startup_write B then Some (Ret (StartupFailed BackendWriteFailed, out, []))
          else (case run_login oc B of
                  Panic \<Rightarrow> Some Panic
                | Ret (AuthFailed e, sent) \<Rightarrow>
                    Some (Ret (StartupFailed (BackendAuthFailed e), out, hs_startup_bytes hs # sent))
                | Ret (Waiting, sent) \<Rightarrow> Some (Ret (Blocked, out, hs_startup_bytes hs # sent))
                | Ret (Authenticated remaining rest, sent) \<Rightarrow>
                    if \<not> cw 0 then Some (Ret (StartupFailed ClientWriteFailed, out, hs_startup_bytes hs # sent))
                    else map_option (run_map (\<lambda>(status, chunks).
                           (status, out @ build_auth_ok @ concat chunks, hs_startup_bytes hs # sent)))
                           (startup_response oc (\<lambda>k. cw (Suc k)) remaining rest)))"

definition perform_startup_handshake_capturing ::
    "bool \<Rightarrow> client_auth \<Rightarrow> (nat \<Rightarrow> bool) \<Rightarrow> backend_io
      \<Rightarrow> ((bytes \<times> bytes) startup_run \<times> bytes \<times> bytes list) run option" where
  "perform_startup_handshake_capturing oc auth cw B =
     (case auth of
        Panic \<Rightarrow> Some Panic
      | Ret (Inl e, out) \<Rightarrow> Some (Ret (StartupFailed (ClientAuthFailed e), out, []))
      | Ret (Inr hs, out) \<Rightarrow>
          if \<not> cw 0 then Some (Ret (StartupFailed ClientWriteFailed, out, []))
          else map_option (run_map (\<lambda>(status, sent).
                 case status of
                   StartupFailed e \<Rightarrow> (StartupFailed e, out @ build_auth_ok, sent)
                 | Blocked \<Rightarrow> (Blocked, out @ build_auth_ok, sent)
                 | Ready captured \<Rightarrow>
                     if \<not> cw 1 then (StartupFailed ClientWriteFailed, out @ build_auth_ok, sent)
                     else (Ready (captured, hs_startup_bytes hs), out @ build_auth_ok @ captured, sent)))
                 (initialize_backend_startup oc B (hs_startup_bytes hs)))"

definition replay_startup_to_client :: "client_auth \<Rightarrow> (nat \<Rightarrow> bool) \<Rightarrow> bytes \<Rightarrow> (bytes startup_run \<times> bytes) run" where
  "replay_startup_to_client auth cw captured =
     run_map (\<lambda>(result, out).
       case result of
         Inl e \<Rightarrow> (StartupFailed (ClientAuthFailed e), out)
       | Inr hs \<Rightarrow>
           if \<not> cw 0 then (StartupFailed ClientWriteFailed, out)
           else if \<not> cw 1 then (StartupFailed ClientWriteFailed, out @ build_auth_ok)
           else (Ready (hs_startup_bytes hs), out @ build_auth_ok @ captured)) auth"

section \<open>Scans and logins\<close>

lemma contains_ready_frames:
  assumes "back_valid ms" and "incomplete rest" and "length (back_frames ms @ rest) < 2 ^ 63"
  shows "contains_ready_for_query oc (back_frames ms @ rest) = Some (Ret (last_ready None ms \<noteq> None))"
  using ready_from_frames [of ms rest "[]"] assms
  by (simp add: contains_ready_for_query_def extract_ready_for_query_def)

lemma last_ready_append: "last_ready st (ms @ ms') = last_ready (last_ready st ms) ms'"
  by (induction ms arbitrary: st) auto

text \<open>A backend that trusts us sends AuthenticationOk first.\<close>

lemma run_login_trust:
  assumes "bk_reads B = Some (build_auth_ok @ post) # rest"
  shows "run_login oc B = Ret (Authenticated post rest, [])"
proof -
  have "length build_auth_ok = 9" "build_auth_ok \<noteq> []" by (simp_all add: build_auth_ok_def)
  then show ?thesis
    using assms auth_ok_parses [of oc post]
    by (simp add: run_login_def backend_authenticate.simps [where pending = "[]"]
        backend_authenticate.simps [where pending = "build_auth_ok @ post"])
qed

section \<open>Properties of the startup\<close>



text \<open>
  ReadyForQuery is looked for in each read alone: when the backend's last startup message is cut
  between two reads, the startup does not complete, although the same bytes in one read complete it.
\<close>

lemma split_ready_blocks_startup:
  assumes "back_valid ms" and "last_ready None ms = None" and "length (back_frames ms) < 2 ^ 62"
    and "0 < k" and "k < 6" and "bk_startup_write B"
  shows "let z = frame MSG_READY_FOR_QUERY [73]
    in initialize_backend_startup oc (B\<lparr>bk_reads := [Some build_auth_ok, Some (back_frames ms @ take k z), Some (drop k z)]\<rparr>) sb
        = Some (Ret (Blocked, [sb]))
     \<and> initialize_backend_startup oc (B\<lparr>bk_reads := [Some build_auth_ok, Some (back_frames ms @ z)]\<rparr>) sb
        = Some (Ret (Ready (back_frames ms @ z), [sb]))"
proof -
  let ?z = "frame MSG_READY_FOR_QUERY [73]"
  have z: "?z = [90, 0, 0, 0, 5, 73]" by (simp add: frame_def msg_tags be32_def byte_of_def)
  have ks: "k = 1 \<or> k = 2 \<or> k = 3 \<or> k = 4 \<or> k = 5" using assms(4, 5) by linarith
  have cut: "incomplete (take k ?z)" "incomplete (drop k ?z)" "drop k ?z \<noteq> []" "take k ?z \<noteq> []"
    using ks unfolding z by (auto simp: incomplete_def i32_from_be_def signed_of_def be_nat_def)
  have a: "contains_ready_for_query oc (back_frames ms @ take k ?z) = Some (Ret False)"
    using contains_ready_frames [OF assms(1) cut(1), of oc] assms(2, 3, 5) by simp
  have b: "contains_ready_for_query oc (drop k ?z) = Some (Ret False)"
    using contains_ready_frames [OF _ cut(2), of "[]" oc] by (simp add: back_valid_def)
  have c: "contains_ready_for_query oc (back_frames ms @ ?z) = Some (Ret True)"
    using contains_ready_frames [of "ms @ [(MSG_READY_FOR_QUERY, [73])]" "[]" oc] assms(1-3)
    by (simp add: back_valid_def incomplete_def last_ready_append back_frames_def)
  show ?thesis
    using a b c cut(3, 4) assms(6) run_login_trust [where post = "[]"]
    by (simp add: Let_def initialize_backend_startup_def startup_response_def)
qed

end
