(* ===== verification/Retry.thy ===== *)
theory Retry
  imports Scry_Prelude
begin

text \<open>
  \<open>resilience/retry.rs\<close> with \<open>ConnectionRetryConfig\<close>, and \<open>resilience/healthcheck.rs\<close>.  The
  operation is given by its result on each attempt.  Two things are parameters: \<open>scale\<close>, the
  floating-point product of the backoff with the multiplier cast to \<open>u64\<close>, and \<open>draw\<close>, the random
  jitter of an attempt.
\<close>

record retry_config =
  retry_enabled :: bool
  max_attempts :: nat
  initial_backoff_ms :: nat
  max_backoff_ms :: nat

text \<open>
  The loop: result, and for every sleep the backoff it started from and the delay.  \<open>attempt\<close> is
  the number of attempts already made.
\<close>

function retry_loop ::
    "bool \<Rightarrow> retry_config \<Rightarrow> (nat \<Rightarrow> nat) \<Rightarrow> (nat \<Rightarrow> nat \<Rightarrow> nat) \<Rightarrow> (nat \<Rightarrow> 'e + 'a) \<Rightarrow> ('e \<Rightarrow> bool)
      \<Rightarrow> nat \<Rightarrow> nat \<Rightarrow> (('e + 'a) \<times> (nat \<times> nat) list) run" where
  "retry_loop oc cfg scale draw op is_retryable attempt backoff =
     (let attempt' = attempt + 1 in
      case op attempt' of
        Inr v \<Rightarrow> Ret (Inr v, [])
      | Inl e \<Rightarrow>
          if \<not> is_retryable e then Ret (Inl e, [])
          else if max_attempts cfg \<le> attempt' then Ret (Inl e, [])
          else run_bind (usize_add oc backoff (draw attempt' backoff)) (\<lambda>delay.
            run_map (\<lambda>(r, sleeps). (r, (backoff, delay) # sleeps))
              (retry_loop oc cfg scale draw op is_retryable attempt'
                 (min (scale backoff) (max_backoff_ms cfg)))))"
  by pat_completeness auto
termination
  by (relation "measure (\<lambda>(oc, cfg, scale, draw, op, p, attempt, backoff). max_attempts cfg - attempt)") auto

declare retry_loop.simps [simp del]

definition execute_with_classifier ::
    "bool \<Rightarrow> retry_config \<Rightarrow> (nat \<Rightarrow> nat) \<Rightarrow> (nat \<Rightarrow> nat \<Rightarrow> nat) \<Rightarrow> (nat \<Rightarrow> 'e + 'a) \<Rightarrow> ('e \<Rightarrow> bool)
      \<Rightarrow> (('e + 'a) \<times> (nat \<times> nat) list) run" where
  "execute_with_classifier oc cfg scale draw op is_retryable =
     (if \<not> retry_enabled cfg then Ret (op 1, [])
      else retry_loop oc cfg scale draw op is_retryable 0 (initial_backoff_ms cfg))"

definition execute ::
    "bool \<Rightarrow> retry_config \<Rightarrow> (nat \<Rightarrow> nat) \<Rightarrow> (nat \<Rightarrow> nat \<Rightarrow> nat) \<Rightarrow> (nat \<Rightarrow> 'e + 'a)
      \<Rightarrow> (('e + 'a) \<times> (nat \<times> nat) list) run" where
  "execute oc cfg scale draw op = execute_with_classifier oc cfg scale draw op (\<lambda>_. True)"

text \<open>\<open>calculate_jitter\<close>: \<open>r\<close> is the draw of the generator in the closed range.\<close>

definition calculate_jitter :: "(nat \<Rightarrow> nat) \<Rightarrow> (nat \<Rightarrow> nat) \<Rightarrow> nat \<Rightarrow> nat" where
  "calculate_jitter range_of r base =
     (let jitter_range = range_of base in if 0 < jitter_range then min (r base) jitter_range else 0)"

section \<open>Active healthcheck\<close>

record healthcheck =
  hc_failures :: nat
  hc_is_healthy :: bool

definition new_healthcheck :: healthcheck where
  "new_healthcheck = \<lparr>hc_failures = 0, hc_is_healthy = True\<rparr>"

text \<open>
  One \<open>check\<close>: \<open>probe\<close> is the result of connecting and running the protocol's health check in
  time (\<open>Some b\<close>), or \<open>None\<close> for an error or a timeout.
\<close>

definition hc_check :: "bool \<Rightarrow> nat \<Rightarrow> bool option \<Rightarrow> healthcheck \<Rightarrow> bool \<times> healthcheck" where
  "hc_check active_enabled threshold probe h =
     (if \<not> active_enabled then (True, h)
      else if probe = Some True then (True, h\<lparr>hc_failures := 0, hc_is_healthy := True\<rparr>)
      else
        (let failures = (hc_failures h + 1) mod 2 ^ 32;
             healthy = (if threshold \<le> hc_failures h + 1 then False else hc_is_healthy h)
         in (healthy, h\<lparr>hc_failures := failures, hc_is_healthy := healthy\<rparr>)))"

fun hc_run :: "bool \<Rightarrow> nat \<Rightarrow> bool option list \<Rightarrow> healthcheck \<Rightarrow> healthcheck" where
  "hc_run en thr [] h = h"
| "hc_run en thr (p # ps) h = hc_run en thr ps (snd (hc_check en thr p h))"

text \<open>The length of the run of failing probes at the end.\<close>

fun trailing_failures :: "nat \<Rightarrow> bool option list \<Rightarrow> nat" where
  "trailing_failures n [] = n"
| "trailing_failures n (p # ps) = trailing_failures (if p = Some True then 0 else n + 1) ps"

section \<open>The retry loop\<close>

text \<open>Everything a run of the loop does, by the number of sleeps.\<close>

lemma retry_loop_outcome:
  assumes "retry_loop oc cfg scale draw op p attempt backoff = Ret (r, sleeps)"
  shows "r = op (attempt + length sleeps + 1)
    \<and> (\<forall>k. attempt < k \<and> k \<le> attempt + length sleeps \<longrightarrow> (\<exists>e. op k = Inl e \<and> p e))
    \<and> (sleeps \<noteq> [] \<longrightarrow> attempt + length sleeps < max_attempts cfg)
    \<and> (\<forall>e. r = Inl e \<and> p e \<longrightarrow> max_attempts cfg \<le> attempt + length sleeps + 1)"
  using assms
proof (induction oc cfg scale draw op p attempt backoff arbitrary: r sleeps rule: retry_loop.induct)
  case (1 oc cfg scale draw op p attempt backoff)
  show ?case
  proof (cases "op (attempt + 1)")
    case (Inr v)
    then show ?thesis using "1.prems" by (subst (asm) retry_loop.simps) (auto simp: Let_def)
  next
    case (Inl e)
    show ?thesis
    proof (cases "p e \<and> attempt + 1 < max_attempts cfg")
      case False
      then show ?thesis
        using "1.prems" Inl by (subst (asm) retry_loop.simps) (auto simp: Let_def split: if_splits)
    next
      case True
      let ?b = "min (scale backoff) (max_backoff_ms cfg)"
      obtain d sl where sl: "sleeps = (backoff, d) # sl"
        and rec: "retry_loop oc cfg scale draw op p (attempt + 1) ?b = Ret (r, sl)"
        using "1.prems" Inl True
        by (subst (asm) retry_loop.simps) (auto simp: Let_def run_bind_Ret_iff run_map_def)
      have ih: "r = op (attempt + 1 + length sl + 1)
        \<and> (\<forall>k. attempt + 1 < k \<and> k \<le> attempt + 1 + length sl \<longrightarrow> (\<exists>e. op k = Inl e \<and> p e))
        \<and> (sl \<noteq> [] \<longrightarrow> attempt + 1 + length sl < max_attempts cfg)
        \<and> (\<forall>e. r = Inl e \<and> p e \<longrightarrow> max_attempts cfg \<le> attempt + 1 + length sl + 1)"
        using "1.IH" [OF refl Inl _ _ rec] True by simp
      have "\<exists>e. op k = Inl e \<and> p e" if "attempt < k" "k \<le> attempt + length sleeps" for k
        using ih Inl True that sl by (cases "k = attempt + 1") auto
      then show ?thesis using ih sl True by auto
    qed
  qed
qed

lemma retry_loop_backoffs:
  assumes "retry_loop oc cfg scale draw op p attempt backoff = Ret (r, sleeps)"
  shows "(\<forall>s. s \<in> set (tl sleeps) \<longrightarrow> fst s \<le> max_backoff_ms cfg) \<and> (sleeps \<noteq> [] \<longrightarrow> fst (hd sleeps) = backoff)"
  using assms
proof (induction oc cfg scale draw op p attempt backoff arbitrary: r sleeps rule: retry_loop.induct)
  case (1 oc cfg scale draw op p attempt backoff)
  show ?case
  proof (cases sleeps)
    case (Cons s sl)
    then obtain e where e: "op (attempt + 1) = Inl e" "p e" "attempt + 1 < max_attempts cfg" "fst s = backoff"
      and rec: "retry_loop oc cfg scale draw op p (attempt + 1) (min (scale backoff) (max_backoff_ms cfg)) = Ret (r, sl)"
      using "1.prems"
      by (subst (asm) retry_loop.simps)
        (auto simp: Let_def run_bind_Ret_iff run_map_def split: sum.splits if_splits)
    have ih: "(\<forall>s. s \<in> set (tl sl) \<longrightarrow> fst s \<le> max_backoff_ms cfg)
        \<and> (sl \<noteq> [] \<longrightarrow> fst (hd sl) = min (scale backoff) (max_backoff_ms cfg))"
      using "1.IH" [OF refl e(1) _ _ rec] e(2,3) by simp
    show ?thesis using ih Cons e(4) by (cases sl) auto
  qed simp
qed

lemma retry_loop_returns:
  assumes "\<forall>k b. draw k b \<le> b" and "max_backoff_ms cfg < 2 ^ 62" and "backoff < 2 ^ 62"
  shows "\<exists>x. retry_loop oc cfg scale draw op p attempt backoff = Ret x"
  using assms
proof (induction oc cfg scale draw op p attempt backoff rule: retry_loop.induct)
  case (1 oc cfg scale draw op p attempt backoff)
  have d: "draw (attempt + 1) backoff \<le> backoff" using "1.prems"(1) by blast
  have add: "usize_add oc backoff (draw (attempt + 1) backoff) = Ret (backoff + draw (attempt + 1) backoff)"
    using d "1.prems"(3) by (intro usize_add_small) (simp add: usize_modulus_def)
  show ?case
  proof (cases "op (attempt + 1)")
    case (Inl e)
    have "\<exists>x. retry_loop oc cfg scale draw op p (attempt + 1) (min (scale backoff) (max_backoff_ms cfg)) = Ret x"
      if "p e" "\<not> max_attempts cfg \<le> attempt + 1"
      using "1.IH" [OF refl Inl] that "1.prems" by simp
    then show ?thesis using Inl add by (subst retry_loop.simps) (auto simp: Let_def)
  qed (subst retry_loop.simps, simp add: Let_def)
qed

section \<open>The healthcheck\<close>

lemma hc_run_state:
  assumes "1 \<le> thr" and "hc_is_healthy h \<longleftrightarrow> hc_failures h < thr" and "hc_failures h + length ps < 2 ^ 32"
  shows "hc_failures (hc_run True thr ps h) = trailing_failures (hc_failures h) ps
    \<and> (hc_is_healthy (hc_run True thr ps h) \<longleftrightarrow> trailing_failures (hc_failures h) ps < thr)"
  using assms
proof (induction ps arbitrary: h)
  case (Cons p ps)
  let ?h = "snd (hc_check True thr p h)"
  have "hc_failures ?h = (if p = Some True then 0 else hc_failures h + 1)"
    "hc_is_healthy ?h \<longleftrightarrow> hc_failures ?h < thr"
    using Cons.prems by (auto simp: hc_check_def Let_def)
  then show ?case using Cons.IH [of ?h] Cons.prems by (auto split: if_splits)
qed simp

section \<open>Properties of retrying\<close>



text \<open>
  Backoffs: the first sleep starts from the configured initial backoff, every later one from at
  most \<open>max_backoff_ms\<close>, whatever the multiplier; and with jitter at most the backoff and the
  limits below \<open>2^62\<close> milliseconds the loop always returns.
\<close>

lemma retry_backoff_capped:
  assumes "\<forall>k b. draw k b \<le> b" and "max_backoff_ms cfg < 2 ^ 62" and "initial_backoff_ms cfg < 2 ^ 62"
  shows "\<exists>r sleeps. execute_with_classifier oc cfg scale draw op p = Ret (r, sleeps)
    \<and> (\<forall>s. s \<in> set (tl sleeps) \<longrightarrow> fst s \<le> max_backoff_ms cfg)
    \<and> (sleeps \<noteq> [] \<longrightarrow> fst (hd sleeps) = initial_backoff_ms cfg)"
proof (cases "retry_enabled cfg")
  case True
  obtain r sleeps where "retry_loop oc cfg scale draw op p 0 (initial_backoff_ms cfg) = Ret (r, sleeps)"
    using retry_loop_returns [OF assms, of oc scale op p 0] by auto
  then show ?thesis
    using retry_loop_backoffs True by (fastforce simp: execute_with_classifier_def)
qed (simp add: execute_with_classifier_def)

text \<open>
  The active healthcheck reports unhealthy exactly while the last \<open>failure_threshold\<close> or more
  probes in a row have failed; one successful probe makes it healthy again.
\<close>

lemma healthcheck_threshold:
  assumes "1 \<le> thr" and "length ps < 2 ^ 32"
  shows "hc_is_healthy (hc_run True thr ps new_healthcheck) \<longleftrightarrow> trailing_failures 0 ps < thr"
  using hc_run_state [of thr new_healthcheck ps] assms by (auto simp: new_healthcheck_def)

end
