(* ===== verification/Wait_Queue.thy ===== *)
theory Wait_Queue
  imports Scry_Prelude
begin

text \<open>
  \<open>proxy/wait_queue.rs\<close>.  Each waiter has a one-shot channel: the queue keeps the sender, the
  \<open>Waiter\<close> value keeps the receiver.  The model names channels by number and keeps, beside the
  fields of the struct, what the channels are in: which receivers are alive, which have a
  message, which \<open>Waiter\<close> values exist.
\<close>

record wait_queue =
  max_depth :: nat
  depth :: nat
  waiters :: "nat list"
  next_channel :: nat
  live :: "nat set"
  receivers :: "nat set"
  sent :: "nat set"

datatype queue_full_error = QueueFullError

definition new_wait_queue :: "nat \<Rightarrow> wait_queue" where
  "new_wait_queue n = \<lparr>max_depth = n, depth = 0, waiters = [], next_channel = 0, live = {},
     receivers = {}, sent = {}\<rparr>"

definition enqueue :: "wait_queue \<Rightarrow> (queue_full_error + nat) \<times> wait_queue" where
  "enqueue q =
     (let tx = next_channel q in
      if max_depth q \<le> length (waiters q) then (Inl QueueFullError, q\<lparr>next_channel := Suc tx\<rparr>)
      else (Inr tx, q\<lparr>waiters := waiters q @ [tx], depth := (depth q + 1) mod usize_modulus, next_channel := Suc tx,
              live := insert tx (live q), receivers := insert tx (receivers q)\<rparr>))"

text \<open>A message to a dropped receiver is lost; the error is ignored.\<close>

definition notify_one :: "wait_queue \<Rightarrow> wait_queue" where
  "notify_one q =
     (case waiters q of
        [] \<Rightarrow> q
      | tx # rest \<Rightarrow>
          q\<lparr>waiters := rest, sent := (if tx \<in> receivers q then insert tx (sent q) else sent q)\<rparr>)"

text \<open>
  \<open>wait\<close> takes the receiver and returns once a message is there; a timeout around it drops the
  receiver instead.
\<close>

definition wait_ready :: "nat \<Rightarrow> wait_queue \<Rightarrow> bool" where
  "wait_ready w q = (w \<notin> receivers q \<or> w \<in> sent q)"

definition wait_take :: "nat \<Rightarrow> wait_queue \<Rightarrow> wait_queue" where
  "wait_take w q = q\<lparr>receivers := receivers q - {w}\<rparr>"

text \<open>\<open>impl Drop for Waiter\<close>: the depth counter goes down, the sender stays in the queue.\<close>

definition drop_waiter :: "nat \<Rightarrow> wait_queue \<Rightarrow> wait_queue" where
  "drop_waiter w q =
     q\<lparr>depth := (depth q + usize_modulus - 1) mod usize_modulus, live := live q - {w},
       receivers := receivers q - {w}\<rparr>"

definition queue_depth :: "wait_queue \<Rightarrow> nat" where
  "queue_depth q = depth q"

definition queue_max_depth :: "wait_queue \<Rightarrow> nat" where
  "queue_max_depth q = max_depth q"

inductive wq_reaches :: "wait_queue \<Rightarrow> wait_queue \<Rightarrow> bool" for q0 where
  start: "wq_reaches q0 q0"
| on_enqueue: "wq_reaches q0 q \<Longrightarrow> wq_reaches q0 (snd (enqueue q))"
| on_notify: "wq_reaches q0 q \<Longrightarrow> wq_reaches q0 (notify_one q)"
| on_wait: "wq_reaches q0 q \<Longrightarrow> wq_reaches q0 (wait_take w q)"
| on_drop: "wq_reaches q0 q \<Longrightarrow> w \<in> live q \<Longrightarrow> wq_reaches q0 (drop_waiter w q)"

definition wq_wf :: "wait_queue \<Rightarrow> bool" where
  "wq_wf q = (distinct (waiters q) \<and> length (waiters q) \<le> max_depth q
     \<and> finite (live q) \<and> depth q = card (live q) mod usize_modulus \<and> receivers q \<subseteq> live q \<and> (\<forall>w\<in>live q \<union> set (waiters q) \<union> sent q. w < next_channel q)
     \<and> set (waiters q) \<inter> sent q = {} \<and> receivers q - sent q \<subseteq> set (waiters q))"

section \<open>What a client of the queue relies on\<close>

locale wake_queue =
  fixes waiting :: "'q \<Rightarrow> nat list" and alive :: "'q \<Rightarrow> nat set" and woken :: "'q \<Rightarrow> nat set"
    and notify :: "'q \<Rightarrow> 'q"
  assumes notify_waiting: "waiting (notify q) = tl (waiting q)"
    and notify_alive: "alive (notify q) = alive q"
    and notify_woken: "woken (notify q) = woken q \<union> (set (take 1 (waiting q)) \<inter> alive q)"
begin

text \<open>Waking is first-in first-out: \<open>n\<close> notifications reach exactly the first \<open>n\<close> in line.\<close>

lemma notify_many:
  "waiting ((notify ^^ n) q) = drop n (waiting q) \<and> alive ((notify ^^ n) q) = alive q
   \<and> woken ((notify ^^ n) q) = woken q \<union> (set (take n (waiting q)) \<inter> alive q)"
proof (induction n)
  case (Suc n)
  have "set (take (Suc n) (waiting q)) = set (take n (waiting q)) \<union> set (take 1 (drop n (waiting q)))"
    by (metis Suc_eq_plus1 set_append take_add)
  then show ?case
    using Suc notify_waiting notify_alive notify_woken by (auto simp: drop_Suc tl_drop)
qed simp

lemma notify_dead_head: "waiting q = w # rest \<Longrightarrow> w \<notin> alive q \<Longrightarrow> woken (notify q) = woken q"
  using notify_woken [of q] by simp

end

interpretation wq: wake_queue waiters receivers sent notify_one
  by unfold_locales (auto simp: notify_one_def split: list.splits)

section \<open>Invariant\<close>

lemma wq_wf_new: "wq_wf (new_wait_queue n)"
  by (simp add: wq_wf_def new_wait_queue_def)

lemma pred_mod: "0 < n \<Longrightarrow> (n mod usize_modulus + usize_modulus - 1) mod usize_modulus = (n - 1) mod usize_modulus"
proof -
  assume n: "0 < n"
  have m: "0 < usize_modulus" by (simp add: usize_modulus_def)
  have "(n mod usize_modulus + usize_modulus - 1) mod usize_modulus
      = (n mod usize_modulus + (usize_modulus - 1)) mod usize_modulus" using m by simp
  also have "\<dots> = (n + (usize_modulus - 1)) mod usize_modulus" by (rule mod_add_left_eq)
  also have "n + (usize_modulus - 1) = (n - 1) + usize_modulus" using n m by simp
  finally show ?thesis by simp
qed

lemma wq_wf_enqueue: "wq_wf q \<Longrightarrow> wq_wf (snd (enqueue q))"
proof -
  assume wf: "wq_wf q"
  have "next_channel q \<notin> live q" using wf by (auto simp: wq_wf_def)
  then have "card (insert (next_channel q) (live q)) = Suc (card (live q))"
    using wf by (simp add: wq_wf_def)
  then show ?thesis
    using wf by (auto simp: wq_wf_def enqueue_def Let_def less_SucI mod_simps)
qed

lemma wq_wf_notify: "wq_wf q \<Longrightarrow> wq_wf (notify_one q)"
  by (cases "waiters q") (auto simp: wq_wf_def notify_one_def)

lemma wq_wf_take: "wq_wf q \<Longrightarrow> wq_wf (wait_take w q)"
  by (auto simp: wq_wf_def wait_take_def)

lemma wq_wf_drop:
  assumes "wq_wf q" and "w \<in> live q"
  shows "wq_wf (drop_waiter w q)"
proof -
  have "0 < card (live q)" "card (live q - {w}) = card (live q) - 1"
    using assms by (auto simp: wq_wf_def card_gt_0_iff)
  then show ?thesis
    using assms pred_mod [of "card (live q)"] by (auto simp: wq_wf_def drop_waiter_def)
qed

lemma max_depth_ops [simp]:
  "max_depth (snd (enqueue q)) = max_depth q" "max_depth (notify_one q) = max_depth q"
  "max_depth (wait_take w q) = max_depth q" "max_depth (drop_waiter w q) = max_depth q"
  by (simp_all add: enqueue_def notify_one_def wait_take_def drop_waiter_def Let_def split: list.splits)

lemma wq_reaches_wf: "wq_reaches q0 q \<Longrightarrow> wq_wf q0 \<Longrightarrow> wq_wf q \<and> max_depth q = max_depth q0"
  by (induction rule: wq_reaches.induct)
    (auto simp: wq_wf_enqueue wq_wf_notify wq_wf_take wq_wf_drop)

section \<open>Properties of the queue\<close>

text \<open>
  C10.  Invariant over every interleaving: no more than \<open>max_depth\<close> senders are queued, each once;
  the depth counter counts the waiters that exist; and every waiter still listening and not yet
  woken is in the queue, so a notification can reach it.
\<close>

theorem wait_queue_invariant:
  assumes "wq_reaches (new_wait_queue n) q"
  shows "length (waiters q) \<le> n \<and> distinct (waiters q)
    \<and> queue_depth q = card (live q) mod usize_modulus \<and> receivers q - sent q \<subseteq> set (waiters q)"
  using wq_reaches_wf [OF assms wq_wf_new] by (auto simp: wq_wf_def queue_depth_def new_wait_queue_def)

theorem wait_queue_invariant_witness:
  "let q = drop_waiter 0 (snd (enqueue (snd (enqueue (new_wait_queue 3)))))
   in length (waiters q) \<le> 3 \<and> queue_depth q = card (live q) mod usize_modulus \<and> waiters q = [0, 1] \<and> live q = {1}"
proof -
  let ?q = "snd (enqueue (snd (enqueue (new_wait_queue 3))))"
  have q: "live ?q = {0, 1}" "waiters ?q = [0, 1]" by (auto simp: enqueue_def new_wait_queue_def)
  have "wq_reaches (new_wait_queue 3) (drop_waiter 0 ?q)"
    using q by (intro wq_reaches.intros) auto
  from wait_queue_invariant [OF this] show ?thesis using q by (simp add: Let_def drop_waiter_def)
qed

text \<open>
  Strict first-in first-out waking: \<open>n\<close> notifications in a row wake, of the first \<open>n\<close> in line,
  exactly those still listening, and leave the rest of the line as it was.
\<close>

lemma notify_fifo:
  "waiters ((notify_one ^^ n) q) = drop n (waiters q)
   \<and> sent ((notify_one ^^ n) q) = sent q \<union> (set (take n (waiters q)) \<inter> receivers q)"
  using wq.notify_many by blast

text \<open>
  A waiter that gave up keeps its place: when it is first in line, the next notification wakes
  nobody although another waiter is listening.
\<close>

lemma abandoned_place_swallows_wakeup:
  assumes "enqueue q = (Inr w, q1)" and "waiters q = []" and "enqueue q1 = (Inr w', q2)" and "wq_wf q"
  shows "sent (notify_one (drop_waiter w q2)) = sent q2
    \<and> w' \<in> receivers (notify_one (drop_waiter w q2)) \<and> w' \<notin> sent (notify_one (drop_waiter w q2))"
proof -
  have w: "w = next_channel q" "w' = Suc w" "waiters q2 = [w, w']" "w' \<in> receivers q2" "sent q2 = sent q"
    using assms by (auto simp: enqueue_def Let_def split: if_splits)
  have "\<forall>x\<in>sent q. x < next_channel q" using assms(4) by (simp add: wq_wf_def)
  then have "w' \<notin> sent q" using w(1,2) by auto
  moreover have "sent (notify_one (drop_waiter w q2)) = sent (drop_waiter w q2)"
    by (rule wq.notify_dead_head [where w = w and rest = "[w']"]) (use w in \<open>simp_all add: drop_waiter_def\<close>)
  moreover have "receivers (notify_one (drop_waiter w q2)) = receivers q2 - {w}"
    using wq.notify_alive by (simp add: drop_waiter_def)
  ultimately show ?thesis using w by (simp add: drop_waiter_def)
qed

lemma abandoned_places:
  "k \<le> n \<Longrightarrow> \<exists>q. wq_reaches (new_wait_queue n) q \<and> live q = {} \<and> length (waiters q) = k"
proof (induction k)
  case 0
  then show ?case by (intro exI [of _ "new_wait_queue n"]) (auto intro: wq_reaches.start simp: new_wait_queue_def)
next
  case (Suc k)
  then obtain q where q: "wq_reaches (new_wait_queue n) q" "live q = {}" "length (waiters q) = k" by auto
  have "max_depth q = n" using wq_reaches_wf [OF q(1) wq_wf_new] by (simp add: new_wait_queue_def)
  then have e: "live (snd (enqueue q)) = {next_channel q}" "length (waiters (snd (enqueue q))) = Suc k"
    using q Suc.prems by (simp_all add: enqueue_def Let_def)
  let ?q = "drop_waiter (next_channel q) (snd (enqueue q))"
  have "wq_reaches (new_wait_queue n) ?q" using q(1) e(1) by (intro wq_reaches.intros) auto
  moreover have "live ?q = {}" "length (waiters ?q) = Suc k" using e by (simp_all add: drop_waiter_def)
  ultimately show ?case by blast
qed

text \<open>
  Abandoned places count against the limit: for every limit there is a history after which no
  waiter exists, the depth reads 0, and the queue still refuses the next one as full.
\<close>

lemma abandoned_places_fill_queue:
  "\<exists>q. wq_reaches (new_wait_queue n) q \<and> live q = {} \<and> queue_depth q = 0 \<and> fst (enqueue q) = Inl QueueFullError"
proof -
  obtain q where q: "wq_reaches (new_wait_queue n) q" "live q = {}" "length (waiters q) = n"
    using abandoned_places [of n n] by auto
  have "wq_wf q" "max_depth q = n" using wq_reaches_wf [OF q(1) wq_wf_new] by (simp_all add: new_wait_queue_def)
  then have "queue_depth q = 0" "fst (enqueue q) = Inl QueueFullError"
    using q by (simp_all add: wq_wf_def queue_depth_def enqueue_def Let_def)
  then show ?thesis using q by blast
qed

end
