(* ===== verification/Pool_Manager.thy ===== *)
theory Pool_Manager
  imports Circuit_Breaker Retry Wait_Queue Connection_State "HOL-Library.Multiset"
begin

text \<open>
  \<open>proxy/tcp_pool.rs\<close> and \<open>proxy/pool_manager.rs\<close>.  The pool of the \<open>deadpool\<close> crate is external:
  what its \<open>get\<close> returns on each attempt is an argument, and a pooled connection is a number.
  \<open>TcpConnectionPool::get\<close> puts the circuit breaker and the retry loop around it;
  \<open>PoolManager\<close> adds pausing, the sticky map and the wait queue.
\<close>

section \<open>The pool behind breaker and retries\<close>

text \<open>Errors of the external pool, as far as the code tells them apart.\<close>

datatype pool_error = Backend | Timeout | OtherPoolError

datatype get_error = BreakerOpen | GetFailed pool_error

definition pool_error_is_retryable :: "pool_error \<Rightarrow> bool" where
  "pool_error_is_retryable e = (e = Backend \<or> e = Timeout)"

text \<open>
  \<open>get\<close>: \<open>op\<close> gives the result of each attempt on the pool; the result carries the number of
  attempts made.  \<open>t1\<close> and \<open>t2\<close> are the clock before and after.
\<close>

definition pool_attempts ::
    "bool \<Rightarrow> retry_config option \<Rightarrow> (nat \<Rightarrow> nat) \<Rightarrow> (nat \<Rightarrow> nat \<Rightarrow> nat) \<Rightarrow> (nat \<Rightarrow> pool_error + 'c)
      \<Rightarrow> ((pool_error + 'c) \<times> nat) run" where
  "pool_attempts oc rc scale draw op =
     (case rc of
        Some cfg \<Rightarrow>
          if retry_enabled cfg
          then run_map (\<lambda>(r, sleeps). (r, length sleeps + 1))
                 (execute_with_classifier oc cfg scale draw op pool_error_is_retryable)
          else Ret (op 1, 1)
      | None \<Rightarrow> Ret (op 1, 1))"

definition tcp_get ::
    "bool \<Rightarrow> breaker_config option \<Rightarrow> retry_config option \<Rightarrow> (nat \<Rightarrow> nat) \<Rightarrow> (nat \<Rightarrow> nat \<Rightarrow> nat)
      \<Rightarrow> (nat \<Rightarrow> pool_error + 'c) \<Rightarrow> bool option \<Rightarrow> nat \<Rightarrow> nat \<Rightarrow> breaker
      \<Rightarrow> ((get_error + 'c) \<times> nat \<times> breaker) run" where
  "tcp_get oc cb rc scale draw op unhealthy t1 t2 b =
     (case cb of
        None \<Rightarrow>
          run_map (\<lambda>(r, n). (map_sum GetFailed id r, n, b)) (pool_attempts oc rc scale draw op)
      | Some cfg \<Rightarrow>
          run_bind (allow_request oc cfg t1 (cb_state b) b) (\<lambda>(a, b1).
            case a of
              Inl _ \<Rightarrow> Ret (Inl BreakerOpen, 0, b1)
            | Inr _ \<Rightarrow>
                run_bind (pool_attempts oc rc scale draw op) (\<lambda>(r, n).
                  case r of
                    Inr c \<Rightarrow> Ret (Inr c, n, record_success cfg t2 (cb_state b1) b1)
                  | Inl e \<Rightarrow>
                      run_map (\<lambda>b2. (Inl (GetFailed e), n, b2))
                        (record_failure oc cfg t2 unhealthy (cb_state b1) b1))))"

text \<open>
  \<open>recycle\<close>: the two branches (plain and TLS) do the same.  \<open>check\<close> and \<open>reset\<close> are the answers of
  the protocol's health check and reset, \<open>None\<close> for an error.
\<close>

datatype recycle_error = FailedHealthCheck | HealthCheckError | ResetUnsupported | ResetError

definition recycle :: "bool option \<Rightarrow> bool option \<Rightarrow> recycle_error + unit" where
  "recycle check reset =
     (case check of
        None \<Rightarrow> Inl HealthCheckError
      | Some False \<Rightarrow> Inl FailedHealthCheck
      | Some True \<Rightarrow> (case reset of
            None \<Rightarrow> Inl ResetError
          | Some False \<Rightarrow> Inl ResetUnsupported
          | Some True \<Rightarrow> Inr ()))"

text \<open>\<open>warmup\<close>: one attempt per connection, the successes are counted.\<close>

definition warmup :: "(nat \<Rightarrow> pool_error + 'c) \<Rightarrow> nat \<Rightarrow> nat" where
  "warmup op n =
     (if n = 0 then 0 else length (filter (\<lambda>k. case op k of Inr _ \<Rightarrow> True | Inl _ \<Rightarrow> False) [0..<n]))"

section \<open>The pool manager\<close>

datatype acquire_error = PoolError get_error | QueueFull queue_full_error | WaitTimeout | Paused

record pool_config =
  lifo :: bool
  cfg_queue_depth :: nat
  idle_unpin_secs :: nat
  wait_timeout_ms :: nat

record sticky_info =
  sticky_reasons :: "pin_reason list"
  last_used :: nat
  binding_id :: nat

record managed_connection =
  connection :: "nat option"
  client_id :: nat
  conn_pinned :: bool
  conn_binding :: "nat option"

text \<open>\<open>returned\<close> records the pooled connections whose handles were dropped, latest first.\<close>

record pool_manager =
  sticky_map :: "(nat \<times> nat \<times> sticky_info) list"
  wait_q :: wait_queue
  pm_config :: pool_config
  next_binding_id :: nat
  accepting :: bool
  returned :: "nat list"

definition new_pool_manager :: "wait_queue \<Rightarrow> pool_config \<Rightarrow> pool_manager" where
  "new_pool_manager q cfg = \<lparr>sticky_map = [], wait_q = q, pm_config = cfg, next_binding_id = 1,
     accepting = True, returned = []\<rparr>"

definition pm_notify :: "pool_manager \<Rightarrow> pool_manager" where
  "pm_notify pm = pm\<lparr>wait_q := notify_one (wait_q pm)\<rparr>"

definition give_back :: "nat option \<Rightarrow> pool_manager \<Rightarrow> pool_manager" where
  "give_back c pm = (case c of None \<Rightarrow> pm | Some c \<Rightarrow> pm\<lparr>returned := c # returned pm\<rparr>)"

definition pause :: "pool_manager \<Rightarrow> pool_manager" where
  "pause pm = pm\<lparr>accepting := False\<rparr>"

definition resume :: "pool_manager \<Rightarrow> pool_manager" where
  "resume pm = pm_notify (pm\<lparr>accepting := True\<rparr>)"

definition get_sticky_connection :: "nat \<Rightarrow> pool_manager \<Rightarrow> managed_connection option \<times> pool_manager" where
  "get_sticky_connection cid pm =
     (case map_of (sticky_map pm) cid of
        Some (c, info) \<Rightarrow>
          (Some \<lparr>connection = Some c, client_id = cid, conn_pinned = True,
                 conn_binding = Some (binding_id info)\<rparr>,
           pm\<lparr>sticky_map := AList.delete cid (sticky_map pm)\<rparr>)
      | None \<Rightarrow> (None, pm))"

definition fresh_managed :: "nat \<Rightarrow> nat \<Rightarrow> managed_connection" where
  "fresh_managed cid c =
     \<lparr>connection = Some c, client_id = cid, conn_pinned = False, conn_binding = None\<rparr>"

text \<open>
  \<open>acquire\<close> up to the point where it returns or waits: \<open>got\<close> is what the pool answers.  A failed
  \<open>get\<close> puts the client in the wait queue.
\<close>

datatype acquire_outcome = Acquired managed_connection | Refused acquire_error | WaitingOn nat

definition acquire_start ::
    "nat \<Rightarrow> bool \<Rightarrow> (get_error + nat) \<Rightarrow> pool_manager \<Rightarrow> acquire_outcome \<times> pool_manager" where
  "acquire_start cid needs_sticky got pm =
     (if \<not> accepting pm then (Refused Paused, pm)
      else
        (let (sticky, pm1) = (if needs_sticky then get_sticky_connection cid pm else (None, pm))
         in case sticky of
              Some conn \<Rightarrow> (Acquired conn, pm1)
            | None \<Rightarrow> (case got of
                Inr c \<Rightarrow> (Acquired (fresh_managed cid c), pm1)
              | Inl _ \<Rightarrow> (case enqueue (wait_q pm1) of
                    (Inl err, q) \<Rightarrow> (Refused (QueueFull err), pm1\<lparr>wait_q := q\<rparr>)
                  | (Inr w, q) \<Rightarrow> (WaitingOn w, pm1\<lparr>wait_q := q\<rparr>)))))"

text \<open>
  The rest of \<open>wait_for_connection\<close> once the wait is over: notified, then the pool is asked again,
  or timed out.  The waiter is dropped at the end.
\<close>

definition acquire_finish ::
    "nat \<Rightarrow> nat \<Rightarrow> bool \<Rightarrow> (get_error + nat) \<Rightarrow> pool_manager \<Rightarrow> (acquire_error + managed_connection) \<times> pool_manager" where
  "acquire_finish cid w notified got pm =
     (let pm1 = pm\<lparr>wait_q := drop_waiter w (wait_take w (wait_q pm))\<rparr>
      in if notified
         then (case got of
             Inr c \<Rightarrow> (Inr (fresh_managed cid c), pm1)
           | Inl e \<Rightarrow> (Inl (PoolError e), pm1))
         else (Inl WaitTimeout, pm1))"

text \<open>\<open>release\<close>; \<open>now\<close> is the clock for \<open>last_used\<close>.\<close>

definition release :: "nat \<Rightarrow> managed_connection \<Rightarrow> pool_manager \<Rightarrow> pool_manager" where
  "release now conn pm =
     pm_notify
       (if conn_pinned conn then
          (case connection conn of
             None \<Rightarrow> pm
           | Some c \<Rightarrow>
               (case map_of (sticky_map pm) (client_id conn) of
                  Some (c', info) \<Rightarrow>
                    give_back (Some c)
                      (pm\<lparr>sticky_map := AList.update (client_id conn) (c', info\<lparr>last_used := now\<rparr>) (sticky_map pm)\<rparr>)
                | None \<Rightarrow>
                    pm\<lparr>sticky_map := AList.update (client_id conn)
                         (c, \<lparr>sticky_reasons = [], last_used = now, binding_id = next_binding_id pm\<rparr>) (sticky_map pm),
                       next_binding_id := next_binding_id pm + 1\<rparr>))
        else give_back (connection conn) pm)"

definition pin :: "nat \<Rightarrow> nat \<Rightarrow> pin_reason \<Rightarrow> managed_connection \<Rightarrow> pool_manager \<Rightarrow> pool_manager" where
  "pin now cid reason conn pm =
     (case connection conn of
        None \<Rightarrow> pm
      | Some c \<Rightarrow>
          (case map_of (sticky_map pm) cid of
             Some (c', info) \<Rightarrow>
               give_back (Some c)
                 (pm\<lparr>sticky_map := AList.update cid
                    (c', info\<lparr>sticky_reasons := (if reason \<in> set (sticky_reasons info) then sticky_reasons info
                                                else sticky_reasons info @ [reason]),
                              last_used := now\<rparr>) (sticky_map pm)\<rparr>)
           | None \<Rightarrow>
               pm\<lparr>sticky_map := AList.update cid
                    (c, \<lparr>sticky_reasons = [reason], last_used = now, binding_id = next_binding_id pm\<rparr>) (sticky_map pm),
                  next_binding_id := next_binding_id pm + 1\<rparr>))"

definition unpin :: "nat \<Rightarrow> pool_manager \<Rightarrow> pool_manager" where
  "unpin cid pm =
     (case map_of (sticky_map pm) cid of
        Some (c, _) \<Rightarrow> pm_notify (give_back (Some c) (pm\<lparr>sticky_map := AList.delete cid (sticky_map pm)\<rparr>))
      | None \<Rightarrow> pm)"

definition get_sticky_info :: "nat \<Rightarrow> pool_manager \<Rightarrow> sticky_info option" where
  "get_sticky_info cid pm = map_option snd (map_of (sticky_map pm) cid)"

definition has_sticky :: "nat \<Rightarrow> pool_manager \<Rightarrow> bool" where
  "has_sticky cid pm = (cid \<in> fst ` set (sticky_map pm))"

definition sticky_count :: "pool_manager \<Rightarrow> nat" where
  "sticky_count pm = length (sticky_map pm)"

text \<open>Instants are in nanoseconds; \<open>duration_since\<close> saturates at zero.\<close>

definition idle_expired :: "nat \<Rightarrow> pool_manager \<Rightarrow> sticky_info \<Rightarrow> bool" where
  "idle_expired now pm info = (idle_unpin_secs (pm_config pm) * 10 ^ 9 < now - last_used info)"

definition cleanup_idle :: "nat \<Rightarrow> pool_manager \<Rightarrow> nat \<times> pool_manager" where
  "cleanup_idle now pm =
     (if idle_unpin_secs (pm_config pm) = 0 then (0, pm)
      else
        (let gone = filter (\<lambda>(_, _, info). idle_expired now pm info) (sticky_map pm);
             kept = filter (\<lambda>(_, _, info). \<not> idle_expired now pm info) (sticky_map pm);
             pm1 = fold (\<lambda>(_, c, _). give_back (Some c)) gone (pm\<lparr>sticky_map := kept\<rparr>)
         in (length gone, (pm_notify ^^ length gone) pm1)))"

section \<open>The manager and its clients\<close>

text \<open>
  The manager together with the connections its clients hold.  A connection the external pool
  hands out is exclusively owned, so it is one that nobody has.
\<close>

record pool_sys =
  ps_pm :: pool_manager
  ps_held :: "managed_connection list"

definition held_conns :: "managed_connection list \<Rightarrow> nat list" where
  "held_conns ms = concat (map (\<lambda>m. case connection m of Some c \<Rightarrow> [c] | None \<Rightarrow> []) ms)"

definition sticky_conns :: "pool_manager \<Rightarrow> nat list" where
  "sticky_conns pm = map (fst \<circ> snd) (sticky_map pm)"

definition owned :: "pool_sys \<Rightarrow> nat list" where
  "owned s = held_conns (ps_held s) @ sticky_conns (ps_pm s)"

inductive pool_reaches :: "pool_sys \<Rightarrow> pool_sys \<Rightarrow> bool" for s0 where
  start: "pool_reaches s0 s0"
| on_acquire: "pool_reaches s0 s \<Longrightarrow> acquire_start cid st got (ps_pm s) = (Acquired m, pm') \<Longrightarrow>
    (\<forall>c. got = Inr c \<longrightarrow> c \<notin> set (owned s)) \<Longrightarrow> pool_reaches s0 \<lparr>ps_pm = pm', ps_held = m # ps_held s\<rparr>"
| on_refuse: "pool_reaches s0 s \<Longrightarrow> acquire_start cid st got (ps_pm s) = (Refused e, pm') \<Longrightarrow>
    pool_reaches s0 (s\<lparr>ps_pm := pm'\<rparr>)"
| on_wait: "pool_reaches s0 s \<Longrightarrow> acquire_start cid st got (ps_pm s) = (WaitingOn w, pm') \<Longrightarrow>
    pool_reaches s0 (s\<lparr>ps_pm := pm'\<rparr>)"
| on_woken: "pool_reaches s0 s \<Longrightarrow> acquire_finish cid w True got (ps_pm s) = (Inr m, pm') \<Longrightarrow>
    (\<forall>c. got = Inr c \<longrightarrow> c \<notin> set (owned s)) \<Longrightarrow> pool_reaches s0 \<lparr>ps_pm = pm', ps_held = m # ps_held s\<rparr>"
| on_give_up: "pool_reaches s0 s \<Longrightarrow> acquire_finish cid w notified got (ps_pm s) = (Inl e, pm') \<Longrightarrow>
    pool_reaches s0 (s\<lparr>ps_pm := pm'\<rparr>)"
| on_release: "pool_reaches s0 s \<Longrightarrow> ps_held s = xs @ m # ys \<Longrightarrow>
    pool_reaches s0 \<lparr>ps_pm = release now m (ps_pm s), ps_held = xs @ ys\<rparr>"
| on_pin: "pool_reaches s0 s \<Longrightarrow> ps_held s = xs @ m # ys \<Longrightarrow>
    pool_reaches s0 \<lparr>ps_pm = pin now cid r m (ps_pm s), ps_held = xs @ ys\<rparr>"
| on_unpin: "pool_reaches s0 s \<Longrightarrow> pool_reaches s0 (s\<lparr>ps_pm := unpin cid (ps_pm s)\<rparr>)"
| on_cleanup: "pool_reaches s0 s \<Longrightarrow> pool_reaches s0 (s\<lparr>ps_pm := snd (cleanup_idle now (ps_pm s))\<rparr>)"
| on_pause: "pool_reaches s0 s \<Longrightarrow> pool_reaches s0 (s\<lparr>ps_pm := pause (ps_pm s)\<rparr>)"
| on_resume: "pool_reaches s0 s \<Longrightarrow> pool_reaches s0 (s\<lparr>ps_pm := resume (ps_pm s)\<rparr>)"

definition pool_ok :: "pool_sys \<Rightarrow> bool" where
  "pool_ok s = (distinct (owned s) \<and> distinct (map fst (sticky_map (ps_pm s))))"

section \<open>Ownership\<close>

lemma sticky_map_simps [simp]:
  "sticky_map (pm_notify pm) = sticky_map pm" "sticky_map (give_back c pm) = sticky_map pm"
  "sticky_map (pause pm) = sticky_map pm" "sticky_map (resume pm) = sticky_map pm"
  "sticky_map ((pm_notify ^^ n) pm) = sticky_map pm"
proof -
  show n: "sticky_map (pm_notify pm) = sticky_map pm" for pm by (simp add: pm_notify_def)
  show "sticky_map (give_back c pm) = sticky_map pm" by (simp add: give_back_def split: option.splits)
  show "sticky_map (pause pm) = sticky_map pm" "sticky_map (resume pm) = sticky_map pm"
    by (simp_all add: pause_def resume_def n)
  show "sticky_map ((pm_notify ^^ n) pm) = sticky_map pm" by (induction n) (simp_all add: n)
qed

lemma sticky_map_fold_back [simp]:
  "sticky_map (fold (\<lambda>(_, c, _). give_back (Some c)) es pm) = sticky_map pm"
  by (induction es arbitrary: pm) auto

lemma held_conns_simps [simp]:
  "held_conns [] = []" "held_conns (xs @ ys) = held_conns xs @ held_conns ys"
  "held_conns (m # ms) = (case connection m of Some c \<Rightarrow> [c] | None \<Rightarrow> []) @ held_conns ms"
  by (simp_all add: held_conns_def)

lemma conns_update_same:
  "map_of m k = Some (c, i) \<Longrightarrow> map (fst \<circ> snd) (AList.update k (c, i') m) = map (fst \<circ> snd) m"
  by (induction m) auto

lemma conns_update_mset:
  "map_of m k = Some (c, i) \<Longrightarrow>
   image_mset (fst \<circ> snd) (mset (AList.update k (c, i') m)) = image_mset (fst \<circ> snd) (mset m)"
  using conns_update_same [of m k c i i'] by (metis mset_map)

lemma conns_delete:
  "distinct (map fst m) \<Longrightarrow> map_of m k = Some (c, i) \<Longrightarrow>
   mset (map (fst \<circ> snd) m) = add_mset c (mset (map (fst \<circ> snd) (AList.delete k m)))"
  by (induction m) (auto split: if_splits)

lemma distinct_mset_sub: "mset xs \<subseteq># mset ys \<Longrightarrow> distinct ys \<Longrightarrow> distinct xs"
  by (metis distinct_append mset_append mset_eq_imp_distinct_iff mset_subset_eq_exists_conv ex_mset)

text \<open>What each operation does to the connections the manager holds.\<close>

lemma acquire_owned:
  assumes "acquire_start cid st got pm = (Acquired m, pm')" and "distinct (map fst (sticky_map pm))"
  shows "mset (held_conns [m]) + mset (sticky_conns pm') = mset (sticky_conns pm)
      \<or> (\<exists>c. got = Inr c \<and> held_conns [m] = [c] \<and> sticky_conns pm' = sticky_conns pm)"
    and "distinct (map fst (sticky_map pm'))"
  using assms conns_delete [of "sticky_map pm" cid]
  by (auto simp: acquire_start_def get_sticky_connection_def fresh_managed_def sticky_conns_def
      distinct_delete split: if_splits option.splits sum.splits prod.splits)

lemma acquire_not_owned:
  assumes "acquire_start cid st got pm = (r, pm')" and "r = Refused e \<or> r = WaitingOn w"
  shows "sticky_map pm' = sticky_map pm"
  using assms
  by (auto simp: acquire_start_def get_sticky_connection_def split: if_splits option.splits sum.splits prod.splits)

lemma finish_owned:
  assumes "acquire_finish cid w notified got pm = (r, pm')"
  shows "sticky_map pm' = sticky_map pm" and "r = Inr m \<Longrightarrow> \<exists>c. got = Inr c \<and> held_conns [m] = [c]"
  using assms by (auto simp: acquire_finish_def fresh_managed_def Let_def split: if_splits sum.splits)

lemma release_owned:
  shows "mset (sticky_conns (release now m pm)) \<subseteq># mset (held_conns [m]) + mset (sticky_conns pm)"
    and "distinct (map fst (sticky_map pm)) \<Longrightarrow> distinct (map fst (sticky_map (release now m pm)))"
  using update_fresh [of "client_id m" "sticky_map pm"]
  by (auto simp: release_def sticky_conns_def conns_update_mset distinct_update map_of_eq_None_iff split: option.splits)

lemma pin_owned:
  shows "mset (sticky_conns (pin now cid r m pm)) \<subseteq># mset (held_conns [m]) + mset (sticky_conns pm)"
    and "distinct (map fst (sticky_map pm)) \<Longrightarrow> distinct (map fst (sticky_map (pin now cid r m pm)))"
  using update_fresh [of cid "sticky_map pm"]
  by (auto simp: pin_def sticky_conns_def conns_update_mset distinct_update map_of_eq_None_iff split: option.splits)

lemma unpin_owned:
  assumes "distinct (map fst (sticky_map pm))"
  shows "mset (sticky_conns (unpin cid pm)) \<subseteq># mset (sticky_conns pm)"
    and "distinct (map fst (sticky_map (unpin cid pm)))"
  using assms conns_delete [OF assms, of cid]
  by (auto simp: unpin_def sticky_conns_def distinct_delete split: option.splits)

lemma cleanup_owned:
  shows "mset (sticky_conns (snd (cleanup_idle now pm))) \<subseteq># mset (sticky_conns pm)"
    and "distinct (map fst (sticky_map pm)) \<Longrightarrow> distinct (map fst (sticky_map (snd (cleanup_idle now pm))))"
  by (auto simp: cleanup_idle_def sticky_conns_def Let_def distinct_map inj_on_def
      intro: image_mset_subseteq_mono)

lemma pool_ok_sub:
  assumes "pool_ok s" and "mset (owned s') \<subseteq># mset (owned s)" and "distinct (map fst (sticky_map (ps_pm s')))"
  shows "pool_ok s'"
  using assms distinct_mset_sub by (auto simp: pool_ok_def)

lemma owned_consume:
  assumes "mset (sticky_conns pm') \<subseteq># mset (held_conns [m]) + mset (sticky_conns (ps_pm s))"
    and "ps_held s = xs @ m # ys"
  shows "mset (owned \<lparr>ps_pm = pm', ps_held = xs @ ys\<rparr>) \<subseteq># mset (owned s)"
proof -
  have "mset (owned s) = (mset (held_conns xs) + mset (held_conns ys))
      + (mset (held_conns [m]) + mset (sticky_conns (ps_pm s)))"
    using assms(2) by (simp add: owned_def)
  then show ?thesis
    using subset_mset.add_left_mono [OF assms(1), of "mset (held_conns xs) + mset (held_conns ys)"]
    by (simp add: owned_def add.assoc)
qed

lemma pool_reaches_ok: "pool_reaches s0 s \<Longrightarrow> pool_ok s0 \<Longrightarrow> pool_ok s"
proof (induction rule: pool_reaches.induct)
  case (on_acquire s cid st got m pm')
  have ok: "pool_ok s" using on_acquire by blast
  then have d: "distinct (map fst (sticky_map (ps_pm s)))" by (simp add: pool_ok_def)
  from acquire_owned [OF on_acquire.hyps(2) d] show ?case
  proof (elim disjE exE conjE)
    assume "mset (held_conns [m]) + mset (sticky_conns pm') = mset (sticky_conns (ps_pm s))"
      "distinct (map fst (sticky_map pm'))"
    then show ?thesis by (intro pool_ok_sub [OF ok]) (simp_all add: owned_def add.commute add.left_commute)
  next
    fix c
    assume "distinct (map fst (sticky_map pm'))" "got = Inr c" "held_conns [m] = [c]"
      "sticky_conns pm' = sticky_conns (ps_pm s)"
    then show ?thesis using ok on_acquire.hyps(3) by (auto simp: pool_ok_def owned_def)
  qed
next
  case (on_woken s cid w got m pm')
  then have ok: "pool_ok s" by blast
  obtain c where "got = Inr c" "held_conns [m] = [c]" "sticky_map pm' = sticky_map (ps_pm s)"
    using finish_owned [OF on_woken.hyps(2)] by blast
  then show ?case using ok on_woken.hyps(3) by (auto simp: pool_ok_def owned_def sticky_conns_def)
next
  case (on_release s xs m ys now)
  then have ok: "pool_ok s" by blast
  from owned_consume [OF release_owned(1) on_release.hyps(2)]
show ?case
    using release_owned(2) [where pm = "ps_pm s" and now = now and m = m] ok by (intro pool_ok_sub [OF ok]) (simp_all add: pool_ok_def)
next
  case (on_pin s xs m ys now cid r)
  then have ok: "pool_ok s" by blast
  from owned_consume [OF pin_owned(1) on_pin.hyps(2)]
show ?case
    using pin_owned(2) [where pm = "ps_pm s" and now = now and cid = cid and r = r and m = m] ok by (intro pool_ok_sub [OF ok]) (simp_all add: pool_ok_def)
next
  case (on_unpin s cid)
  then have ok: "pool_ok s" by blast
  then show ?case
    using unpin_owned [where cid = cid and pm = "ps_pm s"] by (intro pool_ok_sub [OF ok]) (simp_all add: pool_ok_def owned_def)
next
  case (on_cleanup s now)
  then have ok: "pool_ok s" by blast
  then show ?case
    using cleanup_owned [where now = now and pm = "ps_pm s"] by (intro pool_ok_sub [OF ok]) (simp_all add: pool_ok_def owned_def)
next
  case (on_refuse s cid st got e pm')
  then show ?case
    using acquire_not_owned [OF on_refuse.hyps(2), of e] by (simp add: pool_ok_def owned_def sticky_conns_def)
next
  case (on_wait s cid st got w pm')
  then show ?case
    using acquire_not_owned [OF on_wait.hyps(2), of _ w] by (simp add: pool_ok_def owned_def sticky_conns_def)
next
  case (on_give_up s cid w notified got e pm')
  then show ?case
    using finish_owned(1) [OF on_give_up.hyps(2)] by (simp add: pool_ok_def owned_def sticky_conns_def)
qed (auto simp: pool_ok_def owned_def sticky_conns_def)

section \<open>Acquisition through breaker and retries\<close>

lemma pool_attempts_count:
  assumes "pool_attempts oc rc scale draw op = Ret (r, n)"
  shows "1 \<le> n \<and> r = op n \<and> (\<forall>k. 1 \<le> k \<and> k < n \<longrightarrow> (\<exists>e. op k = Inl e \<and> pool_error_is_retryable e))"
proof (cases "\<exists>cfg. rc = Some cfg \<and> retry_enabled cfg")
  case True
  then obtain cfg sleeps where cfg: "retry_enabled cfg" "n = length sleeps + 1"
    "execute_with_classifier oc cfg scale draw op pool_error_is_retryable = Ret (r, sleeps)"
    using assms by (auto simp: pool_attempts_def run_map_def run_bind_Ret_iff)
  then have "retry_loop oc cfg scale draw op pool_error_is_retryable 0 (initial_backoff_ms cfg) = Ret (r, sleeps)"
    by (simp add: execute_with_classifier_def)
  from retry_loop_outcome [OF this] cfg(2) show ?thesis by auto
next
  case False
  then show ?thesis using assms by (auto simp: pool_attempts_def split: option.splits if_splits)
qed

section \<open>Properties of the pool\<close>

text \<open>
  C2.  Exclusive use: over every interleaving of acquisitions, waits, releases, pins, unpins,
  clean-ups, pauses and resumes, no backend connection is held by two clients, or by a client and
  the sticky map at once, and a client has at most one sticky entry, given that the external pool
  hands out connections nobody has.
\<close>

theorem connections_exclusive:
  assumes "pool_reaches \<lparr>ps_pm = new_pool_manager q cfg, ps_held = []\<rparr> s"
  shows "distinct (held_conns (ps_held s) @ sticky_conns (ps_pm s)) \<and> distinct (map fst (sticky_map (ps_pm s)))"
  using pool_reaches_ok [OF assms] by (simp add: pool_ok_def owned_def new_pool_manager_def sticky_conns_def)

theorem connections_exclusive_witness:
  "let pm0 = new_pool_manager (new_wait_queue 4)
         \<lparr>lifo = True, cfg_queue_depth = 4, idle_unpin_secs = 300, wait_timeout_ms = 1000\<rparr>;
       s = \<lparr>ps_pm = pin 5 1 Pin_TempTable (fresh_managed 1 7) pm0, ps_held = [fresh_managed 2 8]\<rparr>
   in distinct (held_conns (ps_held s) @ sticky_conns (ps_pm s)) \<and> held_conns (ps_held s) @ sticky_conns (ps_pm s) = [8, 7]"
proof -
  let ?pm = "new_pool_manager (new_wait_queue 4)
    \<lparr>lifo = True, cfg_queue_depth = 4, idle_unpin_secs = 300, wait_timeout_ms = 1000\<rparr>"
  let ?s0 = "\<lparr>ps_pm = ?pm, ps_held = []\<rparr>"
  let ?s1 = "\<lparr>ps_pm = ?pm, ps_held = [fresh_managed 1 7]\<rparr>"
  let ?s2 = "\<lparr>ps_pm = ?pm, ps_held = [fresh_managed 2 8, fresh_managed 1 7]\<rparr>"
  have "pool_reaches ?s0 \<lparr>ps_pm = ?pm, ps_held = fresh_managed 1 7 # ps_held ?s0\<rparr>"
    by (rule pool_reaches.on_acquire [OF pool_reaches.start, of 1 False "Inr 7"])
      (simp_all add: acquire_start_def new_pool_manager_def owned_def sticky_conns_def)
  then have "pool_reaches ?s0 ?s1" by simp
  then have "pool_reaches ?s0 \<lparr>ps_pm = ?pm, ps_held = fresh_managed 2 8 # ps_held ?s1\<rparr>"
    by (rule pool_reaches.on_acquire [of _ _ 2 False "Inr 8"])
      (simp_all add: acquire_start_def new_pool_manager_def owned_def sticky_conns_def fresh_managed_def)
  then have "pool_reaches ?s0 ?s2" by simp
  then have "pool_reaches ?s0
      \<lparr>ps_pm = pin 5 1 Pin_TempTable (fresh_managed 1 7) (ps_pm ?s2), ps_held = [fresh_managed 2 8] @ []\<rparr>"
    by (rule pool_reaches.on_pin) simp
  from connections_exclusive [OF this] show ?thesis
    by (simp add: Let_def pin_def fresh_managed_def sticky_conns_def new_pool_manager_def)
qed

text \<open>
  An open breaker shields the backend: in the open period an acquisition fails at once, makes
  no attempt on the pool, and leaves the period as it was.
\<close>

lemma open_breaker_no_attempt:
  assumes "breaker_blocked cfg t1 b"
  shows "\<exists>b'. tcp_get oc (Some cfg) rc scale draw op u t1 t2 b = Ret (Inl BreakerOpen, 0, b')
    \<and> breaker_blocked cfg t' b' = breaker_blocked cfg t' b"
proof -
  have a: "allow_request oc cfg t1 (cb_state b) b = Ret (Inl CircuitOpen, count_rejected b)"
    using assms by (auto simp: breaker_blocked_def allow_request_def)
  moreover have "breaker_blocked cfg t' (count_rejected b) = breaker_blocked cfg t' b"
    using brk.blocked_stays [OF assms, of t' oc] a by (simp add: breaker_admit_def)
  ultimately show ?thesis by (simp add: tcp_get_def)
qed

text \<open>
  One acquisition is one event for the breaker: however many attempts the retries make, a
  failed acquisition on a closed breaker adds exactly one failure, a successful one resets the
  count; and every attempt but the last failed with a transient error.
\<close>

lemma acquisition_counts_once:
  assumes "tcp_get oc (Some cfg) rc scale draw op u t1 t2 b = Ret (r, n, b')" and "cb_enabled cfg"
    and "cb_state b = Closed"
  shows "1 \<le> n \<and> r = map_sum GetFailed id (op n)
    \<and> (\<forall>k. 1 \<le> k \<and> k < n \<longrightarrow> (\<exists>e. op k = Inl e \<and> pool_error_is_retryable e))
    \<and> consecutive_failures b' = (case r of Inl _ \<Rightarrow> consecutive_failures b + 1 | Inr _ \<Rightarrow> 0)"
proof -
  have a: "allow_request oc cfg t1 (cb_state b) b = Ret (Inr (), count_allowed b)"
    "cb_state (count_allowed b) = Closed" "consecutive_failures (count_allowed b) = consecutive_failures b"
    using assms(2,3) by (simp_all add: allow_request_def count_allowed_def)
  obtain x m where x: "pool_attempts oc rc scale draw op = Ret (x, m)"
    using assms(1) a by (cases "pool_attempts oc rc scale draw op") (auto simp: tcp_get_def)
  have rest: "(case x of Inr c \<Rightarrow> Ret (Inr c, m, record_success cfg t2 Closed (count_allowed b))
       | Inl e \<Rightarrow> run_map (\<lambda>b2. (Inl (GetFailed e), m, b2)) (record_failure oc cfg t2 u Closed (count_allowed b)))
       = Ret (r, n, b')"
    using assms(1) a x by (cases x) (simp_all add: tcp_get_def)
  then have "m = n" by (cases x) (auto simp: run_map_def run_bind_Ret_iff)
  then have at: "1 \<le> n \<and> x = op n \<and> (\<forall>k. 1 \<le> k \<and> k < n \<longrightarrow> (\<exists>e. op k = Inl e \<and> pool_error_is_retryable e))"
    using pool_attempts_count [OF x] by blast
  show ?thesis
  proof (cases x)
    case (Inl e)
    then have r: "r = Inl (GetFailed e)" and f: "record_failure oc cfg t2 u Closed (count_allowed b) = Ret b'"
      using rest by (auto simp: run_map_def run_bind_Ret_iff)
    obtain b1 where b1: "reset_window_if_needed oc cfg t2 (count_allowed b) = Ret b1"
      using f assms(2) by (auto simp: run_map_def run_bind_Ret_iff record_failure_def)
    have "consecutive_failures b' = consecutive_failures b + 1"
      using f b1 assms(2) reset_window_keeps [OF b1] a(3)
      by (auto simp: record_failure_def transition_to_open_def Let_def split: if_splits)
    then show ?thesis using at Inl r by (metis map_sum.simps(1) sum.simps(5))
  next
    case (Inr c)
    then have "r = Inr c" "b' = record_success cfg t2 Closed (count_allowed b)" using rest by auto
    moreover have "op n = Inr c" using at Inr by simp
    ultimately show ?thesis using at assms(2) by (simp add: record_success_def)
  qed
qed

text \<open>
  A sticky connection comes back: after a pin the same client gets the same connection, and
  nobody else can.  But a release puts it back with an empty list of reasons under a new binding,
  so why it was pinned is lost after one use.
\<close>

lemma sticky_release_forgets_reasons:
  assumes "accepting pm" and "map_of (sticky_map pm) cid = Some (c, info)"
    and "acquire_start cid True got pm = (Acquired m, pm')"
  shows "connection m = Some c \<and> conn_pinned m
    \<and> map_of (sticky_map (release now m pm')) cid
      = Some (c, \<lparr>sticky_reasons = [], last_used = now, binding_id = next_binding_id pm\<rparr>)
    \<and> (\<forall>x. x \<noteq> cid \<longrightarrow> map_of (sticky_map (release now m pm')) x = map_of (sticky_map pm) x)"
  using assms by (auto simp: acquire_start_def get_sticky_connection_def release_def pm_notify_def)

end
