(* ===== verification/Connection_Handler.thy ===== *)
theory Connection_Handler
  imports Mode_Enforcer Query_Events Stmt_Cache Connection_Startup Pool_Manager
begin

text \<open>
  The connection handler of \<open>proxy/connection.rs\<close>: its release policy, the errors sent when no backend
  can be had, the loop over a pooled backend as a step function on what the \<open>select!\<close> delivers, and
  the two directions over a backend of its own.  Log lines and tracing spans are left out; of a
  query record only the success flag is kept.  Instants are in nanoseconds.
\<close>

section \<open>Policy\<close>

datatype pooling_strategy = PoolDisabled | PoolSession | PoolTransaction | PoolHybrid

fun pooling_mode_of :: "pooling_strategy \<Rightarrow> pooling_mode" where
  "pooling_mode_of PoolDisabled = SessionMode"
| "pooling_mode_of PoolSession = SessionMode"
| "pooling_mode_of PoolTransaction = TransactionMode"
| "pooling_mode_of PoolHybrid = HybridMode"

fun should_release_connection :: "pooling_strategy \<Rightarrow> conn_state \<Rightarrow> bool" where
  "should_release_connection PoolDisabled _ = False"
| "should_release_connection PoolSession _ = False"
| "should_release_connection PoolTransaction s = (\<not> is_pinned s)"
| "should_release_connection PoolHybrid s = (\<not> is_pinned s)"

definition should_intercept_terminate :: "nat \<Rightarrow> bool" where
  "should_intercept_terminate message_index = (message_index = 0)"

definition apply_parse_state :: "unicode \<Rightarrow> rstr \<Rightarrow> rstr \<Rightarrow> nat list \<Rightarrow> conn_state \<Rightarrow> conn_state run" where
  "apply_parse_state U name query param_oids s =
     run_map (add_prepared_statement name (query, param_oids)) (apply_query U query s)"

fun build_ready_for_query :: "transaction_state \<Rightarrow> bytes" where
  "build_ready_for_query Idle = [90, 0, 0, 0, 5, 73]"
| "build_ready_for_query InTransaction = [90, 0, 0, 0, 5, 84]"
| "build_ready_for_query InError = [90, 0, 0, 0, 5, 69]"

section \<open>Acquire errors\<close>

text \<open>The body the three builders share: severity, SQLSTATE, message and hint.\<close>

definition hinted_error :: "rstr \<Rightarrow> rstr \<Rightarrow> rstr \<Rightarrow> bytes" where
  "hinted_error code message hint =
     sized 69 ((83 # as_bytes (lit ''ERROR'') @ [0]) @ (67 # as_bytes code @ [0])
       @ (77 # as_bytes message @ [0]) @ (72 # as_bytes hint @ [0]) @ [0])"

definition build_queue_full_error :: "nat \<Rightarrow> bytes" where
  "build_queue_full_error retry_hint_ms =
     hinted_error (lit ''53300'') (lit ''connection pool queue is full'')
       (lit ''Server is under load. Please retry in '' @ show_nat retry_hint_ms @ lit ''ms.'')"

definition build_wait_timeout_error :: bytes where
  "build_wait_timeout_error =
     hinted_error (lit ''53300'') (lit ''timeout waiting for connection from pool'')
       (lit ''Server is under load. Please retry later.'')"

definition build_pool_paused_error :: bytes where
  "build_pool_paused_error =
     hinted_error (lit ''57P03'') (lit ''pool is paused'')
       (lit ''The proxy pool was paused by an administrator. Retry after RESUME.'')"

datatype backpressure_mode = RejectImmediate | RetryHint | LogAndReject

datatype pool_metric = QueueRejected | PoolWaitTimeout | RequestShed | BackendConnectTimeout

definition classify_pool_error_for_metrics :: "rstr \<Rightarrow> pool_metric list" where
  "classify_pool_error_for_metrics msg =
     (if contains msg (lit ''Circuit breaker'') then [RequestShed]
      else if contains msg (lit ''Timed out after'') then [BackendConnectTimeout] else [])"

text \<open>
  The result, the metrics recorded and what is written to the client (whether or not the write
  succeeds); \<open>show_error\<close> is the text of a pool error.
\<close>

definition handle_acquire_error ::
    "backpressure_mode \<Rightarrow> nat \<Rightarrow> (get_error \<Rightarrow> rstr) \<Rightarrow> acquire_error
      \<Rightarrow> (get_error + unit) \<times> pool_metric list \<times> bytes option" where
  "handle_acquire_error mode retry_hint_ms show_error e =
     (case e of
        QueueFull _ \<Rightarrow>
          (Inr (), [QueueRejected],
           case mode of RetryHint \<Rightarrow> Some (build_queue_full_error retry_hint_ms) | _ \<Rightarrow> None)
      | WaitTimeout \<Rightarrow>
          (Inr (), [QueueRejected, PoolWaitTimeout],
           case mode of RetryHint \<Rightarrow> Some build_wait_timeout_error | _ \<Rightarrow> None)
      | Paused \<Rightarrow> (Inr (), [QueueRejected], Some build_pool_paused_error)
      | PoolError err \<Rightarrow> (Inl err, QueueRejected # classify_pool_error_for_metrics (show_error err), None))"

section \<open>State and effects of the loop\<close>

record handler_env =
  he_strategy :: pooling_strategy
  he_anon :: anonymization_settings
  he_timeout_secs :: nat
  he_connection_id :: rstr
  he_database :: rstr
  he_startup_bytes :: bytes

record handler =
  frontend_buffer :: bytes
  h_cache :: "param_value stmt_cache"
  h_txn :: transaction_state
  h_conn :: conn_state
  query_deadline :: "nat option"

definition new_handler :: "nat \<Rightarrow> handler" where
  "new_handler max_prepared =
     \<lparr>frontend_buffer = [], h_cache = new_cache max_prepared, h_txn = Idle,
      h_conn = new_conn_state max_prepared, query_deadline = None\<rparr>"

text \<open>\<open>StartBackend\<close> is a message of the startup of a backend taken over in mid-session.\<close>

datatype effect =
    ToBackend bytes
  | ToClient bytes
  | SendEvent query_event
  | RecordHotData "rstr list"
  | RecordQuery bool
  | RecordQueryTimeout
  | ReleaseConnection
  | AcquireConnection
  | StartBackend bytes
  | StoreStartup bytes

text \<open>
  \<open>Finished\<close>: the loop was left by \<open>break\<close>; \<open>Failed\<close>: the handler returned an error; \<open>Stuck\<close>: it waits for
  the startup of a new backend.
\<close>

datatype loop_state = Running handler | Finished handler | Failed | Stuck

text \<open>Which writes of one step succeed.\<close>

record step_io =
  first_write :: bool
  second_write :: bool
  backend_write :: bool

section \<open>Messages of the client\<close>

datatype verdict = GoOn | RejectQuery rstr | TerminateNow

definition bind_query ::
    "float_text \<Rightarrow> param_value stmt_cache \<Rightarrow> rstr \<Rightarrow> int list \<Rightarrow> bytes option list
      \<Rightarrow> (rstr \<times> param_value list \<times> bool \<times> param_value stmt_cache) run" where
  "bind_query F cache statement format_codes params_raw =
     (case get_statement statement cache of
        (Some stmt, c) \<Rightarrow>
          run_map (\<lambda>params. (ps_query stmt, params, False, c))
            (decode_params F params_raw format_codes (ps_param_oids stmt))
      | (None, c) \<Rightarrow>
          Ret (lit ''[unknown: '' @ statement @ lit '']'',
               map (\<lambda>p. case p of Some data \<Rightarrow> PUnknown 0 data | None \<Rightarrow> PNull) params_raw, True, c))"

definition pend :: "nat \<Rightarrow> rstr \<Rightarrow> param_value list \<Rightarrow> bool \<Rightarrow> param_value pending_execution" where
  "pend now query params partial =
     \<lparr>pe_query = query, pe_params = params, params_incomplete = partial, started_at = now\<rparr>"

definition client_message ::
    "unicode \<Rightarrow> float_text \<Rightarrow> handler_env \<Rightarrow> nat \<Rightarrow> nat \<Rightarrow> message \<Rightarrow> handler \<Rightarrow> (handler \<times> verdict) run" where
  "client_message U F env now msg_index msg h =
     (case msg of
        Parse name query param_oids \<Rightarrow>
          run_bind (validate U (pooling_mode_of (he_strategy env)) query (is_in_transaction (h_txn h))) (\<lambda>v.
            case v of
              Inl e \<Rightarrow> Ret (h, RejectQuery e)
            | Inr _ \<Rightarrow>
                run_map (\<lambda>conn.
                    (h\<lparr>h_cache := set_pending [] (pend now query [] True)
                         (insert_statement name \<lparr>ps_query = query, ps_param_oids = param_oids\<rparr> (h_cache h)),
                       h_conn := conn\<rparr>, GoOn))
                  (apply_parse_state U name query param_oids (h_conn h)))
      | Bind portal statement format_codes params_raw \<Rightarrow>
          run_map (\<lambda>(query, params, partial, c).
              (h\<lparr>h_cache := set_pending portal (pend now query params partial) c\<rparr>, GoOn))
            (bind_query F (h_cache h) statement format_codes params_raw)
      | Query query \<Rightarrow>
          run_bind (validate U (pooling_mode_of (he_strategy env)) query (is_in_transaction (h_txn h))) (\<lambda>v.
            case v of
              Inl e \<Rightarrow> Ret (h, RejectQuery e)
            | Inr _ \<Rightarrow>
                run_map (\<lambda>conn.
                    (h\<lparr>h_cache := set_pending [] (pend now query [] False) (h_cache h), h_conn := conn\<rparr>, GoOn))
                  (apply_query U query (h_conn h)))
      | Close kind name \<Rightarrow>
          Ret (if kind = 83 then h\<lparr>h_cache := remove_statement name (h_cache h),
                                   h_conn := remove_prepared_statement name (h_conn h)\<rparr>
               else if kind = 80 then h\<lparr>h_cache := clear_pending name (h_cache h)\<rparr>
               else h, GoOn)
      | Terminate \<Rightarrow> Ret (h, if should_intercept_terminate msg_index then TerminateNow else GoOn)
      | _ \<Rightarrow> Ret (h, GoOn))"

fun client_messages ::
    "unicode \<Rightarrow> float_text \<Rightarrow> handler_env \<Rightarrow> nat \<Rightarrow> nat \<Rightarrow> message list \<Rightarrow> handler \<Rightarrow> (handler \<times> verdict) run" where
  "client_messages U F env now msg_index [] h = Ret (h, GoOn)"
| "client_messages U F env now msg_index (msg # msgs) h =
     run_bind (client_message U F env now msg_index msg h) (\<lambda>(h', v).
       if v = GoOn then client_messages U F env now (msg_index + 1) msgs h' else Ret (h', v))"

definition arm_deadline :: "handler_env \<Rightarrow> nat \<Rightarrow> handler \<Rightarrow> handler" where
  "arm_deadline env now h =
     (if 0 < he_timeout_secs env \<and> query_deadline h = None \<and> has_pending [] (h_cache h)
      then h\<lparr>query_deadline := Some (now + he_timeout_secs env * 10 ^ 9)\<rparr> else h)"

definition after_messages :: "handler_env \<Rightarrow> nat \<Rightarrow> step_io \<Rightarrow> bytes \<Rightarrow> handler \<Rightarrow> verdict \<Rightarrow> loop_state \<times> effect list" where
  "after_messages env now io data h v =
     (case v of
        TerminateNow \<Rightarrow> (Finished h, [])
      | RejectQuery e \<Rightarrow>
          let err = ToClient (mode_error_response e);
              ready = ToClient (build_ready_for_query (h_txn h))
          in if \<not> first_write io then (Failed, [])
             else if \<not> second_write io then (Failed, [err])
             else (Running (arm_deadline env now h), [err, ready])
      | GoOn \<Rightarrow>
          if backend_write io then (Running (arm_deadline env now h), [ToBackend data])
          else (Failed, []))"

definition client_read ::
    "bool \<Rightarrow> unicode \<Rightarrow> float_text \<Rightarrow> handler_env \<Rightarrow> nat \<Rightarrow> step_io \<Rightarrow> bytes \<Rightarrow> handler
      \<Rightarrow> (loop_state \<times> effect list) run" where
  "client_read oc U F env now io data h =
     run_bind (extract_messages oc (frontend_buffer h) data) (\<lambda>(msgs, buf).
       run_map (\<lambda>(h', v). after_messages env now io data h' v)
         (client_messages U F env now 0 msgs (h\<lparr>frontend_buffer := buf\<rparr>)))"

section \<open>Reads from the backend\<close>

definition event_for ::
    "handler_env \<Rightarrow> param_value pending_execution \<Rightarrow> nat \<Rightarrow> rstr \<Rightarrow> bool \<Rightarrow> rstr option \<Rightarrow> (query_event \<times> rstr list) option" where
  "event_for env p now query success err =
     build_event (he_anon env) query (pe_params p) (params_incomplete p) (now - started_at p) success err
       (he_connection_id env) (he_database env)"

definition hot_data :: "rstr list \<Rightarrow> effect list" where
  "hot_data fingerprints = (if fingerprints = [] then [] else [RecordHotData fingerprints])"

text \<open>A failed query: one event for the pending text.\<close>

definition report_failure ::
    "bool \<Rightarrow> handler_env \<Rightarrow> nat \<Rightarrow> bytes \<Rightarrow> rstr \<Rightarrow> param_value stmt_cache
      \<Rightarrow> (param_value stmt_cache \<times> effect list) run" where
  "report_failure oc env now data error_msg cache =
     (case take_pending [] cache of
        (None, c) \<Rightarrow> Ret (c, [])
      | (Some p, c) \<Rightarrow>
          run_map (\<lambda>err.
              (c, (case event_for env p now (pe_query p) False err of
                     None \<Rightarrow> []
                   | Some (event, fingerprints) \<Rightarrow> SendEvent event # hot_data fingerprints) @ [RecordQuery False]))
            (error_field (he_anon env) oc data error_msg))"

text \<open>A completed query: one event for each statement of the pending text.\<close>

definition report_success ::
    "handler_env \<Rightarrow> nat \<Rightarrow> param_value stmt_cache \<Rightarrow> param_value stmt_cache \<times> effect list" where
  "report_success env now cache =
     (case take_pending [] cache of
        (None, c) \<Rightarrow> (c, [])
      | (Some p, c) \<Rightarrow>
          (let built = List.map_filter (\<lambda>stmt_text. event_for env p now stmt_text True None)
                         (split_statements (pe_query p))
           in (c, map (SendEvent \<circ> fst) built @ hot_data (concat (map snd built)) @ [RecordQuery True])))"

definition settle ::
    "bool \<Rightarrow> handler_env \<Rightarrow> nat \<Rightarrow> bytes \<Rightarrow> param_value stmt_cache
      \<Rightarrow> (param_value stmt_cache \<times> effect list) run option" where
  "settle oc env now data cache =
     (case extract_error oc data of
        Panic \<Rightarrow> Some Panic
      | Ret (Some error_msg) \<Rightarrow> Some (report_failure oc env now data error_msg cache)
      | Ret None \<Rightarrow>
          map_option (run_map (\<lambda>complete. if complete then report_success env now cache else (cache, [])))
            (is_query_complete oc data))"

text \<open>
  What the pool answers when the handler asks for the next connection: nothing, one that has been
  through its startup, or a new one.
\<close>

datatype reacquired = AcquireFailed | WarmBackend | FreshBackend backend_io

definition reacquire :: "bool \<Rightarrow> handler_env \<Rightarrow> reacquired \<Rightarrow> handler \<Rightarrow> (loop_state \<times> effect list) run option" where
  "reacquire oc env r h =
     (case r of
        AcquireFailed \<Rightarrow> Some (Ret (Failed, []))
      | WarmBackend \<Rightarrow> Some (Ret (Running h, [AcquireConnection]))
      | FreshBackend B \<Rightarrow>
          map_option (run_map (\<lambda>(result, sent).
            case result of
              Ready captured \<Rightarrow> (Running h, AcquireConnection # map StartBackend sent @ [StoreStartup captured])
            | StartupFailed _ \<Rightarrow> (Failed, AcquireConnection # map StartBackend sent)
            | Blocked \<Rightarrow> (Stuck, AcquireConnection # map StartBackend sent)))
            (initialize_backend_startup oc B (he_startup_bytes env)))"

definition disarm_deadline :: "handler_env \<Rightarrow> handler \<Rightarrow> handler" where
  "disarm_deadline env h =
     (if 0 < he_timeout_secs env \<and> \<not> has_pending [] (h_cache h) then h\<lparr>query_deadline := None\<rparr> else h)"

text \<open>The transaction status after a read, and whether the connection goes back to the pool.\<close>

definition track_status :: "handler_env \<Rightarrow> byte option \<Rightarrow> handler \<Rightarrow> handler \<times> bool" where
  "track_status env status h =
     (case status of
        None \<Rightarrow> (h, False)
      | Some s \<Rightarrow>
          (let txn = update_from_ready_for_query s (h_txn h)
           in (h\<lparr>h_txn := txn\<rparr>,
               is_in_transaction (h_txn h) \<and> is_idle txn \<and> should_release_connection (he_strategy env) (h_conn h))))"

definition backend_read ::
    "bool \<Rightarrow> handler_env \<Rightarrow> nat \<Rightarrow> step_io \<Rightarrow> reacquired \<Rightarrow> bytes \<Rightarrow> handler \<Rightarrow> (loop_state \<times> effect list) run option" where
  "backend_read oc env now io r data h =
     (case settle oc env now data (h_cache h) of
        None \<Rightarrow> None
      | Some Panic \<Rightarrow> Some Panic
      | Some (Ret (c, reports)) \<Rightarrow>
          (let h1 = disarm_deadline env (h\<lparr>h_cache := c\<rparr>)
           in case extract_ready_for_query oc data of
                None \<Rightarrow> None
              | Some Panic \<Rightarrow> Some Panic
              | Some (Ret status) \<Rightarrow>
                  (let (h2, give_up) = track_status env status h1
                   in if \<not> first_write io then Some (Ret (Failed, reports))
                      else if give_up then
                        map_option (run_map (\<lambda>(st, more). (st, reports @ [ToClient data, ReleaseConnection] @ more)))
                          (reacquire oc env r h2)
                      else Some (Ret (Running h2, reports @ [ToClient data])))))"

section \<open>The loop\<close>

text \<open>The query deadline: the arm of the \<open>select!\<close> is enabled while a deadline is set and passed.\<close>

definition deadline_expired ::
    "bool \<Rightarrow> handler_env \<Rightarrow> nat \<Rightarrow> step_io \<Rightarrow> handler \<Rightarrow> (loop_state \<times> effect list) run" where
  "deadline_expired oc env now io h =
     (case query_deadline h of
        Some d \<Rightarrow>
          if 0 < he_timeout_secs env \<and> d \<le> now then
            run_map (\<lambda>err.
                (Finished (h\<lparr>h_conn := mark_unknown_command (h_conn h)\<rparr>),
                 [RecordQuery False, RecordQueryTimeout]
                 @ (if first_write io then [ToClient err] else [])
                 @ (if second_write io then [ToClient (build_ready_for_query (h_txn h))] else [])))
              (build_error_response oc (lit ''ERROR'') (lit ''57014'') (lit ''canceling statement due to query timeout''))
          else Ret (Running h, [])
      | None \<Rightarrow> Ret (Running h, []))"

text \<open>What the \<open>select!\<close> delivers; an empty read is the end of the stream.\<close>

datatype input = ClientData bytes | ClientReadFailed | BackendData bytes reacquired | BackendReadFailed
  | DeadlineExpired

definition step ::
    "bool \<Rightarrow> unicode \<Rightarrow> float_text \<Rightarrow> handler_env \<Rightarrow> nat \<Rightarrow> step_io \<Rightarrow> input \<Rightarrow> handler
      \<Rightarrow> (loop_state \<times> effect list) run option" where
  "step oc U F env now io inp h =
     (case inp of
        ClientData data \<Rightarrow>
          if data = [] then Some (Ret (Finished h, [])) else Some (client_read oc U F env now io data h)
      | ClientReadFailed \<Rightarrow> Some (Ret (Finished h, []))
      | BackendData data r \<Rightarrow>
          if data = [] then Some (Ret (Finished h, [])) else backend_read oc env now io r data h
      | BackendReadFailed \<Rightarrow> Some (Ret (Finished h, []))
      | DeadlineExpired \<Rightarrow> Some (deadline_expired oc env now io h))"

text \<open>
  The loop over a sequence of inputs.  A handler that leaves the loop gives its connection back.
\<close>

fun session ::
    "bool \<Rightarrow> unicode \<Rightarrow> float_text \<Rightarrow> handler_env \<Rightarrow> (nat \<times> step_io \<times> input) list \<Rightarrow> handler
      \<Rightarrow> (loop_state \<times> effect list) run option" where
  "session oc U F env [] h = Some (Ret (Running h, []))"
| "session oc U F env ((now, io, inp) # rest) h =
     (case step oc U F env now io inp h of
        None \<Rightarrow> None
      | Some Panic \<Rightarrow> Some Panic
      | Some (Ret (Running h', effs)) \<Rightarrow>
          map_option (run_map (\<lambda>(st, more). (st, effs @ more))) (session oc U F env rest h')
      | Some (Ret (Finished h', effs)) \<Rightarrow> Some (Ret (Finished h', effs @ [ReleaseConnection]))
      | Some (Ret (Failed, effs)) \<Rightarrow> Some (Ret (Failed, effs))
      | Some (Ret (Stuck, effs)) \<Rightarrow> Some (Ret (Stuck, effs)))"

text \<open>
  The handler on a connection from the pool: \<open>captured\<close> is the startup response stored with it.
\<close>

definition handle_with_managed_connection ::
    "bool \<Rightarrow> unicode \<Rightarrow> float_text \<Rightarrow> handler_env \<Rightarrow> nat \<Rightarrow> client_auth \<Rightarrow> (nat \<Rightarrow> bool) \<Rightarrow> backend_io \<Rightarrow> bytes option
      \<Rightarrow> (nat \<times> step_io \<times> input) list \<Rightarrow> (loop_state \<times> effect list) run option" where
  "handle_with_managed_connection oc U F env max_prepared auth cw B captured inputs =
     (case (case captured of
              Some c \<Rightarrow> Some (run_map (\<lambda>(result, out). (result, [ToClient out])) (replay_startup_to_client auth cw c))
            | None \<Rightarrow>
                map_option (run_map (\<lambda>(result, out, sent).
                  case result of
                    Ready (response, startup_bytes) \<Rightarrow>
                      (Ready startup_bytes, ToClient out # map StartBackend sent @ [StoreStartup response])
                  | StartupFailed e \<Rightarrow> (StartupFailed e, ToClient out # map StartBackend sent)
                  | Blocked \<Rightarrow> (Blocked, ToClient out # map StartBackend sent)))
                  (perform_startup_handshake_capturing oc auth cw B)) of
        None \<Rightarrow> None
      | Some Panic \<Rightarrow> Some Panic
      | Some (Ret (StartupFailed _, effs)) \<Rightarrow> Some (Ret (Failed, effs))
      | Some (Ret (Blocked, effs)) \<Rightarrow> Some (Ret (Stuck, effs))
      | Some (Ret (Ready startup_bytes, effs)) \<Rightarrow>
          map_option (run_map (\<lambda>(st, more). (st, effs @ more)))
            (session oc U F (env\<lparr>he_startup_bytes := startup_bytes\<rparr>) inputs (new_handler max_prepared)))"

section \<open>A backend of its own\<close>

text \<open>
  Without a pool the two directions run as separate loops that share the statement cache.  There is
  no validation and no tracking; a completed query gives one event for its whole text.
\<close>

definition owned_message :: "float_text \<Rightarrow> nat \<Rightarrow> message \<Rightarrow> param_value stmt_cache \<Rightarrow> param_value stmt_cache run" where
  "owned_message F now msg cache =
     (case msg of
        Parse name query param_oids \<Rightarrow>
          Ret (set_pending [] (pend now query [] True)
                 (insert_statement name \<lparr>ps_query = query, ps_param_oids = param_oids\<rparr> cache))
      | Bind portal statement format_codes params_raw \<Rightarrow>
          run_map (\<lambda>(query, params, partial, c). set_pending portal (pend now query params partial) c)
            (bind_query F cache statement format_codes params_raw)
      | Query query \<Rightarrow> Ret (set_pending [] (pend now query [] False) cache)
      | Close kind name \<Rightarrow>
          Ret (if kind = 83 then remove_statement name cache
               else if kind = 80 then clear_pending name cache else cache)
      | _ \<Rightarrow> Ret cache)"

fun owned_messages :: "float_text \<Rightarrow> nat \<Rightarrow> message list \<Rightarrow> param_value stmt_cache \<Rightarrow> param_value stmt_cache run" where
  "owned_messages F now [] cache = Ret cache"
| "owned_messages F now (msg # msgs) cache = run_bind (owned_message F now msg cache) (owned_messages F now msgs)"

record owned =
  ow_buffer :: bytes
  ow_cache :: "param_value stmt_cache"

text \<open>One read of each direction; \<open>False\<close> is the end of that loop and with it of the handler.\<close>

definition owned_client_read ::
    "bool \<Rightarrow> float_text \<Rightarrow> nat \<Rightarrow> bool \<Rightarrow> bytes option \<Rightarrow> owned \<Rightarrow> (bool \<times> owned \<times> effect list) run" where
  "owned_client_read oc F now write_ok read s =
     (case read of
        None \<Rightarrow> Ret (False, s, [])
      | Some data \<Rightarrow>
          if data = [] then Ret (False, s, [])
          else run_bind (extract_messages oc (ow_buffer s) data) (\<lambda>(msgs, buf).
                 run_map (\<lambda>c. if write_ok then (True, \<lparr>ow_buffer = buf, ow_cache = c\<rparr>, [ToBackend data])
                              else (False, \<lparr>ow_buffer = buf, ow_cache = c\<rparr>, []))
                   (owned_messages F now msgs (ow_cache s))))"

definition owned_success :: "handler_env \<Rightarrow> nat \<Rightarrow> param_value stmt_cache \<Rightarrow> param_value stmt_cache \<times> effect list" where
  "owned_success env now cache =
     (case take_pending [] cache of
        (None, c) \<Rightarrow> (c, [])
      | (Some p, c) \<Rightarrow>
          (c, (case event_for env p now (pe_query p) True None of
                 None \<Rightarrow> []
               | Some (event, fingerprints) \<Rightarrow> SendEvent event # hot_data fingerprints) @ [RecordQuery True]))"

definition owned_backend_read ::
    "bool \<Rightarrow> handler_env \<Rightarrow> nat \<Rightarrow> bool \<Rightarrow> bytes option \<Rightarrow> owned \<Rightarrow> (bool \<times> owned \<times> effect list) run option" where
  "owned_backend_read oc env now write_ok read s =
     (case read of
        None \<Rightarrow> Some (Ret (False, s, []))
      | Some data \<Rightarrow>
          if data = [] then Some (Ret (False, s, []))
          else map_option (run_map (\<lambda>(c, reports).
                 if write_ok then (True, s\<lparr>ow_cache := c\<rparr>, reports @ [ToClient data])
                 else (False, s\<lparr>ow_cache := c\<rparr>, reports)))
               (case extract_error oc data of
                  Panic \<Rightarrow> Some Panic
                | Ret (Some error_msg) \<Rightarrow> Some (report_failure oc env now data error_msg (ow_cache s))
                | Ret None \<Rightarrow>
                    map_option (run_map (\<lambda>complete. if complete then owned_success env now (ow_cache s) else (ow_cache s, [])))
                      (is_query_complete oc data)))"

section \<open>What is forwarded\<close>

fun to_backend :: "effect list \<Rightarrow> bytes" where
  "to_backend [] = []"
| "to_backend (ToBackend data # es) = data @ to_backend es"
| "to_backend (_ # es) = to_backend es"

fun to_client :: "effect list \<Rightarrow> bytes" where
  "to_client [] = []"
| "to_client (ToClient data # es) = data @ to_client es"
| "to_client (_ # es) = to_client es"

fun sent_by_client :: "(nat \<times> step_io \<times> input) list \<Rightarrow> bytes" where
  "sent_by_client [] = []"
| "sent_by_client ((_, _, ClientData data) # is) = data @ sent_by_client is"
| "sent_by_client (_ # is) = sent_by_client is"

fun sent_by_backend :: "(nat \<times> step_io \<times> input) list \<Rightarrow> bytes" where
  "sent_by_backend [] = []"
| "sent_by_backend ((_, _, BackendData data _) # is) = data @ sent_by_backend is"
| "sent_by_backend (_ # is) = sent_by_backend is"

lemma forwarded_append [simp]:
  "to_backend (es @ fs) = to_backend es @ to_backend fs" "to_client (es @ fs) = to_client es @ to_client fs"
proof -
  show "to_backend (es @ fs) = to_backend es @ to_backend fs"
    by (induction es rule: to_backend.induct) simp_all
  show "to_client (es @ fs) = to_client es @ to_client fs"
    by (induction es rule: to_client.induct) simp_all
qed

text \<open>Effects that write nothing to either side.\<close>

definition silent :: "effect list \<Rightarrow> bool" where
  "silent es = list_all (\<lambda>e. case e of ToBackend _ \<Rightarrow> False | ToClient _ \<Rightarrow> False | ReleaseConnection \<Rightarrow> False | _ \<Rightarrow> True) es"

lemma silent_simps [simp]:
  "silent []" "silent (e # f # es) = (silent [e] \<and> silent (f # es))" "silent (es @ fs) = (silent es \<and> silent fs)"
  "silent [SendEvent ev]" "silent [RecordHotData fps]" "silent [RecordQuery b]" "silent [RecordQueryTimeout]"
  "silent [AcquireConnection]" "silent [StartBackend bs]" "silent [StoreStartup bs]"
  "silent (SendEvent ev # es) = silent es" "silent (AcquireConnection # es) = silent es"
  "\<not> silent [ToClient bs]" "\<not> silent [ToBackend bs]" "\<not> silent [ReleaseConnection]"
  by (simp_all add: silent_def)

lemma silent_forwarded: "silent es \<Longrightarrow> to_backend es = []" "silent es \<Longrightarrow> to_client es = []"
  "silent es \<Longrightarrow> ReleaseConnection \<notin> set es"
proof -
  show "silent es \<Longrightarrow> to_backend es = []" by (induction es rule: to_backend.induct) (auto simp: silent_def)
  show "silent es \<Longrightarrow> to_client es = []" by (induction es rule: to_client.induct) (auto simp: silent_def)
  show "silent es \<Longrightarrow> ReleaseConnection \<notin> set es" by (induction es) (auto simp: silent_def)
qed

lemma silent_map [simp]: "silent (map StartBackend xs)" "silent (map (SendEvent \<circ> f) ys)" "silent (hot_data fps)"
  by (auto simp: silent_def list_all_iff hot_data_def)

lemma report_failure_silent: "report_failure oc env now data e c = Ret (c', es) \<Longrightarrow> silent es"
  by (auto simp: report_failure_def run_map_def run_bind_Ret_iff split: prod.splits option.splits)

lemma report_success_silent: "report_success env now c = (c', es) \<Longrightarrow> silent es"
  by (auto simp: report_success_def Let_def split: prod.splits option.splits)

lemma settle_silent: "settle oc env now data c = Some (Ret (c', es)) \<Longrightarrow> silent es"
  by (auto simp: settle_def run_map_def run_bind_Ret_iff split: run.splits option.splits if_splits
      dest: report_failure_silent report_success_silent)

lemma reacquire_silent:
  assumes "reacquire oc env r h = Some (Ret (st, es))"
  shows "silent es" and "st = Running h' \<Longrightarrow> h' = h"
proof -
  have "silent es \<and> (\<forall>h'. st = Running h' \<longrightarrow> h' = h)"
  proof (cases r)
    case (FreshBackend B)
    then obtain result sent where "initialize_backend_startup oc B (he_startup_bytes env) = Some (Ret (result, sent))"
      using assms by (auto simp: reacquire_def run_map_def run_bind_Ret_iff)
    then show ?thesis using assms FreshBackend by (cases result) (auto simp: reacquire_def)
  qed (use assms in \<open>auto simp: reacquire_def\<close>)
  then show "silent es" and "st = Running h' \<Longrightarrow> h' = h" by auto
qed

lemma validate_other_modes: "mode \<noteq> TransactionMode \<Longrightarrow> validate U mode sql t = Ret (Inr ())"
  by (simp add: validate_def)

lemma client_messages_accepted:
  assumes "pooling_mode_of (he_strategy env) \<noteq> TransactionMode"
    and "client_messages U F env now i msgs h = Ret (h', v)"
  shows "v = GoOn \<or> v = TerminateNow"
  using assms(2)
proof (induction msgs arbitrary: i h)
  case (Cons msg msgs)
  then obtain h1 v1 where m: "client_message U F env now i msg h = Ret (h1, v1)"
      "(if v1 = GoOn then client_messages U F env now (i + 1) msgs h1 else Ret (h1, v1)) = Ret (h', v)"
    by (auto simp: run_bind_Ret_iff)
  have "v1 = GoOn \<or> v1 = TerminateNow"
    using m(1) validate_other_modes [OF assms(1)]
    by (cases msg) (auto simp: client_message_def run_map_def run_bind_Ret_iff split: if_splits)
  then show ?case using m(2) Cons.IH [of "i + 1" h1] by (auto split: if_splits)
qed simp

lemma client_read_running:
  assumes "pooling_mode_of (he_strategy env) \<noteq> TransactionMode"
    and "client_read oc U F env now io data h = Ret (Running h', es)"
  shows "es = [ToBackend data]"
proof -
  obtain msgs buf h1 v where "client_messages U F env now 0 msgs (h\<lparr>frontend_buffer := buf\<rparr>) = Ret (h1, v)"
      "after_messages env now io data h1 v = (Running h', es)"
    using assms(2) by (auto simp: client_read_def run_map_def run_bind_Ret_iff)
  then show ?thesis
    using client_messages_accepted [OF assms(1)] by (fastforce simp: after_messages_def split: if_splits)
qed

lemma disarm_deadline_simps [simp]:
  "h_txn (disarm_deadline env h) = h_txn h" "h_conn (disarm_deadline env h) = h_conn h"
  "h_cache (disarm_deadline env h) = h_cache h" "frontend_buffer (disarm_deadline env h) = frontend_buffer h"
  by (simp_all add: disarm_deadline_def)

text \<open>A read from the backend: what it reports, what it passes on, and when it gives the connection up.\<close>

lemma backend_read_effects:
  assumes "backend_read oc env now io r data h = Some (Ret (st, es))" and "st \<noteq> Failed \<or> ReleaseConnection \<in> set es"
  obtains c reports status more where
    "settle oc env now data (h_cache h) = Some (Ret (c, reports))" "silent reports" "silent more"
    "extract_ready_for_query oc data = Some (Ret status)"
    "es = reports @ ToClient data # (if snd (track_status env status (disarm_deadline env (h\<lparr>h_cache := c\<rparr>)))
        then ReleaseConnection # more else [])"
proof -
  obtain c reports where s: "settle oc env now data (h_cache h) = Some (Ret (c, reports))"
    using assms(1) by (auto simp: backend_read_def split: option.splits run.splits)
  obtain status where x: "extract_ready_for_query oc data = Some (Ret status)"
    using assms(1) s by (auto simp: backend_read_def Let_def split: option.splits run.splits)
  let ?t = "track_status env status (disarm_deadline env (h\<lparr>h_cache := c\<rparr>))"
  have sil: "silent reports" by (rule settle_silent [OF s])
  show ?thesis
  proof (cases "snd ?t")
    case True
    have "first_write io" using assms s x silent_forwarded(3) [OF sil] by (auto simp: backend_read_def Let_def split: prod.splits if_splits)
    then obtain more where "reacquire oc env r (fst ?t) = Some (Ret (st, more))"
        "es = reports @ [ToClient data, ReleaseConnection] @ more"
      using assms(1) s x True by (auto simp: backend_read_def Let_def run_map_def run_bind_Ret_iff split: prod.splits)
    then show ?thesis using that [OF s sil _ x, of more] reacquire_silent(1) True by auto
  next
    case False
    then have "es = reports @ [ToClient data]"
      using assms s x silent_forwarded(3) [OF sil] by (auto simp: backend_read_def Let_def split: prod.splits if_splits)
    then show ?thesis using that [OF s sil _ x, of "[]"] False by simp
  qed
qed


lemma frame_part:
  assumes "a @ b = frame tag body" and "b \<noteq> []" and "4 + length body \<le> MAX_FRONTEND_MESSAGE_SIZE"
  shows "front_status a = NeedMore"
proof (cases "front_status a")
  case (FrameOf n)
  then have "n = 4 + length body" "n < length a"
    using front.frame_stable [OF FrameOf, of b] front.frame_fits [OF FrameOf] front_status_frame [OF assms(3), of tag "[]"] assms(1)
    by simp_all
  moreover have "length a + length b = 5 + length body" using arg_cong [OF assms(1), of length] by simp
  ultimately show ?thesis using assms(2) by (cases b) auto
next
  case BadFrame
  then show ?thesis
    using front.bad_stable [OF BadFrame, of b] front_status_frame [OF assms(3), of tag "[]"] assms(1) by simp
qed simp

lemma extract_part:
  assumes "a @ b = frame tag body" and "b \<noteq> []" and "4 + length body \<le> MAX_FRONTEND_MESSAGE_SIZE"
  shows "extract_messages oc [] a = Ret ([], a)"
  using front.scan_need_more [OF disjI2 [OF frame_part [OF assms]], of "parse_payload oc"]
  by (simp add: extract_messages_def)

text \<open>A read that ends inside a DataRow: no scan finds anything in it.\<close>

lemma data_row_part:
  assumes "a @ b = frame 68 body" and "b \<noteq> []" and "5 \<le> length a" and "4 + length body < 2 ^ 31"
  shows "extract_error oc a = Ret None" and "is_query_complete oc a = Some (Ret False)"
    and "extract_ready_for_query oc a = Some (Ret None)"
proof -
  let ?n = "i32_from_be (a ! 1) (a ! 2) (a ! 3) (a ! 4)"
  have nth: "a ! i = frame 68 body ! i" if "i < 5" for i
    using that assms(3) by (simp add: nth_append flip: assms(1))
  have hd: "as_usize ?n = 4 + length body" "a ! 0 = 68"
    using frame_header [OF assms(4), of "[]" 68 "[]"] nth by (simp_all add: numeral_2_eq_2)
  have len: "length a < 5 + length body" "a \<noteq> []"
    using arg_cong [OF assms(1), of length] assms(2, 3) by (cases b; auto)+
  obtain c d e f where w: "be32 (int (4 + length body)) = [c, d, e, f]" by (rule be32_elems)
  have "i32_from_be c d e f = int (4 + length body)" by (rule i32_be32 [OF _ _ w]) (use assms(4) in simp_all)
  then have n: "?n = int (4 + length body)" using w nth by (simp add: frame_def)
  have inc: "incomplete a" using n len hd(2) by (simp add: incomplete_def Let_def msg_tags)
  have "find_error_loop oc a = Ret None"
    using assms(3) hd len by (subst find_error_loop.simps) (auto simp: Let_def msg_tags)
  then show "extract_error oc a = Ret None" using len(2) by (simp add: extract_error_def find_error_fields_def)
  show "is_query_complete oc a = Some (Ret False)"
    using complete_from_frames [of "[]" a "[]" oc] inc len assms(4) hd(2)
    by (simp add: is_query_complete_def back_valid_def msg_tags)
  show "extract_ready_for_query oc a = Some (Ret None)"
    using ready_from_frames [of "[]" a "[]" oc None] inc len assms(4)
    by (simp add: extract_ready_for_query_def back_valid_def)
qed

text \<open>The ReadyForQuery of an idle backend, read alone.\<close>

lemma idle_ready_scans:
  "extract_error oc (build_ready_for_query Idle) = Ret None"
  "is_query_complete oc (build_ready_for_query Idle) = Some (Ret True)"
  "extract_ready_for_query oc (build_ready_for_query Idle) = Some (Ret (Some 73))"
proof -
  have z: "build_ready_for_query Idle = frame MSG_READY_FOR_QUERY [73]"
    by (simp add: frame_def msg_tags be32_def byte_of_def)
  show "extract_error oc (build_ready_for_query Idle) = Ret None" unfolding z
    using find_error_skip [of "[73]" MSG_READY_FOR_QUERY oc "[]"]
    by (simp add: extract_error_def find_error_fields_def find_error_loop.simps [of oc "[]"] msg_tags)
  show "is_query_complete oc (build_ready_for_query Idle) = Some (Ret True)" unfolding z
    using complete_from_frames [of "[(MSG_READY_FOR_QUERY, [73])]" "[]" "[]" oc]
    by (simp add: is_query_complete_def back_valid_def incomplete_def)
  show "extract_ready_for_query oc (build_ready_for_query Idle) = Some (Ret (Some 73))" unfolding z
    using ready_from_frames [of "[(MSG_READY_FOR_QUERY, [73])]" "[]" "[]" oc None]
    by (simp add: extract_ready_for_query_def back_valid_def incomplete_def)
qed

definition example_env :: "pooling_strategy \<Rightarrow> handler_env" where
  "example_env strategy =
     \<lparr>he_strategy = strategy, he_anon = settings_from_config (example_sql Number) (\<lambda>_. []) True None Redact,
      he_timeout_secs = 0, he_connection_id = [], he_database = [], he_startup_bytes = []\<rparr>"

definition no_floats :: float_text where
  "no_floats = \<lparr>parse_f32 = (\<lambda>_. None), parse_f64 = (\<lambda>_. None)\<rparr>"

definition all_ok :: step_io where
  "all_ok = \<lparr>first_write = True, second_write = True, backend_write = True\<rparr>"

section \<open>Properties of the handler\<close>

text \<open>
  C3.  In session and hybrid mode the proxy is transparent: while a session runs, the backend has been
  sent exactly the bytes the client sent and the client exactly the bytes the backend sent, whatever
  the reads, the statements in them and the connections given up and taken over on the way.
\<close>

theorem session_transparent:
  assumes "pooling_mode_of (he_strategy env) \<noteq> TransactionMode"
    and "session oc U F env inputs h = Some (Ret (Running h', es))"
  shows "to_backend es = sent_by_client inputs \<and> to_client es = sent_by_backend inputs"
  using assms(2)
proof (induction inputs arbitrary: h es)
  case (Cons inp inputs)
  obtain now io i where i: "inp = (now, io, i)" by (cases inp)
  obtain h1 es1 es2 where s: "step oc U F env now io i h = Some (Ret (Running h1, es1))"
      "session oc U F env inputs h1 = Some (Ret (Running h', es2))" "es = es1 @ es2"
    using Cons.prems i
    by (auto simp: run_map_def run_bind_Ret_iff split: option.splits run.splits loop_state.splits)
  show ?case
  proof (cases i)
    case (ClientData data)
    then have "es1 = [ToBackend data]"
      using s(1) client_read_running [OF assms(1)] by (auto simp: step_def split: if_splits)
    then show ?thesis using Cons.IH [OF s(2)] s(3) i ClientData by simp
  next
    case (BackendData data r)
    then have b: "backend_read oc env now io r data h = Some (Ret (Running h1, es1))"
      using s(1) by (auto simp: step_def split: if_splits)
    have "to_backend es1 = [] \<and> to_client es1 = data"
      by (rule backend_read_effects [OF b]) (auto simp: silent_forwarded)
    then show ?thesis using Cons.IH [OF s(2)] s(3) i BackendData by simp
  next
    case DeadlineExpired
    then have "es1 = []"
      using s(1) by (auto simp: step_def deadline_expired_def run_map_def run_bind_Ret_iff split: option.splits if_splits)
    then show ?thesis using Cons.IH [OF s(2)] s(3) i DeadlineExpired by simp
  qed (use s(1) in \<open>simp_all add: step_def\<close>)
qed simp

theorem session_transparent_witness:
  "\<exists>h es. session False plain_tables no_floats (example_env PoolSession)
       [(0, all_ok, ClientData [81, 0]), (1, all_ok, BackendData [68, 0] WarmBackend), (2, all_ok, ClientData [0])] (new_handler 5)
     = Some (Ret (Running h, es)) \<and> to_backend es = [81, 0, 0] \<and> to_client es = [68, 0]"
proof -
  let ?in = "[(0, all_ok, ClientData [81, 0]), (1, all_ok, BackendData [68, 0] WarmBackend), (2, all_ok, ClientData [0])]"
  have x: "extract_error False [68, 0] = Ret None" "is_query_complete False [68, 0] = Some (Ret False)"
      "extract_ready_for_query False [68, 0] = Some (Ret None)"
    using complete_from_frames [of "[]" "[68, 0]" "[]" False] ready_from_frames [of "[]" "[68, 0]" "[]" False None]
    by (simp_all add: extract_error_def find_error_fields_def find_error_loop.simps is_query_complete_def
        extract_ready_for_query_def back_valid_def incomplete_def)
  obtain h es where r: "session False plain_tables no_floats (example_env PoolSession) ?in (new_handler 5) = Some (Ret (Running h, es))"
    using x
    by (simp add: step_def client_read_def backend_read_def settle_def track_status_def extract_messages_def front_status_def
        after_messages_def arm_deadline_def disarm_deadline_def example_env_def all_ok_def new_handler_def)
  have "pooling_mode_of (he_strategy (example_env PoolSession)) \<noteq> TransactionMode" by (simp add: example_env_def)
  from session_transparent [OF this r] r show ?thesis by auto
qed

text \<open>
  C4.  A connection is given up in mid-session only when the strategy pools transactions, nothing
  pins the connection and the read ends a transaction, and only after that read has been passed on
  to the client.
\<close>

theorem release_needs_clean_connection:
  assumes "backend_read oc env now io r data h = Some (Ret (st, es))" and "ReleaseConnection \<in> set es"
  shows "he_strategy env \<in> {PoolTransaction, PoolHybrid} \<and> pin_reasons (h_conn h) = {}
    \<and> is_in_transaction (h_txn h) \<and> extract_ready_for_query oc data = Some (Ret (Some 73))
    \<and> (\<exists>pre post. es = pre @ [ToClient data, ReleaseConnection] @ post \<and> silent pre \<and> silent post)"
proof (rule backend_read_effects [OF assms(1)])
  show "st \<noteq> Failed \<or> ReleaseConnection \<in> set es" using assms(2) by simp
  fix c reports status more
  assume sil: "silent reports" "silent more" and x: "extract_ready_for_query oc data = Some (Ret status)"
    and es: "es = reports @ ToClient data # (if snd (track_status env status (disarm_deadline env (h\<lparr>h_cache := c\<rparr>)))
        then ReleaseConnection # more else [])"
  have t: "snd (track_status env status (disarm_deadline env (h\<lparr>h_cache := c\<rparr>)))"
    using assms(2) es silent_forwarded(3) [OF sil(1)] by (auto split: if_splits)
  then obtain s where "status = Some s" "is_in_transaction (h_txn h)"
      "is_idle (update_from_ready_for_query s (h_txn h))" "should_release_connection (he_strategy env) (h_conn h)"
    by (auto simp: track_status_def Let_def split: option.splits)
  moreover from this have "s = 73"
    by (auto simp: update_from_ready_for_query_def is_idle_def is_in_transaction_def split: if_splits)
  moreover have "he_strategy env \<in> {PoolTransaction, PoolHybrid} \<and> \<not> is_pinned (h_conn h)"
    using calculation by (cases "he_strategy env") auto
  ultimately show ?thesis
    using x es t sil pin_reasons_pinned [of _ "h_conn h"] by auto
qed

theorem release_needs_clean_connection_witness:
  "let h = (new_handler 5)\<lparr>h_txn := InTransaction\<rparr>; data = build_ready_for_query Idle
   in \<exists>st es pre post. backend_read False (example_env PoolHybrid) 7 all_ok WarmBackend data h = Some (Ret (st, es))
      \<and> es = pre @ [ToClient data, ReleaseConnection] @ post \<and> pin_reasons (h_conn h) = {}"
proof -
  let ?h = "(new_handler 5)\<lparr>h_txn := InTransaction\<rparr>" and ?z = "build_ready_for_query Idle"
  obtain st es where r: "backend_read False (example_env PoolHybrid) 7 all_ok WarmBackend ?z ?h = Some (Ret (st, es))"
      and i: "ReleaseConnection \<in> set es"
    using idle_ready_scans [of False]
    by (simp add: backend_read_def settle_def report_success_def take_pending_def track_status_def reacquire_def example_env_def
        all_ok_def new_handler_def new_cache_def update_from_ready_for_query_def is_idle_def is_in_transaction_def is_pinned_def
        new_conn_state_def disarm_deadline_def del: build_ready_for_query.simps)
  from release_needs_clean_connection [OF r i] r show ?thesis unfolding Let_def by blast
qed

text \<open>
  C38.  A message that is refused after it arrived in two reads leaves its first part on the backend
  connection: the read with the first part has been forwarded, the one with the rest is dropped.
\<close>

theorem rejected_message_half_forwarded:
  assumes "a @ b = encode_message (Query q)" and "a \<noteq> []" and "b \<noteq> []" and "sendable (Query q)"
    and "he_strategy env = PoolTransaction" and "frontend_buffer h = []" and "he_timeout_secs env = 0"
    and "validate U TransactionMode q (is_in_transaction (h_txn h)) = Ret (Inl e)"
    and "first_write io" and "second_write io" and "backend_write io"
  shows "session oc U F env [(t1, io, ClientData a), (t2, io, ClientData b)] h
    = Some (Ret (Running h, [ToBackend a, ToClient (mode_error_response e), ToClient (build_ready_for_query (h_txn h))]))"
proof -
  have small: "4 + length (cstr q) \<le> MAX_FRONTEND_MESSAGE_SIZE" and f: "encode_message (Query q) = frame MSG_QUERY (cstr q)"
    using assms(4) by (simp_all add: sendable_def encode_message_def)
  have x1: "extract_messages oc [] a = Ret ([], a)" by (rule extract_part [OF assms(1) [unfolded f] assms(3) small])
  have x2: "extract_messages oc a b = Ret ([Query q], [])"
    using scan_encoded [of "[Query q]" oc] assms(1, 4) by (simp add: extract_messages_def)
  have h: "h\<lparr>frontend_buffer := []\<rparr> = h" using assms(6) by simp
  have r1: "client_read oc U F env t1 io a h = Ret (Running (h\<lparr>frontend_buffer := a\<rparr>), [ToBackend a])"
    using x1 assms(6, 7, 11) by (simp add: client_read_def after_messages_def arm_deadline_def)
  have r2: "client_read oc U F env t2 io b (h\<lparr>frontend_buffer := a\<rparr>)
      = Ret (Running h, [ToClient (mode_error_response e), ToClient (build_ready_for_query (h_txn h))])"
    using x2 assms(5, 7-10) h
    by (simp add: client_read_def client_message_def after_messages_def arm_deadline_def)
  show ?thesis using r1 r2 assms(2, 3) by (simp add: step_def)
qed

theorem rejected_message_half_forwarded_witness:
  "\<exists>e. session False plain_tables no_floats (example_env PoolTransaction)
       [(0, all_ok, ClientData (take 3 (encode_message (Query (lit ''SET a = 1''))))),
        (1, all_ok, ClientData (drop 3 (encode_message (Query (lit ''SET a = 1'')))))] (new_handler 5)
     = Some (Ret (Running (new_handler 5), [ToBackend (take 3 (encode_message (Query (lit ''SET a = 1'')))),
         ToClient (mode_error_response e), ToClient (build_ready_for_query (h_txn (new_handler 5)))]))"
proof (rule exI, rule rejected_message_half_forwarded)
  let ?q = "lit ''SET a = 1''" and ?e = "lit ''session variables not supported in transaction pooling mode''"
  show "validate plain_tables TransactionMode ?q (is_in_transaction (h_txn (new_handler 5))) = Ret (Inl ?e)"
    by (simp add: validate_def detector_eval new_handler_def is_in_transaction_def)
  have l: "length (encode_message (Query ?q)) = 15"
    by (simp add: encode_message_def lit_def blen_def len_utf8_def)
  show "take 3 (encode_message (Query ?q)) \<noteq> []" "drop 3 (encode_message (Query ?q)) \<noteq> []"
    using l by auto
  show "sendable (Query ?q)"
    by (simp add: sendable_def c_text_def scalar_def lit_def MAX_FRONTEND_MESSAGE_SIZE_def blen_def len_utf8_def)
qed (simp_all add: example_env_def all_ok_def new_handler_def)

text \<open>
  A Terminate is taken to be the first message of its read when it is the first that was
  recognised: messages before it of a type the extractor skips, such as CopyData and CopyDone, are
  dropped with it.
\<close>

lemma terminate_drops_unrecognised:
  assumes "tag \<notin> {MSG_QUERY, MSG_PARSE, MSG_BIND, MSG_EXECUTE, MSG_CLOSE, MSG_SYNC, MSG_TERMINATE}"
    and "4 + length body \<le> MAX_FRONTEND_MESSAGE_SIZE" and "frontend_buffer h = []"
  shows "session oc U F env [(t, io, ClientData (frame tag body @ frame MSG_TERMINATE []))] h
    = Some (Ret (Finished h, [ReleaseConnection]))"
proof -
  have p: "parse_payload oc tag body = Ret None" using assms(1) by (simp add: parse_payload_def)
  have "scan_frames front_status (parse_payload oc) (frame MSG_TERMINATE []) = Ret ([Terminate], [], False)"
    using scan_encoded [of "[Terminate]" oc]
    by (simp add: encode_message_def sendable_def MAX_FRONTEND_MESSAGE_SIZE_def)
  then have x: "extract_messages oc [] (frame tag body @ frame MSG_TERMINATE []) = Ret ([Terminate], [])"
    using scan_frame [OF assms(2), of "parse_payload oc" tag "frame MSG_TERMINATE []"] p
    by (simp add: extract_messages_def)
  then show ?thesis
    using assms(3)
    by (simp add: step_def client_read_def client_message_def should_intercept_terminate_def after_messages_def)
qed

text \<open>
  C37.  The scans of a read start at its first byte, not at a message: when a row is cut so that a read
  begins inside its data, and that data spells a ReadyForQuery, the connection is given up in the
  middle of the client's transaction, although the backend has sent part of one DataRow only.
\<close>

theorem forged_ready_releases:
  assumes "a @ build_ready_for_query Idle = frame 68 body" and "5 \<le> length a" and "4 + length body < 2 ^ 31"
    and "he_strategy env \<in> {PoolTransaction, PoolHybrid}" and "\<not> is_pinned (h_conn h)" and "is_in_transaction (h_txn h)"
    and "first_write io"
  shows "\<exists>h' es. session oc U F env [(t1, io, BackendData a r), (t2, io, BackendData (build_ready_for_query Idle) WarmBackend)] h
      = Some (Ret (Running h', es)) \<and> ReleaseConnection \<in> set es"
proof -
  let ?z = "build_ready_for_query Idle"
  have ne: "?z \<noteq> []" by simp
  note a = data_row_part [OF assms(1) _ assms(2, 3)]
  have a1: "extract_error oc a = Ret None" "is_query_complete oc a = Some (Ret False)"
      "extract_ready_for_query oc a = Some (Ret None)"
    using a by simp_all
  note z1 = idle_ready_scans [of oc]
  let ?h1 = "disarm_deadline env h"
  have r1: "step oc U F env t1 io (BackendData a r) h = Some (Ret (Running ?h1, [ToClient a]))"
    using a1 assms(2, 7) by (auto simp: step_def backend_read_def settle_def track_status_def)
  have rel: "should_release_connection (he_strategy env) (h_conn h)" using assms(4, 5) by auto
  have "\<exists>h' es. step oc U F env t2 io (BackendData ?z WarmBackend) ?h1 = Some (Ret (Running h', es)) \<and> ReleaseConnection \<in> set es"
  proof -
    obtain c reports where s: "report_success env t2 (h_cache h) = (c, reports)" by fastforce
    then show ?thesis
      using z1 ne rel assms(6, 7)
      by (simp add: step_def backend_read_def settle_def track_status_def reacquire_def
          update_from_ready_for_query_def is_idle_def del: build_ready_for_query.simps)
  qed
  then show ?thesis using r1 by (auto simp del: build_ready_for_query.simps)
qed

theorem forged_ready_releases_witness:
  "\<exists>h' es. session False plain_tables no_floats (example_env PoolHybrid)
       [(0, all_ok, BackendData (take 12 (frame 68 ([0, 1, 0, 0, 0, 6, 65] @ build_ready_for_query Idle))) WarmBackend),
        (1, all_ok, BackendData (build_ready_for_query Idle) WarmBackend)] ((new_handler 5)\<lparr>h_txn := InTransaction\<rparr>)
      = Some (Ret (Running h', es)) \<and> ReleaseConnection \<in> set es"
  by (rule forged_ready_releases [where body = "[0, 1, 0, 0, 0, 6, 65] @ build_ready_for_query Idle"])
     (simp_all add: frame_def example_env_def all_ok_def new_handler_def new_conn_state_def is_pinned_def is_in_transaction_def)

end
