(* ===== verification/Rust_Net.thy ===== *)
theory Rust_Net
  imports Rust_Str
begin

text \<open>
  Socket addresses as text, the way the standard library parses them (\<open>str::parse::<SocketAddr>\<close>):
  a parser consumes a prefix and returns the rest, \<open>None\<close> when it does not match.  With it, the
  splitting of text into words and pairs that the configuration and the console use.
\<close>

definition radix_digit :: "nat \<Rightarrow> rchar \<Rightarrow> nat option" where
  [str_simps]: "radix_digit radix c =
     (if 48 \<le> c \<and> c \<le> 57 then Some (c - 48)
      else if radix = 16 \<and> 97 \<le> c \<and> c \<le> 102 then Some (c - 87)
      else if radix = 16 \<and> 65 \<le> c \<and> c \<le> 70 then Some (c - 55)
      else None)"

text \<open>At most \<open>limit\<close> digits, a value of at most \<open>hi\<close>, and leading zeros only where allowed.\<close>

definition read_number :: "nat \<Rightarrow> nat option \<Rightarrow> bool \<Rightarrow> nat \<Rightarrow> rstr \<Rightarrow> (nat \<times> rstr) option" where
  [str_simps]: "read_number radix limit allow_zero_prefix hi s =
     (let ds = takeWhile (\<lambda>c. radix_digit radix c \<noteq> None) s;
          v = foldl (\<lambda>acc c. acc * radix + the (radix_digit radix c)) 0 ds
      in if ds = [] \<or> (case limit of Some m \<Rightarrow> m < length ds | None \<Rightarrow> False)
            \<or> \<not> allow_zero_prefix \<and> hd ds = 48 \<and> 1 < length ds \<or> hi < v
         then None else Some (v, drop (length ds) s))"

definition read_char :: "rchar \<Rightarrow> rstr \<Rightarrow> rstr option" where
  [str_simps]: "read_char q s = (case s of c # r \<Rightarrow> if c = q then Some r else None | [] \<Rightarrow> None)"

text \<open>The separator comes before every element but the first.\<close>

definition read_separated :: "rchar \<Rightarrow> bool \<Rightarrow> (rstr \<Rightarrow> ('a \<times> rstr) option) \<Rightarrow> rstr \<Rightarrow> ('a \<times> rstr) option" where
  [str_simps]: "read_separated q is_first p s = (if is_first then p s else Option.bind (read_char q s) p)"

fun read_octets :: "nat \<Rightarrow> bool \<Rightarrow> rstr \<Rightarrow> (nat list \<times> rstr) option" where
  "read_octets 0 is_first s = Some ([], s)"
| "read_octets (Suc n) is_first s =
     (case read_separated 46 is_first (read_number 10 (Some 3) False 255) s of
        None \<Rightarrow> None
      | Some (v, r) \<Rightarrow> map_option (\<lambda>(vs, r'). (v # vs, r')) (read_octets n False r))"

definition read_ipv4 :: "rstr \<Rightarrow> (nat list \<times> rstr) option" where
  [str_simps]: "read_ipv4 s = read_octets 4 True s"

text \<open>Up to \<open>n\<close> groups of an IPv6 address; a trailing IPv4 address stands for the last two.\<close>

fun read_groups :: "nat \<Rightarrow> bool \<Rightarrow> rstr \<Rightarrow> nat list \<times> bool \<times> rstr" where
  "read_groups 0 is_first s = ([], False, s)"
| "read_groups (Suc n) is_first s =
     (case (if n = 0 then None else read_separated 58 is_first read_ipv4 s) of
        Some (os, r) \<Rightarrow> ([os ! 0 * 256 + os ! 1, os ! 2 * 256 + os ! 3], True, r)
      | None \<Rightarrow>
          (case read_separated 58 is_first (read_number 16 (Some 4) True 65535) s of
             None \<Rightarrow> ([], False, s)
           | Some (g, r) \<Rightarrow> (let (gs, v4, r') = read_groups n False r in (g # gs, v4, r'))))"

definition read_ipv6 :: "rstr \<Rightarrow> (nat list \<times> rstr) option" where
  [str_simps]: "read_ipv6 s =
     (let (head, v4, r) = read_groups 8 True s
      in if length head = 8 then Some (head, r)
         else if v4 then None
         else case Option.bind (read_char 58 r) (read_char 58) of
           None \<Rightarrow> None
         | Some r' \<Rightarrow>
             (let (tail, _, r'') = read_groups (7 - length head) True r'
              in Some (head @ replicate (8 - length head - length tail) 0 @ tail, r'')))"

datatype ip_addr = V4 "nat list" | V6 "nat list"

definition read_port :: "rstr \<Rightarrow> (nat \<times> rstr) option" where
  [str_simps]: "read_port s = Option.bind (read_char 58 s) (read_number 10 None True 65535)"

text \<open>A scope such as \<open>%1\<close> is optional; when it does not parse, nothing of it is consumed.\<close>

definition skip_scope_id :: "rstr \<Rightarrow> rstr" where
  [str_simps]: "skip_scope_id s =
     (case Option.bind (read_char 37 s) (read_number 10 None True 4294967295) of Some (_, r) \<Rightarrow> r | None \<Rightarrow> s)"

definition parse_socket_addr :: "rstr \<Rightarrow> (ip_addr \<times> nat) option" where
  [str_simps]: "parse_socket_addr s =
     (case (case Option.bind (read_ipv4 s) (\<lambda>(ip, r). map_option (\<lambda>(p, r'). (V4 ip, p, r')) (read_port r)) of
              Some a \<Rightarrow> Some a
            | None \<Rightarrow>
                Option.bind (read_char 91 s) (\<lambda>r.
                  Option.bind (read_ipv6 r) (\<lambda>(ip, r1).
                    Option.bind (read_char 93 (skip_scope_id r1)) (\<lambda>r2.
                      map_option (\<lambda>(p, r'). (V6 ip, p, r')) (read_port r2))))) of
        Some (ip, p, []) \<Rightarrow> Some (ip, p)
      | _ \<Rightarrow> None)"

fun is_loopback :: "ip_addr \<Rightarrow> bool" where
  "is_loopback (V4 os) = (os ! 0 = 127)"
| "is_loopback (V6 gs) = (gs = [0, 0, 0, 0, 0, 0, 0, 1])"

section \<open>Words and pairs\<close>

function split_whitespace :: "rstr \<Rightarrow> rstr list" where
  "split_whitespace s =
     (let r = dropWhile is_whitespace s
      in if r = [] then []
         else takeWhile (\<lambda>c. \<not> is_whitespace c) r # split_whitespace (dropWhile (\<lambda>c. \<not> is_whitespace c) r))"
  by pat_completeness auto
termination
proof (relation "measure length", goal_cases)
  case (2 s r)
  then have "\<not> is_whitespace (hd r)" using hd_dropWhile [of is_whitespace s] by simp
  then have "length (dropWhile (\<lambda>c. \<not> is_whitespace c) r) < length r"
    using 2(2) by (cases r) (simp_all add: le_imp_less_Suc length_dropWhile_le)
  also have "\<dots> \<le> length s" using 2(1) by (simp add: length_dropWhile_le)
  finally show ?case by simp
qed simp

declare split_whitespace.simps [simp del]

definition split_once :: "rchar \<Rightarrow> rstr \<Rightarrow> (rstr \<times> rstr) option" where
  "split_once q s =
     (if q \<in> set s then Some (takeWhile (\<lambda>c. c \<noteq> q) s, tl (dropWhile (\<lambda>c. c \<noteq> q) s)) else None)"

section \<open>Examples\<close>

lemma read_octets_numeral [str_simps]:
  "read_octets (numeral k) is_first s =
     (case read_separated 46 is_first (read_number 10 (Some 3) False 255) s of
        None \<Rightarrow> None
      | Some (v, r) \<Rightarrow> map_option (\<lambda>(vs, r'). (v # vs, r')) (read_octets (pred_numeral k) False r))"
  by (simp add: numeral_eq_Suc)

lemma read_groups_numeral [str_simps]:
  "read_groups (numeral k) is_first s =
     (case (if pred_numeral k = 0 then None else read_separated 58 is_first read_ipv4 s) of
        Some (os, r) \<Rightarrow> ([os ! 0 * 256 + os ! 1, os ! 2 * 256 + os ! 3], True, r)
      | None \<Rightarrow>
          (case read_separated 58 is_first (read_number 16 (Some 4) True 65535) s of
             None \<Rightarrow> ([], False, s)
           | Some (g, r) \<Rightarrow> (let (gs, v4, r') = read_groups (pred_numeral k) False r in (g # gs, v4, r'))))"
  by (simp add: numeral_eq_Suc)

lemma parse_loopback_v4: "parse_socket_addr (lit ''127.0.0.1:9090'') = Some (V4 [127, 0, 0, 1], 9090)"
  by (simp add: str_simps Let_def)

lemma parse_loopback_v6: "parse_socket_addr (lit ''[::1]:9090'') = Some (V6 [0, 0, 0, 0, 0, 0, 0, 1], 9090)"
  by (simp add: str_simps Let_def) (simp add: numeral_eq_Suc)

lemma parse_bad_addresses:
  "parse_socket_addr (lit ''localhost:9090'') = None"
  "parse_socket_addr (lit ''127.0.0.01:9090'') = None"
  "parse_socket_addr (lit ''127.0.0.1:70000'') = None"
  by (simp_all add: str_simps Let_def)

section \<open>Printed addresses\<close>

lemma show_nat_hd: "hd (show_nat n) = 48 \<Longrightarrow> length (show_nat n) = 1"
proof (induction n rule: show_nat.induct)
  case (1 n)
  show ?case
  proof (cases "n < 10")
    case True
    then show ?thesis by (simp add: show_nat.simps [of n])
  next
    case False
    then have s: "show_nat n = show_nat (n div 10) @ [48 + n mod 10]" by (simp add: show_nat.simps [of n])
    have "length (show_nat (n div 10)) = 1" using 1 False s by simp
    moreover have "hd (show_nat (n div 10)) = 48" using 1(2) s by simp
    moreover have "show_nat (n div 10) \<noteq> [48]"
    proof (cases "n div 10 < 10")
      case True
      then show ?thesis using False by (simp add: show_nat.simps [of "n div 10"] div_eq_0_iff)
    next
      case False
      then have "1 < length (show_nat (n div 10))" by (simp add: show_nat.simps [of "n div 10"] Suc_lessI)
      then show ?thesis by auto
    qed
    ultimately show ?thesis by (cases "show_nat (n div 10)") auto
  qed
qed

lemma show_nat_length: "n < 1000 \<Longrightarrow> length (show_nat n) \<le> 3"
  by (simp add: show_nat.simps [of n] show_nat.simps [of "n div 10"] show_nat.simps [of "n div 10 div 10"])

lemma show_nat_value: "foldl (\<lambda>acc c. acc * 10 + the (radix_digit 10 c)) 0 (show_nat n) = n"
proof (induction n rule: show_nat.induct)
  case (1 n)
  show ?case
  proof (cases "n < 10")
    case True
    then show ?thesis by (simp add: show_nat.simps [of n] radix_digit_def)
  next
    case False
    have "radix_digit 10 (48 + n mod 10) = Some (n mod 10)"
      using mod_less_divisor [of 10 n] by (simp add: radix_digit_def)
    then show ?thesis using 1 False by (simp add: show_nat.simps [of n])
  qed
qed

lemma read_number_show:
  assumes "n \<le> hi" and "r = [] \<or> \<not> is_digit (hd r)" and "\<And>m. limit = Some m \<Longrightarrow> length (show_nat n) \<le> m"
  shows "read_number 10 limit z hi (show_nat n @ r) = Some (n, r)"
proof -
  have d: "(radix_digit 10 c \<noteq> None) = is_digit c" for c by (simp add: radix_digit_def is_digit_def)
  have "takeWhile is_digit (show_nat n @ r) = show_nat n @ takeWhile is_digit r"
    using show_nat_digits [of n] by (simp add: takeWhile_eq_all list_all_iff)
  also have "takeWhile is_digit r = []" using assms(2) by (cases r) auto
  finally have t: "takeWhile (\<lambda>c. radix_digit 10 c \<noteq> None) (show_nat n @ r) = show_nat n" unfolding d by simp
  have z: "\<not> (hd (show_nat n) = 48 \<and> 1 < length (show_nat n))" using show_nat_hd [of n] by auto
  show ?thesis
    unfolding read_number_def Let_def t show_nat_value using assms(1, 3) z by (auto simp: not_less split: option.splits)
qed

text \<open>A printed IPv4 socket address parses back, and is a loopback address when it starts with 127.\<close>

definition show_v4 :: "nat list \<Rightarrow> nat \<Rightarrow> rstr" where
  "show_v4 os p =
     show_nat (os ! 0) @ 46 # show_nat (os ! 1) @ 46 # show_nat (os ! 2) @ 46 # show_nat (os ! 3) @ 58 # show_nat p"

lemma parse_show_v4:
  assumes "a \<le> 255" "b \<le> 255" "c \<le> 255" "d \<le> 255" "p \<le> 65535"
  shows "parse_socket_addr (show_v4 [a, b, c, d] p) = Some (V4 [a, b, c, d], p)"
proof -
  have o: "read_number 10 (Some 3) False 255 (show_nat n @ q # r) = Some (n, q # r)"
    if "n \<le> 255" "q \<in> {46, 58}" for n q r
    using that show_nat_length [of n] by (intro read_number_show) (auto simp: is_digit_def)
  have v: "read_number 10 None True 65535 (show_nat p) = Some (p, [])"
    using read_number_show [of p 65535 "[]" None True] assms(5) by simp
  have "read_ipv4 (show_v4 [a, b, c, d] p) = Some ([a, b, c, d], 58 # show_nat p)"
    unfolding read_ipv4_def show_v4_def using assms
    by (simp add: read_octets_numeral read_separated_def read_char_def o)
  then show ?thesis by (simp add: parse_socket_addr_def read_port_def read_char_def v)
qed

section \<open>Case conversion of ASCII text\<close>

lemma to_lowercase_ascii: "ascii s \<Longrightarrow> to_lowercase U s = map ascii_lower s"
proof -
  assume a: "ascii s"
  have "to_lowercase U s = concat (map (\<lambda>i. [ascii_lower (s ! i)]) [0..<length s])"
    unfolding to_lowercase_def using a
    by (intro arg_cong [where f = concat] map_cong) (auto simp: ascii_def list_all_iff)
  also have "\<dots> = map (\<lambda>i. ascii_lower (s ! i)) [0..<length s]" by (rule concat_map_singleton)
  also have "\<dots> = map ascii_lower (map ((!) s) [0..<length s])" by simp
  finally show ?thesis by (simp only: map_nth)
qed

section \<open>Words\<close>

lemma split_whitespace_skip: "is_whitespace c \<Longrightarrow> split_whitespace (c # s) = split_whitespace s"
  by (simp add: split_whitespace.simps [of "c # s"] split_whitespace.simps [of s])

lemma split_whitespace_word:
  assumes "w \<noteq> []" and "list_all (\<lambda>c. \<not> is_whitespace c) w"
  shows "split_whitespace (w @ 32 # s) = w # split_whitespace s"
proof -
  have d: "dropWhile is_whitespace (w @ 32 # s) = w @ 32 # s" using assms by (cases w) auto
  have t: "takeWhile (\<lambda>c. \<not> is_whitespace c) (w @ 32 # s) = w" "dropWhile (\<lambda>c. \<not> is_whitespace c) (w @ 32 # s) = 32 # s"
    using assms(2) by (simp_all add: takeWhile_append dropWhile_append list_all_iff is_whitespace_def)
  show ?thesis
    unfolding split_whitespace.simps [of "w @ 32 # s"] d t Let_def
    by (simp add: split_whitespace_skip is_whitespace_def)
qed

lemma split_once_first: "q \<notin> set k \<Longrightarrow> split_once q (k @ q # v) = Some (k, v)"
  by (auto simp: split_once_def takeWhile_append dropWhile_append)

end
