(* ===== verification/Scry_Config.thy ===== *)
theory Scry_Config
  imports Connection_Handler Rust_Net Float64
begin

text \<open>
  \<open>config/mod.rs\<close> and \<open>routing/mod.rs\<close>: the configuration with its defaults, the check at start-up,
  the detection of unknown environment variables, the resolution of the password file, and the
  router.  The \<open>config\<close> crate that merges defaults, file and environment is an argument of \<open>load\<close>;
  \<open>String\<close>s for people (error and warning texts) are data.
\<close>

section \<open>The configuration\<close>

datatype database_protocol = Postgres

record proxy_config =
  listen_address :: rstr
  unix_socket :: "rstr option"
  max_connections :: nat
  shutdown_timeout_secs :: nat

record backend_config =
  be_protocol :: database_protocol
  be_host :: rstr
  be_port :: nat
  be_database :: rstr
  be_user :: rstr
  be_password :: rstr
  be_password_file :: "rstr option"
  be_pool_size :: nat
  connection_timeout_ms :: nat

record database_config =
  db_name :: rstr
  db_host :: rstr
  db_port :: nat
  db_database :: rstr
  db_user :: rstr
  db_password :: rstr
  db_pool_size :: "nat option"

record observability_config =
  enable_tracing :: bool
  otlp_endpoint :: "rstr option"
  service_name :: rstr
  metrics_server_address :: rstr
  enable_metrics_server :: bool
  unsafe_debug_logging :: bool
  enable_debug_endpoints :: bool
  metrics_allow_non_loopback :: bool

record publisher_config =
  pub_enabled :: bool
  pub_batch_size :: nat
  flush_interval_ms :: nat
  pub_anonymize :: bool
  publisher_type :: rstr
  max_queue_size :: nat
  http_endpoint :: "rstr option"
  http_timeout_ms :: nat
  http_max_retries :: nat
  http_api_key :: "rstr option"
  http_compression :: bool
  shadow_id :: "rstr option"
  allow_insecure :: bool
  anonymize_salt :: "rstr option"
  pub_parse_failure :: parse_failure_mode

record latency_budget =
  overhead_p50_micros :: nat
  overhead_p95_micros :: nat
  overhead_p99_micros :: nat
  reference_workload :: rstr

record performance_config =
  perf_latency_budget :: latency_budget
  query_timeout_secs :: nat
  connection_pooling :: pooling_strategy
  pool_size :: nat
  pool_min_idle :: nat
  pool_timeout_secs :: nat
  pool_recycle_secs :: nat
  pool_aggressive_unpinning :: bool
  buffer_size :: nat
  pool_queue_depth :: nat
  pool_idle_unpin_secs :: nat
  pool_lifo :: bool
  pool_reset_timeout_ms :: nat
  pool_ratio_warning_threshold :: nat
  pool_backpressure_mode :: backpressure_mode
  pool_retry_hint_ms :: nat
  pool_queue_saturation_warn_threshold :: f64

record connection_retry_config =
  cr_enabled :: bool
  cr_max_attempts :: nat
  cr_initial_backoff_ms :: nat
  cr_max_backoff_ms :: nat
  backoff_multiplier :: f64
  jitter_factor :: f64

record healthcheck_config =
  active_enabled :: bool
  interval_secs :: nat
  hc_timeout_ms :: nat
  hc_failure_threshold :: nat

record resilience_config =
  circuit_breaker :: breaker_config
  connection_retry :: connection_retry_config
  res_healthcheck :: healthcheck_config

record tls_config =
  client_tls_sslmode :: tls_sslmode
  client_tls_cert_file :: "rstr option"
  client_tls_key_file :: "rstr option"
  client_tls_ca_file :: "rstr option"
  server_tls_sslmode :: tls_sslmode
  server_tls_ca_file :: "rstr option"
  server_tls_cert_file :: "rstr option"
  server_tls_key_file :: "rstr option"

record auth_config =
  ac_auth_type :: auth_type
  auth_file :: "rstr option"
  auth_query :: "rstr option"
  allow_trust :: bool

record admin_config =
  admin_enabled :: bool
  admin_users :: "rstr option"
  admin_password :: "rstr option"

record config =
  proxy :: proxy_config
  backend :: backend_config
  databases :: "database_config list"
  observability :: observability_config
  max_prepared :: nat
  pub_config :: publisher_config
  performance :: performance_config
  resilience :: resilience_config
  tls :: tls_config
  auth :: auth_config
  admin :: admin_config

section \<open>Defaults\<close>

definition default_tls :: tls_config where
  "default_tls = \<lparr>client_tls_sslmode = Disable, client_tls_cert_file = None, client_tls_key_file = None,
     client_tls_ca_file = None, server_tls_sslmode = Disable, server_tls_ca_file = None,
     server_tls_cert_file = None, server_tls_key_file = None\<rparr>"

definition default_auth :: auth_config where
  "default_auth = \<lparr>ac_auth_type = Trust, auth_file = None, auth_query = None, allow_trust = False\<rparr>"

definition default_admin :: admin_config where
  "default_admin = \<lparr>admin_enabled = False, admin_users = None, admin_password = None\<rparr>"

definition default_latency_budget :: latency_budget where
  "default_latency_budget = \<lparr>overhead_p50_micros = 250, overhead_p95_micros = 750, overhead_p99_micros = 1000,
     reference_workload = lit ''oltp-point-select''\<rparr>"

definition default_config :: config where
  "default_config =
    \<lparr>proxy = \<lparr>listen_address = lit ''127.0.0.1:5433'', unix_socket = None, max_connections = 100,
       shutdown_timeout_secs = 30\<rparr>,
     backend = \<lparr>be_protocol = Postgres, be_host = lit ''localhost'', be_port = 5432, be_database = lit ''postgres'',
       be_user = lit ''postgres'', be_password = [], be_password_file = None, be_pool_size = 10,
       connection_timeout_ms = 5000\<rparr>,
     databases = [],
     observability = \<lparr>enable_tracing = True, otlp_endpoint = Some (lit ''http://localhost:4317''),
       service_name = lit ''scry-proxy'', metrics_server_address = lit ''127.0.0.1:9090'',
       enable_metrics_server = True, unsafe_debug_logging = False, enable_debug_endpoints = False,
       metrics_allow_non_loopback = False\<rparr>,
     max_prepared = 1000,
     pub_config = \<lparr>pub_enabled = True, pub_batch_size = 100, flush_interval_ms = 1000, pub_anonymize = True,
       publisher_type = lit ''debug'', max_queue_size = 10000, http_endpoint = None, http_timeout_ms = 500,
       http_max_retries = 2, http_api_key = None, http_compression = True, shadow_id = None,
       allow_insecure = False, anonymize_salt = None, pub_parse_failure = Redact\<rparr>,
     performance = \<lparr>perf_latency_budget = default_latency_budget, query_timeout_secs = 0,
       connection_pooling = PoolHybrid, pool_size = 50, pool_min_idle = 5, pool_timeout_secs = 30,
       pool_recycle_secs = 3600, pool_aggressive_unpinning = False, buffer_size = 8192, pool_queue_depth = 500,
       pool_idle_unpin_secs = 60, pool_lifo = True, pool_reset_timeout_ms = 5000,
       pool_ratio_warning_threshold = 20, pool_backpressure_mode = RejectImmediate, pool_retry_hint_ms = 200,
       pool_queue_saturation_warn_threshold = f64_round (8 / 10)\<rparr>,
     resilience = \<lparr>
       circuit_breaker = \<lparr>cb_enabled = True, failure_threshold = 5, success_threshold = 2, window_secs = 30,
         open_timeout_secs = 60, use_health_monitor = True\<rparr>,
       connection_retry = \<lparr>cr_enabled = True, cr_max_attempts = 3, cr_initial_backoff_ms = 50,
         cr_max_backoff_ms = 5000, backoff_multiplier = 2, jitter_factor = f64_round (1 / 10)\<rparr>,
       res_healthcheck = \<lparr>active_enabled = True, interval_secs = 30, hc_timeout_ms = 1000,
         hc_failure_threshold = 3\<rparr>\<rparr>,
     tls = default_tls, auth = default_auth, admin = default_admin\<rparr>"

section \<open>Loading\<close>

text \<open>The serialized configuration, of which only the nesting of the keys matters.\<close>

datatype json = JObject "(rstr \<times> json) list" | JScalar

fun collect_paths :: "rstr \<Rightarrow> json \<Rightarrow> rstr list" where
  "collect_paths pre JScalar = []"
| "collect_paths pre (JObject kvs) =
     concat (map (\<lambda>(k, v). let path = (if pre = [] then k else pre @ lit ''.'' @ k)
                            in path # collect_paths path v) kvs)"

definition section_of :: "string list \<Rightarrow> json" where
  "section_of ks = JObject (map (\<lambda>k. (lit k, JScalar)) ks)"

definition config_json :: json where
  "config_json = JObject
    [(lit ''proxy'', section_of [''listen_address'', ''unix_socket'', ''max_connections'', ''shutdown_timeout_secs'']),
     (lit ''backend'', section_of [''protocol'', ''host'', ''port'', ''database'', ''user'', ''password'',
        ''password_file'', ''pool_size'', ''connection_timeout_ms'']),
     (lit ''databases'', JScalar),
     (lit ''observability'', section_of [''enable_tracing'', ''otlp_endpoint'', ''service_name'',
        ''metrics_server_address'', ''enable_metrics_server'', ''unsafe_debug_logging'',
        ''enable_debug_endpoints'', ''metrics_allow_non_loopback'']),
     (lit ''protocol'', section_of [''max_prepared_statements'']),
     (lit ''publisher'', section_of [''enabled'', ''batch_size'', ''flush_interval_ms'', ''anonymize'',
        ''publisher_type'', ''max_queue_size'', ''http_endpoint'', ''http_timeout_ms'', ''http_max_retries'',
        ''http_api_key'', ''http_compression'', ''shadow_id'', ''allow_insecure'', ''anonymize_salt'',
        ''parse_failure_mode'']),
     (lit ''performance'', JObject
        ((lit ''latency_budget'', section_of [''overhead_p50_micros'', ''overhead_p95_micros'',
            ''overhead_p99_micros'', ''reference_workload''])
         # map (\<lambda>k. (lit k, JScalar)) [''query_timeout_secs'', ''connection_pooling'', ''pool_size'',
            ''pool_min_idle'', ''pool_timeout_secs'', ''pool_recycle_secs'', ''pool_aggressive_unpinning'',
            ''buffer_size'', ''pool_queue_depth'', ''pool_idle_unpin_secs'', ''pool_lifo'',
            ''pool_reset_timeout_ms'', ''pool_ratio_warning_threshold'', ''pool_backpressure_mode'',
            ''pool_retry_hint_ms'', ''pool_queue_saturation_warn_threshold''])),
     (lit ''resilience'', JObject
        [(lit ''circuit_breaker'', section_of [''enabled'', ''failure_threshold'', ''success_threshold'',
            ''window_secs'', ''open_timeout_secs'', ''use_health_monitor'']),
         (lit ''connection_retry'', section_of [''enabled'', ''max_attempts'', ''initial_backoff_ms'',
            ''max_backoff_ms'', ''backoff_multiplier'', ''jitter_factor'']),
         (lit ''healthcheck'', section_of [''active_enabled'', ''interval_secs'', ''timeout_ms'',
            ''failure_threshold''])]),
     (lit ''tls'', section_of [''client_tls_sslmode'', ''client_tls_cert_file'', ''client_tls_key_file'',
        ''client_tls_ca_file'', ''server_tls_sslmode'', ''server_tls_ca_file'', ''server_tls_cert_file'',
        ''server_tls_key_file'']),
     (lit ''auth'', section_of [''auth_type'', ''auth_file'', ''auth_query'', ''allow_trust'']),
     (lit ''admin'', section_of [''enabled'', ''admin_users'', ''admin_password''])]"

definition valid_config_paths :: "rstr list" where
  "valid_config_paths = collect_paths [] config_json"

text \<open>\<open>str::replace(p, q)\<close> for a non-empty pattern: matches from the left, without overlap.\<close>

function str_replace :: "rstr \<Rightarrow> rstr \<Rightarrow> rstr \<Rightarrow> rstr" where
  "str_replace p q s =
     (case s of [] \<Rightarrow> []
      | c # r \<Rightarrow> if p \<noteq> [] \<and> starts_with s p then q @ str_replace p q (drop (length p) s) else c # str_replace p q r)"
  by pat_completeness auto
termination
  by (relation "measure (\<lambda>(p, q, s). length s)") auto

declare str_replace.simps [simp del]

definition env_path :: "unicode \<Rightarrow> rstr \<Rightarrow> rstr" where
  "env_path U rest = str_replace (lit ''__'') (lit ''.'') (to_lowercase U rest)"

definition unknown_scry_env_keys :: "unicode \<Rightarrow> rstr list \<Rightarrow> rstr list \<Rightarrow> rstr list" where
  "unknown_scry_env_keys U env_keys valid =
     filter (\<lambda>key.
       case strip_prefix key (lit ''SCRY_'') of
         None \<Rightarrow> False
       | Some rest \<Rightarrow>
           rest \<noteq> lit ''CONFIG_FILE'' \<and> rest \<noteq> lit ''ALLOW_UNKNOWN_KEYS''
           \<and> (let path = env_path U rest
              in path \<noteq> lit ''databases'' \<and> \<not> starts_with path (lit ''databases.'') \<and> path \<notin> set valid))
     env_keys"

datatype load_error = UnknownKeys "rstr list" | BuildFailed | TwoPasswordSources | PasswordFileUnreadable rstr
  | PasswordFileEmpty rstr

text \<open>The password file: \<open>read_file\<close> gives its contents, \<open>None\<close> when it cannot be read.\<close>

definition resolve_password_file :: "(rstr \<Rightarrow> rstr option) \<Rightarrow> config \<Rightarrow> load_error + config" where
  "resolve_password_file read_file loaded =
     (case be_password_file (backend loaded) of
        None \<Rightarrow> Inr loaded
      | Some path \<Rightarrow>
          if be_password (backend loaded) \<noteq> [] then Inl TwoPasswordSources
          else case read_file path of
            None \<Rightarrow> Inl (PasswordFileUnreadable path)
          | Some contents \<Rightarrow>
              (let secret = trim contents
               in if secret = [] then Inl (PasswordFileEmpty path)
                  else Inr (loaded\<lparr>backend := (backend loaded)\<lparr>be_password := secret\<rparr>\<rparr>)))"

text \<open>\<open>env\<close> is the environment, \<open>merged\<close> what the \<open>config\<close> crate makes of defaults, file and environment.\<close>

definition load :: "unicode \<Rightarrow> (rstr \<times> rstr) list \<Rightarrow> config option \<Rightarrow> (rstr \<Rightarrow> rstr option) \<Rightarrow> load_error + config" where
  "load U env merged read_file =
     (let allow_unknown = (case map_of env (lit ''SCRY_ALLOW_UNKNOWN_KEYS'') of
            Some v \<Rightarrow> eq_ignore_ascii_case v (lit ''true'') \<or> v = lit ''1'' | None \<Rightarrow> False);
          unknown = unknown_scry_env_keys U (map fst env) valid_config_paths
      in if \<not> allow_unknown \<and> unknown \<noteq> [] then Inl (UnknownKeys unknown)
         else case merged of None \<Rightarrow> Inl BuildFailed | Some loaded \<Rightarrow> resolve_password_file read_file loaded)"

section \<open>Validation\<close>

datatype config_error = ScramNotSupported | CertNeedsVerification tls_sslmode | Md5NeedsAuthFile
  | TrustNotAcknowledged | BackendPasswordUnset | AnonymizeNeedsSalt | HttpNeedsEndpoint
  | EndpointNotHttps rstr | NoConnectionsAllowed | EmptyPool pooling_strategy
  | MetricsAddressInvalid rstr | MetricsNotLoopback ip_addr nat

datatype config_warning = DebugEndpointsNotMounted ip_addr nat | PoolRatioHigh nat nat nat
  | QueueDepthSmall nat nat nat nat | PoolExceedsConnections nat nat

definition check_auth :: "config \<Rightarrow> config_error option" where
  "check_auth cfg =
     (if ac_auth_type (auth cfg) = AuthScramSha256 then Some ScramNotSupported
      else if ac_auth_type (auth cfg) = Cert \<and> client_tls_sslmode (tls cfg) \<notin> {VerifyCa, VerifyFull}
      then Some (CertNeedsVerification (client_tls_sslmode (tls cfg)))
      else if ac_auth_type (auth cfg) = Md5 \<and> auth_file (auth cfg) = None then Some Md5NeedsAuthFile
      else if ac_auth_type (auth cfg) = Trust \<and> \<not> allow_trust (auth cfg) then Some TrustNotAcknowledged
      else None)"

definition check_publisher :: "publisher_config \<Rightarrow> config_error option" where
  "check_publisher p =
     (if pub_enabled p \<and> pub_anonymize p \<and> anonymize_salt p = None then Some AnonymizeNeedsSalt
      else if pub_enabled p \<and> publisher_type p = lit ''http'' then
        (case http_endpoint p of
           None \<Rightarrow> Some HttpNeedsEndpoint
         | Some endpoint \<Rightarrow>
             if \<not> starts_with endpoint (lit ''https://'') \<and> \<not> allow_insecure p then Some (EndpointNotHttps endpoint)
             else None)
      else None)"

definition check_metrics :: "observability_config \<Rightarrow> config_error + config_warning list" where
  "check_metrics ob =
     (if \<not> enable_metrics_server ob then Inr []
      else case parse_socket_addr (metrics_server_address ob) of
        None \<Rightarrow> Inl (MetricsAddressInvalid (metrics_server_address ob))
      | Some (ip, port) \<Rightarrow>
          if is_loopback ip then Inr []
          else if \<not> metrics_allow_non_loopback ob then Inl (MetricsNotLoopback ip port)
          else Inr (if enable_debug_endpoints ob then [DebugEndpointsNotMounted ip port] else []))"

definition pool_warnings :: "nat \<Rightarrow> performance_config \<Rightarrow> config_warning list" where
  "pool_warnings max_conns perf =
     (let ratio = f64_div (f64_of_nat max_conns) (f64_of_nat (pool_size perf));
          expected_waiters = max_conns - pool_size perf
      in (if 0 < pool_ratio_warning_threshold perf \<and> 0 < pool_size perf
             \<and> f64_of_nat (pool_ratio_warning_threshold perf) < ratio
          then [PoolRatioHigh max_conns (f64_as_usize ratio) (pool_size perf)] else [])
         @ (if 0 < expected_waiters \<and> pool_queue_depth perf < expected_waiters div 2
            then [QueueDepthSmall (pool_queue_depth perf) max_conns (pool_size perf) expected_waiters] else [])
         @ (if max_conns < pool_size perf then [PoolExceedsConnections (pool_size perf) max_conns] else []))"

definition validate_config :: "config \<Rightarrow> config_error + config_warning list" where
  "validate_config cfg =
     (case check_auth cfg of
        Some e \<Rightarrow> Inl e
      | None \<Rightarrow>
          if be_password (backend cfg) = [] then Inl BackendPasswordUnset
          else case check_publisher (pub_config cfg) of
            Some e \<Rightarrow> Inl e
          | None \<Rightarrow>
              if max_connections (proxy cfg) = 0 then Inl NoConnectionsAllowed
              else if connection_pooling (performance cfg) \<noteq> PoolDisabled \<and> pool_size (performance cfg) = 0
              then Inl (EmptyPool (connection_pooling (performance cfg)))
              else case check_metrics (observability cfg) of
                Inl e \<Rightarrow> Inl e
              | Inr ws \<Rightarrow> Inr (ws @ pool_warnings (max_connections (proxy cfg)) (performance cfg)))"

section \<open>Routing\<close>

record router =
  routes :: "(rstr \<times> database_config) list"
  default_route :: database_config

definition new_router :: "database_config list \<Rightarrow> backend_config \<Rightarrow> nat \<Rightarrow> router" where
  "new_router dbs be default_pool_size =
     \<lparr>routes = fold (\<lambda>db. AList.update (db_name db) db) dbs [],
      default_route = \<lparr>db_name = lit ''*'', db_host = be_host be, db_port = be_port be, db_database = be_database be,
        db_user = be_user be, db_password = be_password be, db_pool_size = Some default_pool_size\<rparr>\<rparr>"

definition route :: "router \<Rightarrow> rstr \<Rightarrow> database_config" where
  "route r name = (case map_of (routes r) name of Some db \<Rightarrow> db | None \<Rightarrow> default_route r)"

definition has_route :: "router \<Rightarrow> rstr \<Rightarrow> bool" where
  "has_route r name = (name \<in> fst ` set (routes r))"

definition route_count :: "router \<Rightarrow> nat" where
  "route_count r = length (routes r)"

text \<open>What the authenticator reads of the configuration.\<close>

definition auth_settings_of :: "config \<Rightarrow> auth_settings" where
  "auth_settings_of cfg = \<lparr>auth_type = ac_auth_type (auth cfg), backend_user = be_user (backend cfg),
     backend_database = be_database (backend cfg)\<rparr>"

section \<open>What validation guarantees\<close>

lemma validate_config_Inr:
  assumes "validate_config cfg = Inr ws"
  shows "check_auth cfg = None" and "be_password (backend cfg) \<noteq> []" and "check_publisher (pub_config cfg) = None"
    and "0 < max_connections (proxy cfg)"
    and "connection_pooling (performance cfg) = PoolDisabled \<or> 0 < pool_size (performance cfg)"
    and "\<exists>ms. check_metrics (observability cfg) = Inr ms
          \<and> ws = ms @ pool_warnings (max_connections (proxy cfg)) (performance cfg)"
  using assms by (auto simp: validate_config_def split: option.splits if_splits sum.splits)

lemma validate_config_cong:
  assumes "check_auth cfg = check_auth cfg'" and "be_password (backend cfg) = be_password (backend cfg')"
    and "check_publisher (pub_config cfg) = check_publisher (pub_config cfg')" and "proxy cfg = proxy cfg'"
    and "performance cfg = performance cfg'" and "observability cfg = observability cfg'"
  shows "validate_config cfg = validate_config cfg'"
  by (simp only: validate_config_def assms)

lemma check_auth_None:
  assumes "check_auth cfg = None"
  obtains (trust) "ac_auth_type (auth cfg) = Trust" "allow_trust (auth cfg)"
    | (md5) "ac_auth_type (auth cfg) = Md5" "auth_file (auth cfg) \<noteq> None"
    | (cert) "ac_auth_type (auth cfg) = Cert" "client_tls_sslmode (tls cfg) \<in> {VerifyCa, VerifyFull}"
  using assms by (cases "ac_auth_type (auth cfg)") (auto simp: check_auth_def split: if_splits)

lemma default_config_refused: "validate_config default_config = Inl TrustNotAcknowledged"
  by (simp add: validate_config_def check_auth_def default_config_def default_auth_def)

text \<open>Neither the intervals of the background tasks nor the pool size of a routed database is checked.\<close>

lemma validate_ignores_intervals:
  "validate_config (cfg\<lparr>pub_config := (pub_config cfg)\<lparr>flush_interval_ms := n\<rparr>,
      resilience := (resilience cfg)\<lparr>res_healthcheck := hc\<rparr>, databases := dbs\<rparr>) = validate_config cfg"
proof -
  have p: "check_publisher (p\<lparr>flush_interval_ms := n\<rparr>) = check_publisher p" for p :: publisher_config
    by (cases "http_endpoint p") (simp_all add: check_publisher_def)
  show ?thesis by (rule validate_config_cong) (simp_all add: check_auth_def p)
qed

text \<open>Without an enabled publisher no salt is asked for, and anonymization falls back to the built-in one.\<close>

lemma salt_not_required:
  assumes "validate_config cfg = Inr ws"
  shows "validate_config (cfg\<lparr>pub_config := (pub_config cfg)\<lparr>pub_enabled := False, pub_anonymize := True,
    anonymize_salt := None\<rparr>\<rparr>) = Inr ws"
proof -
  let ?cfg = "cfg\<lparr>pub_config := (pub_config cfg)\<lparr>pub_enabled := False, pub_anonymize := True, anonymize_salt := None\<rparr>\<rparr>"
  have "validate_config ?cfg = validate_config cfg"
    using validate_config_Inr(3) [OF assms]
    by (intro validate_config_cong) (simp_all add: check_auth_def check_publisher_def)
  then show ?thesis using assms by simp
qed

lemma resolve_password_file_Inr:
  assumes "resolve_password_file read_file loaded = Inr cfg"
  shows "case be_password_file (backend loaded) of
      None \<Rightarrow> cfg = loaded
    | Some path \<Rightarrow> be_password (backend loaded) = []
        \<and> (\<exists>contents. read_file path = Some contents \<and> be_password (backend cfg) = trim contents \<and> trim contents \<noteq> [])"
  using assms by (auto simp: resolve_password_file_def Let_def split: option.splits if_splits)

lemma find_append: "List.find P (xs @ ys) = (case List.find P xs of Some x \<Rightarrow> Some x | None \<Rightarrow> List.find P ys)"
  by (induction xs) simp_all

lemma map_of_routes:
  "map_of (fold (\<lambda>db. AList.update (db_name db) db) dbs al) name =
     (case List.find (\<lambda>db. db_name db = name) (rev dbs) of Some db \<Rightarrow> Some db | None \<Rightarrow> map_of al name)"
  by (induction dbs arbitrary: al) (auto simp: update_conv find_append split: option.splits)

text \<open>The last configured database of a name is the one routed to.\<close>

lemma route_new_router:
  "route (new_router dbs be n) name =
     (case List.find (\<lambda>db. db_name db = name) (rev dbs) of Some db \<Rightarrow> db | None \<Rightarrow> default_route (new_router dbs be n))"
  by (simp add: route_def new_router_def map_of_routes split: option.splits)

text \<open>The variable of every configuration key is mapped back to the key, so none of them is refused.\<close>

definition env_name :: "rstr \<Rightarrow> rstr" where
  "env_name path = lit ''SCRY_'' @ map ascii_upper (str_replace (lit ''.'') (lit ''__'') path)"

text \<open>Keys are lower-case words joined by single separators.\<close>

fun key_text :: "rstr \<Rightarrow> bool" where
  "key_text [] = True"
| "key_text [c] = (97 \<le> c \<and> c \<le> 122 \<or> 48 \<le> c \<and> c \<le> 57)"
| "key_text (a # b # s) =
     ((97 \<le> a \<and> a \<le> 122 \<or> 48 \<le> a \<and> a \<le> 57 \<or> (a = 46 \<or> a = 95) \<and> b \<noteq> 46 \<and> b \<noteq> 95) \<and> key_text (b # s))"

lemma replace_dot: "str_replace [46] q s = concat (map (\<lambda>c. if c = 46 then q else [c]) s)"
  by (induction s) (simp_all add: str_replace.simps [of "[46]"] starts_with_def)

lemma key_text_restored:
  "key_text s \<Longrightarrow> str_replace [95, 95] [46] (concat (map (\<lambda>c. if c = 46 then [95, 95] else [c]) s)) = s"
proof (induction s rule: key_text.induct)
  case (3 a b s)
  let ?f = "\<lambda>s. concat (map (\<lambda>c. if c = 46 then [95, 95] else [c]) s)"
  have IH: "str_replace [95, 95] [46] (?f (b # s)) = b # s" using 3 by (cases "b = 46") auto
  show ?case
  proof (cases "a = 46")
    case True
    then show ?thesis using IH by (subst str_replace.simps) (simp add: starts_with_def)
  next
    case False
    have "\<not> starts_with (a # ?f (b # s)) [95, 95]" using False "3.prems" by (auto simp: starts_with_def)
    then show ?thesis using IH False by (subst str_replace.simps) simp
  qed
qed (simp_all add: str_replace.simps [of "[95, 95]"] starts_with_def)

lemma key_text_chars: "key_text s \<Longrightarrow> \<forall>c \<in> set s. 97 \<le> c \<and> c \<le> 122 \<or> 48 \<le> c \<and> c \<le> 57 \<or> c = 46 \<or> c = 95"
  by (induction s rule: key_text.induct) auto

lemma env_path_of_name:
  assumes "key_text path"
  shows "env_path U (map ascii_upper (str_replace (lit ''.'') (lit ''__'') path)) = path"
proof -
  let ?s = "concat (map (\<lambda>c. if c = 46 then [95, 95] else [c]) path)"
  have c: "\<forall>c \<in> set ?s. 97 \<le> c \<and> c \<le> 122 \<or> 48 \<le> c \<and> c \<le> 57 \<or> c = 95"
    using key_text_chars [OF assms] by auto
  then have "ascii (map ascii_upper ?s)" by (force simp: ascii_def list_all_iff ascii_upper_def)
  then have "to_lowercase U (map ascii_upper ?s) = map (ascii_lower \<circ> ascii_upper) ?s"
    by (simp only: to_lowercase_ascii map_map)
  also have "\<dots> = ?s" using c by (intro map_idI) (auto simp: ascii_upper_def ascii_lower_def)
  finally show ?thesis using key_text_restored [OF assms] by (simp add: env_path_def replace_dot lit_def)
qed

lemma valid_paths_key_text: "list_all key_text valid_config_paths"
  by (simp add: valid_config_paths_def config_json_def section_of_def lit_def Let_def)

lemma every_key_is_known:
  assumes "path \<in> set valid_config_paths"
  shows "unknown_scry_env_keys U [env_name path] valid_config_paths = []"
proof -
  have "env_path U (map ascii_upper (str_replace (lit ''.'') (lit ''__'') path)) = path"
    using valid_paths_key_text assms by (intro env_path_of_name) (simp add: list_all_iff)
  then show ?thesis
    using assms by (simp add: unknown_scry_env_keys_def strip_prefix_def env_name_def starts_with_def)
qed

text \<open>
  C32. A proxy whose configuration was accepted and in which trust is not acknowledged lets in only
  clients that proved an identity: with the salted MD5 digest of the password the user file has for
  them, or with a certificate under a TLS mode that verifies certificates.
\<close>

theorem validated_config_closed:
  assumes "validate_config cfg = Inr ws" and "\<not> allow_trust (auth cfg)"
    and "authenticate oc md5_hex iter (auth_settings_of cfg) file_auth salt write_ok reply has_cert rd s startup_data
      = Ret (Inr r, out)"
  shows "(\<exists>users p buf. file_auth = Some users \<and> map_of users (hs_username r) = Some (Plain p) \<and> reply = Some buf
      \<and> parse_password_message oc buf = Ret (Some (compute_md5_response md5_hex p (hs_username r) salt)))
    \<or> has_cert \<and> client_tls_sslmode (tls cfg) \<in> {VerifyCa, VerifyFull}"
proof (rule check_auth_None [OF validate_config_Inr(1) [OF assms(1)]])
  note sound = authenticate_sound [OF assms(3)]
  show ?thesis if "ac_auth_type (auth cfg) = Trust" "allow_trust (auth cfg)" using that assms(2) by simp
  show ?thesis if "ac_auth_type (auth cfg) = Md5" using sound that by (simp add: auth_settings_of_def)
  show ?thesis if "ac_auth_type (auth cfg) = Cert" "client_tls_sslmode (tls cfg) \<in> {VerifyCa, VerifyFull}"
    using sound that by (simp add: auth_settings_of_def)
qed

definition checked_config :: config where
  "checked_config = default_config\<lparr>
     backend := (backend default_config)\<lparr>be_user := backend_user example_settings,
       be_database := backend_database example_settings, be_password := lit ''secret''\<rparr>,
     pub_config := (pub_config default_config)\<lparr>anonymize_salt := Some (lit ''salt'')\<rparr>,
     auth := default_auth\<lparr>ac_auth_type := Md5, auth_file := Some (lit ''users.txt'')\<rparr>\<rparr>"

lemma checked_config_valid: "\<exists>ws. validate_config checked_config = Inr ws"
  by (simp add: validate_config_def checked_config_def default_config_def default_auth_def check_auth_def check_publisher_def
      check_metrics_def parse_loopback_v4 lit_def [of "''debug''"] lit_def [of "''http''"] lit_def [of "''secret''"])

theorem validated_config_closed_witness:
  "\<exists>r out. authenticate True (\<lambda>_. lit ''0'') id (auth_settings_of checked_config) (Some [(lit ''u'', Plain (lit ''p''))])
      [1, 2, 3, 4] (\<lambda>_. True) (Some example_reply) False read_segments [] example_startup = Ret (Inr r, out)
    \<and> (\<exists>users p buf. Some [(lit ''u'', Plain (lit ''p''))] = Some users
         \<and> map_of users (hs_username r) = Some (Plain p) \<and> Some example_reply = Some buf
         \<and> parse_password_message True buf
             = Ret (Some (compute_md5_response (\<lambda>_. lit ''0'') p (hs_username r) [1, 2, 3, 4])))"
proof -
  obtain ws where v: "validate_config checked_config = Inr ws" using checked_config_valid by blast
  have t: "\<not> allow_trust (auth checked_config)" by (simp add: checked_config_def default_auth_def)
  have s: "auth_settings_of checked_config = example_settings"
    by (simp add: auth_settings_of_def checked_config_def example_settings_def)
  obtain r out where r: "authenticate True (\<lambda>_. lit ''0'') id (auth_settings_of checked_config)
      (Some [(lit ''u'', Plain (lit ''p''))]) [1, 2, 3, 4] (\<lambda>_. True) (Some example_reply) False read_segments []
      example_startup = Ret (Inr r, out)" using example_handshake unfolding s by blast
  show ?thesis using r validated_config_closed [OF v t r] by blast
qed

text \<open>
  The warning about the ratio of connections to pool size is exact although it is computed in
  floating point: it is given precisely when the threshold is on and the connections exceed the
  threshold times the pool size.
\<close>

lemma pool_ratio_warning_exact:
  assumes "max_conns < 2 ^ 53" and "pool_size perf < 2 ^ 53"
    and "pool_ratio_warning_threshold perf * pool_size perf + 1 < 2 ^ 53"
  shows "(\<exists>ratio. PoolRatioHigh max_conns ratio (pool_size perf) \<in> set (pool_warnings max_conns perf)) \<longleftrightarrow>
    0 < pool_ratio_warning_threshold perf \<and> 0 < pool_size perf
      \<and> pool_ratio_warning_threshold perf * pool_size perf < max_conns"
proof (cases "0 < pool_size perf")
  case True
  show ?thesis
    using f64_ratio_exact [OF assms(1) True assms(2, 3)] by (auto simp: pool_warnings_def Let_def)
qed (auto simp: pool_warnings_def Let_def)

end
