(* ===== verification/Pgbouncer_Config.thy ===== *)
theory Pgbouncer_Config
  imports Scry_Config
begin

text \<open>
  \<open>config/pgbouncer.rs\<close>: settings in PgBouncer's format, from an INI file and from the environment,
  and their translation to the proxy's configuration.  The INI library is an argument: the sections
  of a file as lists of keys and values in order.  An \<open>IndexMap\<close> is an association list, whose
  update replaces in place or appends.
\<close>

section \<open>Databases\<close>

record database_entry =
  de_host :: "rstr option"
  de_port :: "nat option"
  de_dbname :: "rstr option"
  de_user :: "rstr option"
  de_password :: "rstr option"

definition no_entry :: database_entry where
  "no_entry = \<lparr>de_host = None, de_port = None, de_dbname = None, de_user = None, de_password = None\<rparr>"

definition parse_entry_part :: "unicode \<Rightarrow> rstr \<Rightarrow> database_entry \<Rightarrow> database_entry" where
  "parse_entry_part U part e =
     (case split_once 61 part of
        None \<Rightarrow> e
      | Some (key, val) \<Rightarrow>
          (let k = to_lowercase U key
           in if k = lit ''host'' then e\<lparr>de_host := Some val\<rparr>
              else if k = lit ''port'' then e\<lparr>de_port := parse_u16 val\<rparr>
              else if k = lit ''dbname'' then e\<lparr>de_dbname := Some val\<rparr>
              else if k = lit ''user'' then e\<lparr>de_user := Some val\<rparr>
              else if k = lit ''password'' then e\<lparr>de_password := Some val\<rparr>
              else e))"

definition parse_entry :: "unicode \<Rightarrow> rstr \<Rightarrow> database_entry" where
  "parse_entry U s = fold (parse_entry_part U) (split_whitespace s) no_entry"

section \<open>Settings\<close>

record pgbouncer_config =
  pb_databases :: "(rstr \<times> database_entry) list"
  listen_addr :: "rstr option"
  listen_port :: "nat option"
  pool_mode :: "rstr option"
  default_pool_size :: "nat option"
  min_pool_size :: "nat option"
  max_client_conn :: "nat option"
  server_idle_timeout :: "nat option"
  query_timeout :: "nat option"
  server_connect_timeout :: "nat option"

definition no_settings :: pgbouncer_config where
  "no_settings = \<lparr>pb_databases = [], listen_addr = None, listen_port = None, pool_mode = None,
     default_pool_size = None, min_pool_size = None, max_client_conn = None, server_idle_timeout = None,
     query_timeout = None, server_connect_timeout = None\<rparr>"

definition apply_setting :: "unicode \<Rightarrow> rstr \<times> rstr \<Rightarrow> pgbouncer_config \<Rightarrow> pgbouncer_config" where
  "apply_setting U kv c =
     (case kv of (key, val) \<Rightarrow>
        let k = to_lowercase U key
        in if k = lit ''listen_addr'' then c\<lparr>listen_addr := Some val\<rparr>
           else if k = lit ''listen_port'' then c\<lparr>listen_port := parse_u16 val\<rparr>
           else if k = lit ''pool_mode'' then c\<lparr>pool_mode := Some (to_lowercase U val)\<rparr>
           else if k = lit ''default_pool_size'' then c\<lparr>default_pool_size := parse_u64 val\<rparr>
           else if k = lit ''min_pool_size'' then c\<lparr>min_pool_size := parse_u64 val\<rparr>
           else if k = lit ''max_client_conn'' then c\<lparr>max_client_conn := parse_u64 val\<rparr>
           else if k = lit ''server_idle_timeout'' then c\<lparr>server_idle_timeout := parse_u64 val\<rparr>
           else if k = lit ''query_timeout'' then c\<lparr>query_timeout := parse_u64 val\<rparr>
           else if k = lit ''server_connect_timeout'' then c\<lparr>server_connect_timeout := parse_u64 val\<rparr>
           else c)"

text \<open>\<open>ini name\<close> is a section of the file, \<open>None\<close> when it has none of that name.\<close>

definition from_ini :: "unicode \<Rightarrow> (rstr \<Rightarrow> (rstr \<times> rstr) list option) \<Rightarrow> pgbouncer_config" where
  "from_ini U ini =
     (let c = (case ini (lit ''databases'') of
                 Some kvs \<Rightarrow> no_settings\<lparr>pb_databases := fold (\<lambda>(k, v). AList.update k (parse_entry U v)) kvs []\<rparr>
               | None \<Rightarrow> no_settings)
      in case ini (lit ''pgbouncer'') of Some kvs \<Rightarrow> fold (apply_setting U) kvs c | None \<Rightarrow> c)"

definition from_env :: "unicode \<Rightarrow> (rstr \<Rightarrow> rstr option) \<Rightarrow> pgbouncer_config" where
  "from_env U env =
     (let num = (\<lambda>name. Option.bind (env (lit name)) parse_u64)
      in no_settings\<lparr>listen_addr := env (lit ''PGBOUNCER_LISTEN_ADDR''),
           listen_port := Option.bind (env (lit ''PGBOUNCER_LISTEN_PORT'')) parse_u16,
           pool_mode := map_option (to_lowercase U) (env (lit ''PGBOUNCER_POOL_MODE'')),
           default_pool_size := num ''PGBOUNCER_DEFAULT_POOL_SIZE'',
           min_pool_size := num ''PGBOUNCER_MIN_POOL_SIZE'',
           max_client_conn := num ''PGBOUNCER_MAX_CLIENT_CONN'',
           server_idle_timeout := num ''PGBOUNCER_SERVER_IDLE_TIMEOUT'',
           query_timeout := num ''PGBOUNCER_QUERY_TIMEOUT'',
           server_connect_timeout := num ''PGBOUNCER_SERVER_CONNECT_TIMEOUT''\<rparr>)"

definition override :: "'a option \<Rightarrow> 'a option \<Rightarrow> 'a option" where
  "override new old = (if new \<noteq> None then new else old)"

definition merge_settings :: "pgbouncer_config \<Rightarrow> pgbouncer_config \<Rightarrow> pgbouncer_config" where
  "merge_settings e c =
     c\<lparr>listen_addr := override (listen_addr e) (listen_addr c),
       listen_port := override (listen_port e) (listen_port c),
       pool_mode := override (pool_mode e) (pool_mode c),
       default_pool_size := override (default_pool_size e) (default_pool_size c),
       min_pool_size := override (min_pool_size e) (min_pool_size c),
       max_client_conn := override (max_client_conn e) (max_client_conn c),
       server_idle_timeout := override (server_idle_timeout e) (server_idle_timeout c),
       query_timeout := override (query_timeout e) (query_timeout c),
       server_connect_timeout := override (server_connect_timeout e) (server_connect_timeout c)\<rparr>"

text \<open>
  \<open>file\<close> is \<open>None\<close> when no path is given or it does not exist, \<open>Some None\<close> when the library cannot
  read the file.
\<close>

definition load_pgbouncer ::
    "unicode \<Rightarrow> (rstr \<Rightarrow> (rstr \<times> rstr) list option) option option \<Rightarrow> (rstr \<Rightarrow> rstr option) \<Rightarrow> pgbouncer_config option" where
  "load_pgbouncer U file env =
     map_option (merge_settings (from_env U env))
       (case file of None \<Rightarrow> Some no_settings | Some ini \<Rightarrow> map_option (from_ini U) ini)"

section \<open>Translation\<close>

definition strategy_of :: "unicode \<Rightarrow> rstr \<Rightarrow> pooling_strategy" where
  "strategy_of U mode =
     (let md = to_lowercase U mode
      in if md = lit ''session'' then PoolSession
         else if md = lit ''transaction'' then PoolTransaction
         else if md = lit ''statement'' then PoolTransaction
         else PoolHybrid)"

definition with_entry :: "database_entry \<Rightarrow> backend_config \<Rightarrow> backend_config" where
  "with_entry e b =
     b\<lparr>be_host := (case de_host e of Some v \<Rightarrow> v | None \<Rightarrow> be_host b),
       be_port := (case de_port e of Some v \<Rightarrow> v | None \<Rightarrow> be_port b),
       be_database := (case de_dbname e of Some v \<Rightarrow> v | None \<Rightarrow> be_database b),
       be_user := (case de_user e of Some v \<Rightarrow> v | None \<Rightarrow> be_user b),
       be_password := (case de_password e of Some v \<Rightarrow> v | None \<Rightarrow> be_password b)\<rparr>"

definition u64_mul :: "bool \<Rightarrow> nat \<Rightarrow> nat \<Rightarrow> nat run" where
  "u64_mul oc a b = (if a * b < 2 ^ 64 then Ret (a * b) else if oc then Panic else Ret (a * b mod 2 ^ 64))"

definition to_scry_config :: "bool \<Rightarrow> unicode \<Rightarrow> pgbouncer_config \<Rightarrow> config \<Rightarrow> config run" where
  "to_scry_config oc U c base =
     (let host = (case listen_addr c of Some a \<Rightarrow> a | None \<Rightarrow> lit ''127.0.0.1'');
          port = (case listen_port c of Some p \<Rightarrow> p | None \<Rightarrow> 6432);
          px = (proxy base)\<lparr>listen_address := host @ lit '':'' @ show_nat port\<rparr>;
          px = (case max_client_conn c of Some n \<Rightarrow> px\<lparr>max_connections := n\<rparr> | None \<Rightarrow> px);
          perf = performance base;
          perf = (case pool_mode c of Some md \<Rightarrow> perf\<lparr>connection_pooling := strategy_of U md\<rparr> | None \<Rightarrow> perf);
          perf = (case default_pool_size c of Some n \<Rightarrow> perf\<lparr>pool_size := n\<rparr> | None \<Rightarrow> perf);
          perf = (case min_pool_size c of Some n \<Rightarrow> perf\<lparr>pool_min_idle := n\<rparr> | None \<Rightarrow> perf);
          perf = (case server_idle_timeout c of Some n \<Rightarrow> perf\<lparr>pool_recycle_secs := n\<rparr> | None \<Rightarrow> perf)
      in run_map (\<lambda>ms.
           let be = (backend base)\<lparr>connection_timeout_ms := ms\<rparr>
           in base\<lparr>proxy := px, performance := perf,
                   backend := (case pb_databases c of (_, e) # _ \<Rightarrow> with_entry e be | [] \<Rightarrow> be)\<rparr>)
         (case server_connect_timeout c of
            Some secs \<Rightarrow> u64_mul oc secs 1000 | None \<Rightarrow> Ret (connection_timeout_ms (backend base))))"

section \<open>Entries as text\<close>

definition entry_words :: "database_entry \<Rightarrow> rstr list" where
  "entry_words e =
     List.map_filter (\<lambda>(k, v). map_option (\<lambda>t. lit k @ 61 # t) v)
       [(''host'', de_host e), (''port'', map_option show_nat (de_port e)), (''dbname'', de_dbname e),
        (''user'', de_user e), (''password'', de_password e)]"

definition print_entry :: "database_entry \<Rightarrow> rstr" where
  "print_entry e = concat (map (\<lambda>w. w @ [32]) (entry_words e))"

definition plain_text :: "rstr option \<Rightarrow> bool" where
  "plain_text v = (case v of Some t \<Rightarrow> list_all (\<lambda>c. \<not> is_whitespace c) t | None \<Rightarrow> True)"

definition entry_ok :: "database_entry \<Rightarrow> bool" where
  "entry_ok e = (plain_text (de_host e) \<and> plain_text (de_dbname e) \<and> plain_text (de_user e) \<and> plain_text (de_password e)
     \<and> (case de_port e of Some p \<Rightarrow> p \<le> 65535 | None \<Rightarrow> True))"

lemma split_whitespace_print:
  "list_all (\<lambda>w. w \<noteq> [] \<and> list_all (\<lambda>c. \<not> is_whitespace c) w) ws \<Longrightarrow> split_whitespace (concat (map (\<lambda>w. w @ [32]) ws)) = ws"
proof (induction ws)
  case Nil
  show ?case by (simp add: split_whitespace.simps)
qed (simp add: split_whitespace_word)

lemma entry_words_plain:
  "entry_ok e \<Longrightarrow> list_all (\<lambda>w. w \<noteq> [] \<and> list_all (\<lambda>c. \<not> is_whitespace c) w) (entry_words e)"
proof -
  assume ok: "entry_ok e"
  have d: "list_all (\<lambda>c. \<not> is_whitespace c) (show_nat n)" for n
    using show_nat_digits [of n] by (auto simp: list_all_iff is_digit_def is_whitespace_def)
  show ?thesis
    using ok d
    by (auto simp: entry_words_def List.map_filter_def entry_ok_def plain_text_def lit_def is_whitespace_def
        split: option.splits)
qed

text \<open>What a word of an entry does, whatever the case tables are.\<close>

lemma parse_entry_part_word:
  "parse_entry_part U (lit ''host'' @ 61 # v) e = e\<lparr>de_host := Some v\<rparr>"
  "parse_entry_part U (lit ''port'' @ 61 # v) e = e\<lparr>de_port := parse_u16 v\<rparr>"
  "parse_entry_part U (lit ''dbname'' @ 61 # v) e = e\<lparr>de_dbname := Some v\<rparr>"
  "parse_entry_part U (lit ''user'' @ 61 # v) e = e\<lparr>de_user := Some v\<rparr>"
  "parse_entry_part U (lit ''password'' @ 61 # v) e = e\<lparr>de_password := Some v\<rparr>"
proof -
  have s: "split_once 61 (lit k @ 61 # v) = Some (lit k, v)" if "61 \<notin> set (lit k)" for k
    by (rule split_once_first [OF that])
  have l: "to_lowercase U (lit k) = lit k" if "list_all (\<lambda>c. 97 \<le> c \<and> c \<le> 122) (lit k)" for k
    using that by (subst to_lowercase_ascii) (auto simp: ascii_def list_all_iff ascii_lower_def intro!: map_idI)
  have k: "61 \<notin> set (lit k) \<and> list_all (\<lambda>c. 97 \<le> c \<and> c \<le> 122) (lit k)"
    if "k \<in> {''host'', ''port'', ''dbname'', ''user'', ''password''}" for k
    using that by (auto simp: lit_def)
  show "parse_entry_part U (lit ''host'' @ 61 # v) e = e\<lparr>de_host := Some v\<rparr>"
    "parse_entry_part U (lit ''port'' @ 61 # v) e = e\<lparr>de_port := parse_u16 v\<rparr>"
    "parse_entry_part U (lit ''dbname'' @ 61 # v) e = e\<lparr>de_dbname := Some v\<rparr>"
    "parse_entry_part U (lit ''user'' @ 61 # v) e = e\<lparr>de_user := Some v\<rparr>"
    "parse_entry_part U (lit ''password'' @ 61 # v) e = e\<lparr>de_password := Some v\<rparr>"
    unfolding parse_entry_part_def using k by (simp_all add: s l) (simp_all add: lit_def)
qed

text \<open>
  A database entry of a PgBouncer file survives printing and parsing: when no text has white
  space in it and the port is a port, parsing the printed connection string gives the entry back,
  also when a password contains equal signs.
\<close>

lemma pgbouncer_entry_roundtrip:
  assumes "entry_ok e"
  shows "parse_entry U (print_entry e) = e"
proof -
  have w: "split_whitespace (print_entry e) = entry_words e"
    unfolding print_entry_def by (rule split_whitespace_print [OF entry_words_plain [OF assms]])
  have p: "parse_u16 (show_nat p) = Some p" if "de_port e = Some p" for p
    using assms that by (intro parse_unsigned_show_nat) (simp add: entry_ok_def)
  show ?thesis
    unfolding parse_entry_def w entry_words_def
    by (cases e; cases "de_host e"; cases "de_port e"; cases "de_dbname e"; cases "de_user e"; cases "de_password e")
      (use p in \<open>simp_all add: List.map_filter_def no_entry_def parse_entry_part_word\<close>)
qed

section \<open>Precedence and translation\<close>

lemma load_prefers_env:
  assumes "load_pgbouncer U file env = Some c" and "listen_port (from_env U env) = Some p"
  shows "listen_port c = Some p"
  using assms by (auto simp: load_pgbouncer_def merge_settings_def override_def)

text \<open>Without any setting the proxy still moves to PgBouncer's default address, whatever the base says.\<close>

lemma empty_settings_move_listener:
  "to_scry_config oc U no_settings base = Ret (base\<lparr>proxy := (proxy base)\<lparr>listen_address := lit ''127.0.0.1:6432''\<rparr>\<rparr>)"
  by (simp add: to_scry_config_def no_settings_def Let_def lit_def show_nat.simps)

text \<open>A connect timeout too large for milliseconds panics with overflow checks and wraps without.\<close>

lemma connect_timeout_overflow:
  assumes "server_connect_timeout c = Some secs" and "2 ^ 64 \<le> secs * 1000"
  shows "to_scry_config True U c base = Panic"
    and "\<exists>cfg. to_scry_config False U c base = Ret cfg \<and> connection_timeout_ms (backend cfg) = secs * 1000 mod 2 ^ 64"
  using assms by (auto simp: to_scry_config_def u64_mul_def Let_def with_entry_def split: list.splits)

end
