(* ===== verification/Client_Registry.thy ===== *)
theory Client_Registry
  imports Health_Metrics Pgbouncer_Config
begin

text \<open>
  \<open>proxy/admin_handles.rs\<close> and \<open>proxy/server.rs\<close>: the registry of live clients, the accept loop with its
  connection limit, the life of a connection task up to its drop guard, and draining.

  The accept loop is one task; connection tasks run beside it.  What one of them does between two
  awaits is a step, and so is the moment between spawning a task and recording its abort handle.
\<close>

section \<open>The client registry\<close>

datatype client_state = Active | Admin

record client_entry =
  entry_conn_id :: nat
  entry_addr :: rstr
  entry_user :: rstr
  entry_database :: rstr
  entry_state :: client_state
  connect_time :: nat
  last_request_time :: nat
  entry_tls :: bool

text \<open>An abort handle is the number of the connection whose task it stops.\<close>

record client_registry =
  inner :: "(nat \<times> client_entry) list"
  abort_handles :: "(nat \<times> nat) list"

definition new_registry :: client_registry where
  "new_registry = \<lparr>inner = [], abort_handles = []\<rparr>"

definition register_client :: "client_entry \<Rightarrow> client_registry \<Rightarrow> client_registry" where
  "register_client e r = r\<lparr>inner := AList.update (entry_conn_id e) e (inner r)\<rparr>"

definition register_abort_handle :: "nat \<Rightarrow> nat \<Rightarrow> client_registry \<Rightarrow> client_registry" where
  "register_abort_handle cid h r = r\<lparr>abort_handles := AList.update cid h (abort_handles r)\<rparr>"

definition deregister :: "nat \<Rightarrow> client_registry \<Rightarrow> client_registry" where
  "deregister cid r = r\<lparr>inner := AList.delete cid (inner r), abort_handles := AList.delete cid (abort_handles r)\<rparr>"

definition matched_clients :: "rstr \<Rightarrow> client_registry \<Rightarrow> nat list" where
  "matched_clients db r =
     map entry_conn_id (filter (\<lambda>e. eq_ignore_ascii_case (entry_database e) db) (map snd (inner r)))"

text \<open>The numbers killed, the handles aborted and the registry after it.\<close>

definition kill_by_database :: "rstr \<Rightarrow> client_registry \<Rightarrow> nat list \<times> nat list \<times> client_registry" where
  "kill_by_database db r =
     (let matched = matched_clients db r
      in if matched = [] then (matched, [], r)
         else (matched, List.map_filter (map_of (abort_handles r)) matched,
               r\<lparr>abort_handles := fold AList.delete matched (abort_handles r),
                 inner := fold AList.delete matched (inner r)\<rparr>))"

definition touch :: "nat \<Rightarrow> nat \<Rightarrow> client_state \<Rightarrow> client_registry \<Rightarrow> client_registry" where
  "touch now cid st r =
     (case map_of (inner r) cid of
        Some e \<Rightarrow> r\<lparr>inner := AList.update cid (e\<lparr>entry_state := st, last_request_time := now\<rparr>) (inner r)\<rparr>
      | None \<Rightarrow> r)"

definition registry_len :: "client_registry \<Rightarrow> nat" where
  "registry_len r = length (inner r)"

definition registry_snapshot :: "client_registry \<Rightarrow> client_entry list" where
  "registry_snapshot r = map snd (inner r)"

definition registry_get :: "nat \<Rightarrow> client_registry \<Rightarrow> client_entry option" where
  "registry_get cid r = map_of (inner r) cid"

section \<open>The accept loop and the connection tasks\<close>

text \<open>A task that has not parsed the startup message is \<open>Starting\<close>, after that it is \<open>Serving\<close>.\<close>

datatype task_phase = Starting | Serving

record server_state =
  connection_count :: nat
  active_connections :: nat
  tasks :: "(nat \<times> task_phase) list"
  spawning :: "nat option"
  registry :: client_registry
  sv_metrics :: proxy_metrics
  aborted :: "nat list"

definition new_server :: "nat \<Rightarrow> health_config \<Rightarrow> server_state" where
  "new_server k hc = \<lparr>connection_count = 0, active_connections = 0, tasks = [], spawning = None,
     registry = new_registry, sv_metrics = new_metrics k hc, aborted = []\<rparr>"

definition reject_response :: bytes where
  "reject_response =
     (let body = (83 # as_bytes (lit ''FATAL'') @ [0]) @ (67 # as_bytes (lit ''53300'') @ [0])
            @ (77 # as_bytes (lit (''so'' @ ''rry, too many clients already'')) @ [0]) @ [0]
      in 69 # be32 (as_i32 (length body + 4)) @ body)"

definition spawn_connection_handler :: "server_state \<Rightarrow> server_state" where
  "spawn_connection_handler s =
     (let cid = connection_count s + 1
      in s\<lparr>connection_count := cid, active_connections := incr (active_connections s),
           sv_metrics := (sv_metrics s)\<lparr>mt_active_connections := incr (mt_active_connections (sv_metrics s))\<rparr>,
           tasks := (cid, Starting) # tasks s, spawning := Some cid\<rparr>)"

text \<open>What is written back to a client that is not served: the error over TCP, nothing over a UNIX socket.\<close>

definition accept_connection :: "nat \<Rightarrow> bool \<Rightarrow> server_state \<Rightarrow> bytes \<times> server_state" where
  "accept_connection max_conns tcp s =
     (if max_conns \<le> active_connections s
      then (if tcp then reject_response else [],
            s\<lparr>sv_metrics := (sv_metrics s)\<lparr>connections_rejected := incr (connections_rejected (sv_metrics s))\<rparr>\<rparr>)
      else ([], spawn_connection_handler s))"

definition record_handle :: "nat \<Rightarrow> server_state \<Rightarrow> server_state" where
  "record_handle cid s = s\<lparr>registry := register_abort_handle cid cid (registry s), spawning := None\<rparr>"

definition identify :: "client_entry \<Rightarrow> server_state \<Rightarrow> server_state" where
  "identify e s = s\<lparr>registry := register_client e (registry s), tasks := AList.update (entry_conn_id e) Serving (tasks s)\<rparr>"

definition drop_guard :: "nat \<Rightarrow> server_state \<Rightarrow> server_state" where
  "drop_guard cid s =
     s\<lparr>active_connections := decr (active_connections s),
       sv_metrics := (sv_metrics s)\<lparr>mt_active_connections := decr (mt_active_connections (sv_metrics s))\<rparr>,
       registry := deregister cid (registry s), tasks := AList.delete cid (tasks s)\<rparr>"

definition kill_clients :: "rstr \<Rightarrow> server_state \<Rightarrow> nat list \<times> server_state" where
  "kill_clients db s =
     (let (matched, hs, r) = kill_by_database db (registry s)
      in (matched, s\<lparr>registry := r, aborted := hs @ aborted s\<rparr>))"

text \<open>
  Draining: the tasks in \<open>ending\<close> finish before the deadline; when others are left they are aborted,
  which runs their guards too: each has been polled by then, and so holds its guard.  The result says
  whether the deadline passed.
\<close>

definition drain_connections :: "nat list \<Rightarrow> server_state \<Rightarrow> bool \<times> server_state" where
  "drain_connections ending s =
     (let s1 = fold drop_guard (filter (\<lambda>cid. cid \<in> set ending) (map fst (tasks s))) s
      in if tasks s1 = [] then (False, s1) else (True, fold drop_guard (map fst (tasks s1)) s1))"

inductive server_reaches :: "nat \<Rightarrow> server_state \<Rightarrow> server_state \<Rightarrow> bool" for max_conns s0 where
  started: "server_reaches max_conns s0 s0"
| accepting: "server_reaches max_conns s0 s \<Longrightarrow> spawning s = None
    \<Longrightarrow> server_reaches max_conns s0 (snd (accept_connection max_conns tcp s))"
| handle_recorded: "server_reaches max_conns s0 s \<Longrightarrow> spawning s = Some cid
    \<Longrightarrow> server_reaches max_conns s0 (record_handle cid s)"
| identified: "server_reaches max_conns s0 s \<Longrightarrow> map_of (tasks s) (entry_conn_id e) = Some Starting
    \<Longrightarrow> server_reaches max_conns s0 (identify e s)"
| ended: "server_reaches max_conns s0 s \<Longrightarrow> cid \<in> fst ` set (tasks s)
    \<Longrightarrow> server_reaches max_conns s0 (drop_guard cid s)"
| killed: "server_reaches max_conns s0 s \<Longrightarrow> server_reaches max_conns s0 (snd (kill_clients db s))"

lemmas server_ops = accept_connection_def spawn_connection_handler_def record_handle_def identify_def drop_guard_def
  kill_clients_def

section \<open>Association lists\<close>

lemma map_of_fold_delete: "map_of (fold AList.delete ks al) = map_of al |` (- set ks)"
  by (induction ks arbitrary: al) (auto simp: delete_conv' restrict_map_def fun_eq_iff)

lemma distinct_fold_delete: "distinct (map fst al) \<Longrightarrow> distinct (map fst (fold AList.delete ks al))"
  by (induction ks arbitrary: al) (auto simp: distinct_delete)

lemma length_delete_key:
  assumes "distinct (map fst al)" and "map_of al k = Some v"
  shows "Suc (length (AList.delete k al)) = length al"
proof -
  have n: "length xs = card (fst ` set xs)" if "distinct (map fst xs)" for xs :: "('a \<times> 'b) list"
    using distinct_card [OF that] by simp
  have "k \<in> fst ` set al" using assms(2) by (force dest: map_of_SomeD)
  then show ?thesis
    using assms(1) n [OF assms(1)] n [OF distinct_delete [OF assms(1), of k]] card_Suc_Diff1 [of "fst ` set al" k]
    by (simp add: delete_keys)
qed

lemma length_update_present:
  assumes "distinct (map fst al)" and "map_of al k = Some v"
  shows "length (AList.update k v' al) = length al"
  using assms by (induction al) auto

section \<open>The invariant of the server\<close>

definition server_ok :: "nat \<Rightarrow> server_state \<Rightarrow> bool" where
  "server_ok max_conns s \<longleftrightarrow>
     distinct (map fst (tasks s)) \<and> distinct (map fst (inner (registry s)))
   \<and> length (tasks s) \<le> max_conns
   \<and> active_connections s = length (tasks s) \<and> mt_active_connections (sv_metrics s) = length (tasks s)
   \<and> (\<forall>cid ph. map_of (tasks s) cid = Some ph \<longrightarrow> cid \<le> connection_count s)
   \<and> (\<forall>cid e. map_of (inner (registry s)) cid = Some e \<longrightarrow> entry_conn_id e = cid \<and> map_of (tasks s) cid = Some Serving)
   \<and> (\<forall>cid h. map_of (abort_handles (registry s)) cid = Some h \<longrightarrow> h = cid \<and> cid \<le> connection_count s)
   \<and> (\<forall>cid. spawning s = Some cid \<longrightarrow> cid \<le> connection_count s \<and> map_of (abort_handles (registry s)) cid = None)
   \<and> (\<forall>cid ph. map_of (tasks s) cid = Some ph \<longrightarrow> spawning s \<noteq> Some cid
        \<longrightarrow> ph = Starting \<or> map_of (inner (registry s)) cid \<noteq> None \<longrightarrow> map_of (abort_handles (registry s)) cid \<noteq> None)"

lemmas registry_ops = register_client_def register_abort_handle_def deregister_def new_registry_def

lemma server_ok_new: "server_ok max_conns (new_server k hc)"
  by (simp add: server_ok_def new_server_def new_registry_def new_metrics_def)

lemma matched_clients_iff:
  assumes "distinct (map fst (inner r))" and "\<And>cid e. map_of (inner r) cid = Some e \<Longrightarrow> entry_conn_id e = cid"
  shows "cid \<in> set (matched_clients db r)
    \<longleftrightarrow> (\<exists>e. map_of (inner r) cid = Some e \<and> eq_ignore_ascii_case (entry_database e) db)"
proof -
  have "entry_conn_id e = c" if "(c, e) \<in> set (inner r)" for c e
    using assms(2) [of c e] map_of_is_SomeI [OF assms(1) that] by simp
  then have "cid \<in> set (matched_clients db r) \<longleftrightarrow> (\<exists>e. (cid, e) \<in> set (inner r) \<and> eq_ignore_ascii_case (entry_database e) db)"
    by (force simp: matched_clients_def)
  then show ?thesis by (simp add: map_of_eq_Some_iff [OF assms(1)])
qed

lemma server_ok_accept:
  assumes "server_ok max_conns s" and "spawning s = None" and "max_conns < usize_modulus"
  shows "server_ok max_conns (snd (accept_connection max_conns tcp s))"
proof (cases "max_conns \<le> active_connections s")
  case True
  then show ?thesis using assms(1) by (simp add: server_ok_def accept_connection_def)
next
  case False
  let ?c = "Suc (connection_count s)"
  have fresh: "map_of (tasks s) ?c = None" "map_of (inner (registry s)) ?c = None" "map_of (abort_handles (registry s)) ?c = None"
    using assms(1) unfolding server_ok_def by (metis not_less_eq_eq option.exhaust order_refl)+
  then have "?c \<notin> fst ` set (tasks s)" by (simp add: map_of_eq_None_iff)
  moreover have "incr (length (tasks s)) = Suc (length (tasks s))"
    using assms(1, 3) False unfolding server_ok_def incr_def by simp
  ultimately show ?thesis
    using assms(1, 2) False fresh
    unfolding server_ok_def accept_connection_def spawn_connection_handler_def Let_def
    by (auto simp: le_Suc_eq split: if_splits)
qed

lemma server_ok_handle:
  assumes "server_ok max_conns s" and "spawning s = Some cid"
  shows "server_ok max_conns (record_handle cid s)"
  using assms unfolding server_ok_def record_handle_def register_abort_handle_def
  by (auto simp: update_conv' split: if_splits)

lemma server_ok_identify:
  assumes "server_ok max_conns s" and "map_of (tasks s) (entry_conn_id e) = Some Starting"
  shows "server_ok max_conns (identify e s)"
proof -
  have "length (AList.update (entry_conn_id e) Serving (tasks s)) = length (tasks s)"
    using assms unfolding server_ok_def by (intro length_update_present) auto
  then show ?thesis
    using assms unfolding server_ok_def identify_def register_client_def
    by (auto simp: update_conv' distinct_update split: if_splits)
qed

lemma server_ok_drop:
  assumes "server_ok max_conns s" and "map_of (tasks s) cid = Some ph" and "max_conns < usize_modulus"
  shows "server_ok max_conns (drop_guard cid s)"
proof -
  have n: "Suc (length (AList.delete cid (tasks s))) = length (tasks s)"
    using assms unfolding server_ok_def by (intro length_delete_key) auto
  then have "decr (length (tasks s)) = length (AList.delete cid (tasks s))"
    using assms(1, 3) unfolding server_ok_def decr_def by (auto simp: n [symmetric])
  then show ?thesis
    using assms n unfolding server_ok_def drop_guard_def deregister_def
    by (auto simp: delete_conv' distinct_delete split: if_splits)
qed

lemma server_ok_kill:
  assumes "server_ok max_conns s"
  shows "server_ok max_conns (snd (kill_clients db s))"
proof (cases "matched_clients db (registry s) = []")
  case True
  then show ?thesis using assms by (simp add: kill_clients_def kill_by_database_def server_ok_def)
next
  case False
  have m: "map_of (tasks s) cid = Some Serving" if "cid \<in> set (matched_clients db (registry s))" for cid
    using that assms matched_clients_iff [of "registry s" cid db] unfolding server_ok_def by blast
  show ?thesis
    using False assms m unfolding server_ok_def kill_clients_def kill_by_database_def Let_def
    by (auto simp: map_of_fold_delete distinct_fold_delete restrict_map_def simp del: map_of_eq_Some_iff split: if_splits)
qed

lemma server_ok_reaches:
  assumes "server_reaches max_conns s0 s" and "server_ok max_conns s0" and "max_conns < usize_modulus"
  shows "server_ok max_conns s"
  using assms(1)
proof induction
  case (ended s cid)
  then show ?case using server_ok_drop [OF ended.IH _ assms(3)] by (metis map_of_eq_None_iff option.exhaust)
qed (use assms(2, 3) in \<open>auto intro: server_ok_accept server_ok_handle server_ok_identify server_ok_kill\<close>)

text \<open>The guards of all tasks, run in any order, leave nothing behind.\<close>

lemma tasks_drop [simp]: "tasks (drop_guard cid s) = AList.delete cid (tasks s)"
  by (simp add: drop_guard_def)

lemma tasks_fold_drop: "tasks (fold drop_guard ks s) = fold AList.delete ks (tasks s)"
  by (induction ks arbitrary: s) simp_all

lemma server_ok_fold_drop:
  assumes "server_ok max_conns s" and "distinct ks" and "set ks \<subseteq> fst ` set (tasks s)" and "max_conns < usize_modulus"
  shows "server_ok max_conns (fold drop_guard ks s)"
  using assms(1, 2, 3)
proof (induction ks arbitrary: s)
  case (Cons k ks)
  obtain ph where "map_of (tasks s) k = Some ph" using Cons.prems(3) by (auto simp: map_of_eq_None_iff dest: weak_map_of_SomeI)
  then have "server_ok max_conns (drop_guard k s)" using server_ok_drop [OF Cons.prems(1) _ assms(4)] by blast
  moreover have "set ks \<subseteq> fst ` set (tasks (drop_guard k s))" using Cons.prems by (auto simp: delete_keys)
  ultimately show ?case using Cons.IH Cons.prems(2) by simp
qed simp

lemma drained_empty:
  assumes "server_ok max_conns s" and "max_conns < usize_modulus"
  shows "active_connections (snd (drain_connections ending s)) = 0 \<and> inner (registry (snd (drain_connections ending s))) = []"
proof -
  let ?ks = "filter (\<lambda>cid. cid \<in> set ending) (map fst (tasks s))"
  let ?s1 = "fold drop_guard ?ks s"
  have d: "distinct (map fst (tasks s))" using assms(1) by (simp add: server_ok_def)
  have ok: "server_ok max_conns ?s1"
    by (rule server_ok_fold_drop [OF assms(1) _ _ assms(2)]) (use d in auto)
  have d1: "distinct (map fst (tasks ?s1))" using ok unfolding server_ok_def by blast
  have e: "active_connections t = 0 \<and> inner (registry t) = []" if "server_ok max_conns t" and "tasks t = []" for t
  proof -
    have "map_of (inner (registry t)) c = None" for c
      using that by (cases "map_of (inner (registry t)) c") (simp_all add: server_ok_def)
    then have "map_of (inner (registry t)) = Map.empty" by (rule ext)
    then have "inner (registry t) = []" by simp
    then show ?thesis using that by (simp add: server_ok_def)
  qed
  have "tasks (fold drop_guard (map fst (tasks ?s1)) ?s1) = []"
  proof -
    have "map_of xs |` (- set (map fst xs)) = Map.empty" for xs :: "(nat \<times> task_phase) list"
      by (rule ext) (simp add: restrict_map_def map_of_eq_None_iff)
    then show ?thesis by (metis map_of_fold_delete map_of_eq_empty_iff tasks_fold_drop)
  qed
  moreover have "server_ok max_conns (fold drop_guard (map fst (tasks ?s1)) ?s1)"
    by (rule server_ok_fold_drop [OF ok d1 _ assms(2)]) simp
  ultimately show ?thesis using e ok by (simp add: drain_connections_def Let_def)
qed


definition example_entry :: client_entry where
  "example_entry = \<lparr>entry_conn_id = 1, entry_addr = lit ''unix'', entry_user = lit ''u'', entry_database = lit ''app'',
     entry_state = Active, connect_time = 5, last_request_time = 5, entry_tls = False\<rparr>"

definition example_server :: server_state where
  "example_server = identify example_entry (record_handle 1 (snd (accept_connection 4 True (new_server 1 default_health_config))))"

lemma example_reached: "server_reaches 4 (new_server 1 default_health_config) example_server"
  unfolding example_server_def
  by (intro server_reaches.intros)
    (simp_all add: new_server_def accept_connection_def spawn_connection_handler_def record_handle_def example_entry_def)


section \<open>Killing clients\<close>

lemma map_of_kill:
  "map_of (inner (registry (snd (kill_clients db s)))) = map_of (inner (registry s)) |` (- set (matched_clients db (registry s)))"
  "map_of (abort_handles (registry (snd (kill_clients db s)))) = map_of (abort_handles (registry s)) |` (- set (matched_clients db (registry s)))"
  by (simp_all add: kill_clients_def kill_by_database_def Let_def map_of_fold_delete restrict_map_def)

lemma kill_result:
  "fst (kill_clients db s) = matched_clients db (registry s)"
  "set (aborted (snd (kill_clients db s)))
     = set (aborted s) \<union> {h. \<exists>cid \<in> set (matched_clients db (registry s)). map_of (abort_handles (registry s)) cid = Some h}"
  by (auto simp: kill_clients_def kill_by_database_def Let_def List.map_filter_def intro: rev_image_eqI)



text \<open>A client killed while the accept loop has yet to record its handle leaves the list and keeps running.\<close>

lemma kill_loses_spawning_client:
  assumes "server_ok max_conns s" and "spawning s = Some cid" and "registry_get cid (registry s) = Some e"
    and "eq_ignore_ascii_case (entry_database e) db" and "cid \<notin> set (aborted s)"
  shows "registry_get cid (registry (snd (kill_clients db s))) = None
    \<and> map_of (tasks (snd (kill_clients db s))) cid = Some Serving \<and> cid \<notin> set (aborted (snd (kill_clients db s)))"
proof -
  have d: "distinct (map fst (inner (registry s)))" and n: "\<And>c e. map_of (inner (registry s)) c = Some e \<Longrightarrow> entry_conn_id e = c"
    and sv: "map_of (tasks s) cid = Some Serving" and h: "\<And>c h. map_of (abort_handles (registry s)) c = Some h \<Longrightarrow> h = c"
    and nh: "map_of (abort_handles (registry s)) cid = None"
    using assms(1, 2, 3) unfolding server_ok_def registry_get_def by blast+
  have "cid \<in> set (matched_clients db (registry s))"
    using matched_clients_iff [OF d n] assms(3, 4) by (auto simp: registry_get_def)
  moreover have "tasks (snd (kill_clients db s)) = tasks s" by (simp add: kill_clients_def split: prod.splits)
  ultimately show ?thesis
    using assms(5) sv h nh unfolding registry_get_def map_of_kill restrict_map_def kill_result(2) by fastforce
qed

text \<open>
  The comment on the abort handles says that one can never outlive its task.  A connection whose
  task ends between being spawned and having its handle recorded leaves the handle behind for good:
  no later step of the server removes it.
\<close>

lemma abort_handle_outlives_task:
  assumes "server_reaches max_conns (new_server k hc) s" and "max_conns < usize_modulus" and "spawning s = Some cid"
    and "cid \<in> fst ` set (tasks s)" and "server_reaches max_conns (record_handle cid (drop_guard cid s)) u"
  shows "map_of (tasks u) cid = None \<and> map_of (abort_handles (registry u)) cid = Some cid"
proof -
  let ?t = "record_handle cid (drop_guard cid s)"
  have ok: "server_ok max_conns s" by (rule server_ok_reaches [OF assms(1) server_ok_new assms(2)])
  have "server_reaches max_conns (new_server k hc) ?t"
    by (intro server_reaches.intros assms(1, 4)) (simp add: drop_guard_def assms(3))
  then have t: "server_ok max_conns ?t" by (rule server_ok_reaches [OF _ server_ok_new assms(2)])
  have "cid \<le> connection_count s" using ok assms(3) unfolding server_ok_def by blast
  then have start: "cid \<le> connection_count ?t \<and> spawning ?t = None \<and> map_of (tasks ?t) cid = None
      \<and> map_of (abort_handles (registry ?t)) cid = Some cid"
    by (simp add: record_handle_def drop_guard_def registry_ops update_conv' delete_conv')
  from assms(5) have "server_ok max_conns u \<and> cid \<le> connection_count u \<and> spawning u \<noteq> Some cid \<and> map_of (tasks u) cid = None
      \<and> map_of (abort_handles (registry u)) cid = Some cid"
  proof induction
    case started
    then show ?case using t start by simp
  next
    case (accepting s tcp)
    then show ?case using server_ok_accept [of max_conns s tcp] assms(2) by (auto simp: server_ops Let_def)
  next
    case (handle_recorded s c)
    then show ?case using server_ok_handle [of max_conns s c] by (auto simp: record_handle_def registry_ops update_conv')
  next
    case (identified s e)
    then show ?case using server_ok_identify [of max_conns s e] by (auto simp: identify_def registry_ops update_conv')
  next
    case (ended s c)
    then obtain ph where "map_of (tasks s) c = Some ph" by (metis map_of_eq_None_iff option.exhaust)
    then show ?case using ended server_ok_drop [of max_conns s c ph] assms(2)
      by (auto simp: drop_guard_def registry_ops delete_conv')
  next
    case (killed s db)
    then have d: "distinct (map fst (inner (registry s)))"
      and n: "\<And>c e. map_of (inner (registry s)) c = Some e \<Longrightarrow> entry_conn_id e = c"
      and none: "map_of (inner (registry s)) cid = None"
      unfolding server_ok_def by (blast | metis option.exhaust option.distinct(1))+
    have "cid \<notin> set (matched_clients db (registry s))" using matched_clients_iff [OF d n] none by auto
    moreover have "tasks (snd (kill_clients db s)) = tasks s" "spawning (snd (kill_clients db s)) = spawning s"
      "connection_count (snd (kill_clients db s)) = connection_count s"
      by (simp_all add: kill_clients_def split: prod.splits)
    ultimately show ?case using killed.IH server_ok_kill [of max_conns s db] by (simp add: map_of_kill)
  qed
  then show ?thesis by blast
qed

end
