(* ===== verification/Backend_Link.thy ===== *)
theory Backend_Link
  imports Scry_Config
begin

text \<open>
  The link to a backend: \<open>protocol/postgres.rs\<close> and \<open>protocol/traits.rs\<close> (health check and reset of a
  pooled connection), \<open>tls/config.rs\<close>, \<open>tls/backend.rs\<close> and \<open>tls/transport.rs\<close> (TLS towards clients and
  backends), and the pool's \<open>create\<close> and \<open>recycle\<close> in \<open>proxy/tcp_pool.rs\<close>.

  What arrives on a connection is a list of events; reading a PEM file, building a configuration of the
  TLS library and its handshake are arguments.  A scan that never ends is the value \<open>None\<close>: it does not
  await, so no deadline interrupts it.
\<close>

section \<open>The Postgres protocol\<close>

datatype read_event = Chunk bytes | ReadFailed | DeadlinePassed

datatype ready_wait = GotReady bool | ReadErr | TimedOut

definition MAX_RESET_BUFFER :: nat where
  "MAX_RESET_BUFFER = 64 * 1024"

text \<open>Reading up to a ReadyForQuery; when the events are used up the deadline passes.\<close>

fun read_until_ready_for_query ::
    "bool \<Rightarrow> bytes \<Rightarrow> read_event list \<Rightarrow> (ready_wait \<times> read_event list) run option" where
  "read_until_ready_for_query oc buffer [] = Some (Ret (TimedOut, []))"
| "read_until_ready_for_query oc buffer (ReadFailed # evs) = Some (Ret (ReadErr, evs))"
| "read_until_ready_for_query oc buffer (DeadlinePassed # evs) = Some (Ret (TimedOut, evs))"
| "read_until_ready_for_query oc buffer (Chunk data # evs) =
     (if data = [] then Some (Ret (GotReady False, evs))
      else (case extract_ready_for_query oc (buffer @ data) of
          None \<Rightarrow> None
        | Some Panic \<Rightarrow> Some Panic
        | Some (Ret (Some status)) \<Rightarrow> Some (Ret (GotReady (status = 73), evs))
        | Some (Ret None) \<Rightarrow>
            (case extract_error oc (buffer @ data) of
               Panic \<Rightarrow> Some Panic
             | Ret _ \<Rightarrow>
                 if MAX_RESET_BUFFER < length (buffer @ data) then Some (Ret (GotReady False, evs))
                 else read_until_ready_for_query oc (buffer @ data) evs)))"

definition query_message :: "string \<Rightarrow> bytes" where
  "query_message q = (let query = as_bytes (lit q) @ [0] in 81 # be32 (as_i32 (4 + length query)) @ query)"

text \<open>The result, the bytes sent and what is left to read.  \<open>Inl\<close> is the error of a failed write.\<close>

definition reset_connection ::
    "bool \<Rightarrow> bool \<Rightarrow> read_event list \<Rightarrow> ((unit + bool) \<times> bytes \<times> read_event list) run option" where
  "reset_connection oc write_ok evs =
     (if \<not> write_ok then Some (Ret (Inl (), [], evs))
      else map_option (run_map (\<lambda>(w, evs'). (Inr (w = GotReady True), query_message ''DISCARD ALL'', evs')))
             (read_until_ready_for_query oc [] evs))"

definition health_check ::
    "bool \<Rightarrow> bool \<Rightarrow> read_event list \<Rightarrow> ((unit + bool) \<times> bytes \<times> read_event list) run option" where
  "health_check oc write_ok evs =
     (if \<not> write_ok then Some (Ret (Inr False, [], evs))
      else map_option (run_map (\<lambda>(w, evs'). (Inr (w = GotReady True), query_message '';'', evs')))
             (read_until_ready_for_query oc [] evs))"

text \<open>
  \<open>recycle\<close> of the pool on a connection, over the health check and the reset of its protocol: the
  decision, the bytes sent and the connection after it.
\<close>

definition recycle_connection ::
    "('s \<Rightarrow> ((unit + bool) \<times> bytes \<times> 's) run option) \<Rightarrow> ('s \<Rightarrow> ((unit + bool) \<times> bytes \<times> 's) run option) \<Rightarrow> 's
      \<Rightarrow> ((recycle_error + unit) \<times> bytes \<times> 's) run option" where
  "recycle_connection check reset s =
     (case check s of
        None \<Rightarrow> None
      | Some Panic \<Rightarrow> Some Panic
      | Some (Ret (Inl _, out, s1)) \<Rightarrow> Some (Ret (recycle None None, out, s1))
      | Some (Ret (Inr False, out, s1)) \<Rightarrow> Some (Ret (recycle (Some False) None, out, s1))
      | Some (Ret (Inr True, out, s1)) \<Rightarrow>
          map_option (run_map (\<lambda>(r, out2, s2).
              (recycle (Some True) (case r of Inl _ \<Rightarrow> None | Inr done \<Rightarrow> Some done), out @ out2, s2)))
            (reset s1))"

definition backend_addr :: "rstr \<Rightarrow> nat \<Rightarrow> rstr" where
  "backend_addr host port = host @ [58] @ show_nat port"

section \<open>TLS configurations\<close>

datatype tls_error =
    CertificateNotConfigured
  | KeyNotConfigured
  | CertificateReadError
  | KeyReadError
  | NoCertificatesFound rstr
  | NoPrivateKeyFound rstr
  | ConfigBuildError
  | CaReadError

text \<open>
  The TLS library: the certificates of a PEM file (an entry that does not parse is \<open>None\<close>), its first key
  (\<open>Inl True\<close> when the file has none), and what it refuses.  Certificates and keys are opaque.
\<close>

record tls_library =
  pem_file_iter :: "rstr \<Rightarrow> nat option list option"
  key_from_pem_file :: "rstr \<Rightarrow> bool + nat"
  root_accepted :: "nat \<Rightarrow> bool"
  verifier_built :: "nat list \<Rightarrow> bool"
  cert_matches_key :: "nat list \<Rightarrow> nat \<Rightarrow> bool"
  tls_server_roots :: "nat list"

definition load_certs :: "tls_library \<Rightarrow> rstr \<Rightarrow> tls_error + nat list" where
  "load_certs L path =
     (case pem_file_iter L path of
        None \<Rightarrow> Inl CertificateReadError
      | Some items \<Rightarrow>
          (let certs = List.map_filter id items in if certs = [] then Inl (NoCertificatesFound path) else Inr certs))"

definition load_private_key :: "tls_library \<Rightarrow> rstr \<Rightarrow> tls_error + nat" where
  "load_private_key L path =
     (case key_from_pem_file L path of
        Inr key \<Rightarrow> Inr key
      | Inl no_items \<Rightarrow> Inl (if no_items then NoPrivateKeyFound path else KeyReadError))"

definition load_ca_certs :: "tls_library \<Rightarrow> rstr \<Rightarrow> tls_error + nat list" where
  "load_ca_certs L path =
     (case pem_file_iter L path of
        None \<Rightarrow> Inl CaReadError
      | Some items \<Rightarrow>
          (let certs = List.map_filter id items in if list_all (root_accepted L) certs then Inr certs else Inl ConfigBuildError))"

text \<open>Towards clients: the certificate and key, and the roots a client certificate is verified with.\<close>

record client_side_tls =
  ct_certs :: "nat list"
  ct_key :: nat
  ct_client_roots :: "nat list option"

definition or_err :: "'e \<Rightarrow> 'a option \<Rightarrow> 'e + 'a" where
  "or_err e v = (case v of Some x \<Rightarrow> Inr x | None \<Rightarrow> Inl e)"

definition sum_bind :: "'e + 'a \<Rightarrow> ('a \<Rightarrow> 'e + 'b) \<Rightarrow> 'e + 'b" where
  "sum_bind r f = (case r of Inl e \<Rightarrow> Inl e | Inr x \<Rightarrow> f x)"

definition load_client_tls_config :: "tls_library \<Rightarrow> tls_config \<Rightarrow> tls_error + client_side_tls option" where
  "load_client_tls_config L tc =
     (if client_tls_sslmode tc = Disable then Inr None
      else if client_tls_sslmode tc = AllowTls \<or> client_tls_sslmode tc = Require then
        sum_bind (or_err CertificateNotConfigured (client_tls_cert_file tc)) (\<lambda>cert_path.
        sum_bind (or_err KeyNotConfigured (client_tls_key_file tc)) (\<lambda>key_path.
        sum_bind (load_certs L cert_path) (\<lambda>certs.
        sum_bind (load_private_key L key_path) (\<lambda>key.
          if cert_matches_key L certs key then Inr (Some \<lparr>ct_certs = certs, ct_key = key, ct_client_roots = None\<rparr>)
          else Inl ConfigBuildError))))
      else
        sum_bind (or_err CertificateNotConfigured (client_tls_cert_file tc)) (\<lambda>cert_path.
        sum_bind (or_err KeyNotConfigured (client_tls_key_file tc)) (\<lambda>key_path.
        sum_bind (or_err CertificateNotConfigured (client_tls_ca_file tc)) (\<lambda>ca_path.
        sum_bind (load_certs L cert_path) (\<lambda>certs.
        sum_bind (load_private_key L key_path) (\<lambda>key.
        sum_bind (load_ca_certs L ca_path) (\<lambda>root_store.
          if verifier_built L root_store \<and> cert_matches_key L certs key
          then Inr (Some \<lparr>ct_certs = certs, ct_key = key, ct_client_roots = Some root_store\<rparr>)
          else Inl ConfigBuildError)))))))"

text \<open>Towards a backend: the roots its certificate is verified with (\<open>None\<close> accepts any) and our own certificate.\<close>

record server_side_tls =
  st_roots :: "nat list option"
  st_client_cert :: "(nat list \<times> nat) option"

definition load_server_tls_config :: "tls_library \<Rightarrow> tls_config \<Rightarrow> tls_error + server_side_tls option" where
  "load_server_tls_config L tc =
     (if server_tls_sslmode tc = Disable then Inr None
      else if server_tls_sslmode tc = AllowTls \<or> server_tls_sslmode tc = Require then
        Inr (Some \<lparr>st_roots = None, st_client_cert = None\<rparr>)
      else
        sum_bind (case server_tls_ca_file tc of Some ca_path \<Rightarrow> load_ca_certs L ca_path | None \<Rightarrow> Inr (tls_server_roots L)) (\<lambda>root_store.
          case (server_tls_cert_file tc, server_tls_key_file tc) of
            (Some cert_path, Some key_path) \<Rightarrow>
              sum_bind (load_certs L cert_path) (\<lambda>certs.
              sum_bind (load_private_key L key_path) (\<lambda>key.
                if cert_matches_key L certs key
                then Inr (Some \<lparr>st_roots = Some root_store, st_client_cert = Some (certs, key)\<rparr>)
                else Inl ConfigBuildError))
          | _ \<Rightarrow> Inr (Some \<lparr>st_roots = Some root_store, st_client_cert = None\<rparr>)))"

section \<open>Connecting to a backend\<close>

definition SSL_REQUEST :: bytes where
  "SSL_REQUEST = [0, 0, 0, 8, 0x04, 0xd2, 0x16, 0x2f]"

text \<open>An encrypted transport records the configuration its handshake succeeded with.\<close>

datatype backend_transport = PlainTransport | TlsTransport server_side_tls

fun is_encrypted :: "backend_transport \<Rightarrow> bool" where
  "is_encrypted PlainTransport = False"
| "is_encrypted (TlsTransport _) = True"

datatype backend_ssl_result = BackendUpgraded backend_transport | BackendDeclined | BackendRequired

datatype link_error =
    SslRequestUnsent
  | SslResponseUnread
  | NoTlsConfig
  | InvalidHostname rstr
  | TlsHandshakeFailed
  | UnexpectedResponse byte
  | EncryptionUnsupported
  | ConnectFailed
  | NoDelayFailed
  | ConnectTimedOutAt nat rstr

text \<open>
  \<open>response\<close> is the byte the backend answers the request with; \<open>valid_name\<close> and \<open>handshake\<close> are the library's
  test of a server name and its handshake under a configuration and a name.
\<close>

definition negotiate_backend_ssl ::
    "bool \<Rightarrow> byte option \<Rightarrow> (rstr \<Rightarrow> bool) \<Rightarrow> (server_side_tls \<Rightarrow> rstr \<Rightarrow> bool) \<Rightarrow> rstr \<Rightarrow> tls_sslmode \<Rightarrow> server_side_tls option
      \<Rightarrow> (link_error + backend_ssl_result) \<times> bytes" where
  "negotiate_backend_ssl write_ok response valid_name handshake hostname sslmode cfg =
     (if sslmode = Disable then (Inr BackendDeclined, [])
      else if \<not> write_ok then (Inl SslRequestUnsent, [])
      else
        (case response of
           None \<Rightarrow> Inl SslResponseUnread
         | Some r \<Rightarrow>
             if r = 83 then
               (case cfg of
                  None \<Rightarrow> Inl NoTlsConfig
                | Some c \<Rightarrow>
                    if \<not> valid_name hostname then Inl (InvalidHostname hostname)
                    else if handshake c hostname then Inr (BackendUpgraded (TlsTransport c))
                    else Inl TlsHandshakeFailed)
             else if r = 78 then Inr (if sslmode = AllowTls then BackendDeclined else BackendRequired)
             else Inl (UnexpectedResponse r), SSL_REQUEST))"

definition upgrade_backend_to_tls ::
    "bool \<Rightarrow> byte option \<Rightarrow> (rstr \<Rightarrow> bool) \<Rightarrow> (server_side_tls \<Rightarrow> rstr \<Rightarrow> bool) \<Rightarrow> rstr \<Rightarrow> tls_sslmode \<Rightarrow> server_side_tls option
      \<Rightarrow> (link_error + backend_transport) \<times> bytes" where
  "upgrade_backend_to_tls write_ok response valid_name handshake hostname sslmode cfg =
     (case negotiate_backend_ssl write_ok response valid_name handshake hostname sslmode cfg of (r, out) \<Rightarrow>
        (sum_bind r (\<lambda>res. case res of
             BackendUpgraded transport \<Rightarrow> Inr transport
           | BackendDeclined \<Rightarrow> Inr PlainTransport
           | BackendRequired \<Rightarrow> Inl EncryptionUnsupported), out))"

text \<open>The manager of a pool, and what the network does with one attempt to connect.\<close>

record transport_manager =
  mg_backend_addr :: rstr
  mg_backend_host :: rstr
  mg_tls :: "server_side_tls option"
  mg_sslmode :: tls_sslmode
  mg_connect_timeout :: nat

record connect_io =
  io_in_time :: bool
  io_connected :: bool
  io_nodelay :: bool
  io_write_ok :: bool
  io_response :: "byte option"

record pooled_backend =
  pb_transport :: backend_transport
  pb_startup_response :: "bytes option"

definition new_manager :: "tls_library \<Rightarrow> rstr \<Rightarrow> nat \<Rightarrow> tls_config \<Rightarrow> nat \<Rightarrow> tls_error + transport_manager" where
  "new_manager L host port tc connect_timeout_ms =
     sum_bind (load_server_tls_config L tc) (\<lambda>cfg.
       Inr \<lparr>mg_backend_addr = backend_addr host port, mg_backend_host = host, mg_tls = cfg,
            mg_sslmode = server_tls_sslmode tc, mg_connect_timeout = connect_timeout_ms\<rparr>)"

definition create_backend ::
    "(rstr \<Rightarrow> bool) \<Rightarrow> (server_side_tls \<Rightarrow> rstr \<Rightarrow> bool) \<Rightarrow> transport_manager \<Rightarrow> connect_io \<Rightarrow> link_error + pooled_backend" where
  "create_backend valid_name handshake mg io =
     (if \<not> io_in_time io then Inl (ConnectTimedOutAt (mg_connect_timeout mg) (mg_backend_addr mg))
      else if \<not> io_connected io then Inl ConnectFailed
      else if \<not> io_nodelay io then Inl NoDelayFailed
      else sum_bind (fst (upgrade_backend_to_tls (io_write_ok io) (io_response io) valid_name handshake (mg_backend_host mg)
               (mg_sslmode mg) (mg_tls mg)))
             (\<lambda>transport. Inr \<lparr>pb_transport = transport, pb_startup_response = None\<rparr>))"

section \<open>Recycling\<close>

lemma read_until_idle:
  "read_until_ready_for_query oc buffer evs = Some (Ret (GotReady True, evs')) \<Longrightarrow>
   \<exists>chunks. evs = map Chunk chunks @ evs' \<and> extract_ready_for_query oc (buffer @ concat chunks) = Some (Ret (Some 73))"
proof (induction oc buffer evs rule: read_until_ready_for_query.induct)
  case (4 oc buffer data evs)
  show ?case
  proof (cases "extract_ready_for_query oc (buffer @ data) = Some (Ret None)")
    case True
    then obtain e where e: "extract_error oc (buffer @ data) = Ret e"
      using "4.prems" by (cases "extract_error oc (buffer @ data)") (auto split: if_splits)
    then have "data \<noteq> []" and "\<not> MAX_RESET_BUFFER < length (buffer @ data)"
      and "read_until_ready_for_query oc (buffer @ data) evs = Some (Ret (GotReady True, evs'))"
      using "4.prems" True by (auto split: if_splits)
    then obtain chunks where "evs = map Chunk chunks @ evs'"
      and "extract_ready_for_query oc ((buffer @ data) @ concat chunks) = Some (Ret (Some 73))"
      using "4.IH" True e by blast
    then show ?thesis by (intro exI [of _ "data # chunks"]) simp
  next
    case False
    then have "evs' = evs" and "extract_ready_for_query oc (buffer @ data) = Some (Ret (Some 73))"
      using "4.prems" by (auto split: if_splits option.splits run.splits)
    then show ?thesis by (intro exI [of _ "[data]"]) simp
  qed
qed simp_all

text \<open>
  What the pool relies on of a protocol: a health check or a reset that succeeds has sent its query and
  found the connection idle after it.
\<close>

locale wire_protocol =
  fixes check reset :: "'s \<Rightarrow> ((unit + bool) \<times> bytes \<times> 's) run option"
    and check_query reset_query :: bytes
    and idle_after :: "'s \<Rightarrow> 's \<Rightarrow> bool"
  assumes check_idle: "check s = Some (Ret (Inr True, out, s')) \<Longrightarrow> out = check_query \<and> idle_after s s'"
    and reset_idle: "reset s = Some (Ret (Inr True, out, s')) \<Longrightarrow> out = reset_query \<and> idle_after s s'"
begin

lemma recycle_accepts:
  assumes "recycle_connection check reset s = Some (Ret (Inr (), out, s'))"
  shows "out = check_query @ reset_query \<and> (\<exists>s1. idle_after s s1 \<and> idle_after s1 s')"
proof -
  from assms obtain healthy out1 s1 where h: "check s = Some (Ret (healthy, out1, s1))"
    by (auto simp: recycle_connection_def split: option.splits run.splits)
  have healthy: "healthy = Inr True"
    using assms h by (auto simp: recycle_connection_def recycle_def split: sum.splits bool.splits)
  with assms h obtain r out2 where r: "reset s1 = Some (Ret (r, out2, s'))"
    and d: "recycle (Some True) (case r of Inl _ \<Rightarrow> None | Inr done \<Rightarrow> Some done) = Inr ()" and out: "out = out1 @ out2"
    by (auto simp: recycle_connection_def run_map_Ret_iff)
  have "r = Inr True" using d by (auto simp: recycle_def split: sum.splits option.splits bool.splits)
  then show ?thesis using check_idle [of s out1 s1] reset_idle [of s1 out2 s'] h healthy r out by auto
qed

end

interpretation pg: wire_protocol "health_check oc check_sent" "reset_connection oc reset_sent"
    "query_message '';''" "query_message ''DISCARD ALL''"
    "\<lambda>evs evs'. \<exists>chunks. evs = map Chunk chunks @ evs' \<and> extract_ready_for_query oc (concat chunks) = Some (Ret (Some 73))"
  for oc check_sent reset_sent
  by unfold_locales
    (auto simp: health_check_def reset_connection_def run_map_Ret_iff split: if_splits dest!: read_until_idle)

text \<open>
  C13. A connection is handed on to the next client only after the empty query and DISCARD ALL were sent
  on it and the backend was read, after each of them, up to a ReadyForQuery with the idle status.
\<close>

theorem recycled_connection_reset:
  assumes "recycle_connection (health_check oc check_sent) (reset_connection oc reset_sent) evs = Some (Ret (Inr (), out, evs'))"
  shows "out = query_message '';'' @ query_message ''DISCARD ALL''
    \<and> (\<exists>checked reset. evs = map Chunk checked @ map Chunk reset @ evs'
         \<and> extract_ready_for_query oc (concat checked) = Some (Ret (Some 73))
         \<and> extract_ready_for_query oc (concat reset) = Some (Ret (Some 73)))"
  using pg.recycle_accepts [OF assms] by auto

lemma read_frames:
  assumes "back_valid ms" and "last_ready None ms = Some 73" and "length (back_frames ms) < 2 ^ 63"
  shows "read_until_ready_for_query oc [] (Chunk (back_frames ms) # evs) = Some (Ret (GotReady True, evs))"
proof -
  have "extract_ready_for_query oc (back_frames ms) = Some (Ret (Some 73))"
    using ready_from_frames [of ms "[]" "[]"] assms by (simp add: extract_ready_for_query_def incomplete_def)
  moreover have "back_frames ms \<noteq> []" using assms(2) by (cases ms) auto
  ultimately show ?thesis by simp
qed



theorem recycled_connection_reset_witness:
  "\<exists>checked reset. [Chunk (back_frames [(73, []), (90, [73])]), Chunk (back_frames [(67, [68, 0]), (90, [73])])]
       = map Chunk checked @ map Chunk reset @ []
     \<and> extract_ready_for_query True (concat reset) = Some (Ret (Some 73))"
proof -
  have "recycle_connection (health_check True True) (reset_connection True True)
      [Chunk (back_frames [(73, []), (90, [73])]), Chunk (back_frames [(67, [68, 0]), (90, [73])])]
    = Some (Ret (Inr (), query_message '';'' @ query_message ''DISCARD ALL'', []))"
    using read_frames [of "[(73, []), (90, [73])]"] read_frames [of "[(67, [68, 0]), (90, [73])]"]
    by (simp add: recycle_connection_def health_check_def reset_connection_def recycle_def back_valid_def msg_tags
        del: read_until_ready_for_query.simps)
  from recycled_connection_reset [OF this] show ?thesis by blast
qed

section \<open>Encryption\<close>

lemma sum_bind_Inr_iff: "sum_bind r f = Inr y \<longleftrightarrow> (\<exists>x. r = Inr x \<and> f x = Inr y)"
  by (cases r) (simp_all add: sum_bind_def)

lemma server_tls_roots:
  assumes "load_server_tls_config L tc = Inr (Some c)" and "server_tls_sslmode tc = VerifyCa \<or> server_tls_sslmode tc = VerifyFull"
  shows "\<exists>roots. st_roots c = Some roots
    \<and> (case server_tls_ca_file tc of Some f \<Rightarrow> load_ca_certs L f = Inr roots | None \<Rightarrow> roots = tls_server_roots L)"
  using assms
  by (cases "server_tls_ca_file tc"; cases "server_tls_cert_file tc"; cases "server_tls_key_file tc")
    (auto simp: load_server_tls_config_def sum_bind_Inr_iff split: if_splits)

text \<open>
  C25. Under a mode that requires encryption a pool only ever holds connections whose TLS handshake
  succeeded for the configured host, whatever the backend answers; under the verifying modes the
  handshake was made with the configured authorities, or the public ones when none are configured.
\<close>

theorem backend_tls_enforced:
  assumes "new_manager L host port tc connect_timeout_ms = Inr mg"
    and "create_backend valid_name handshake mg io = Inr b"
    and "requires_encryption (server_tls_sslmode tc)"
  shows "\<exists>c. pb_transport b = TlsTransport c \<and> handshake c host
    \<and> (server_tls_sslmode tc \<noteq> Require \<longrightarrow> (\<exists>roots. st_roots c = Some roots
         \<and> (case server_tls_ca_file tc of Some f \<Rightarrow> load_ca_certs L f = Inr roots | None \<Rightarrow> roots = tls_server_roots L)))"
proof -
  from assms(1) obtain cfg where cfg: "load_server_tls_config L tc = Inr cfg" and mg: "mg_tls mg = cfg"
    "mg_backend_host mg = host" "mg_sslmode mg = server_tls_sslmode tc"
    by (auto simp: new_manager_def sum_bind_Inr_iff)
  from assms(2, 3) mg obtain c where c: "cfg = Some c" "pb_transport b = TlsTransport c" "handshake c host"
    by (auto simp: create_backend_def upgrade_backend_to_tls_def negotiate_backend_ssl_def sum_bind_Inr_iff requires_encryption_def
        split: if_splits option.splits backend_ssl_result.splits)
  then show ?thesis using server_tls_roots [of L tc c] cfg assms(3) by (auto simp: requires_encryption_def)
qed

text \<open>Towards clients verify-full asks for nothing that verify-ca does not; both demand a certificate.\<close>

lemma client_verify_full_is_verify_ca:
  "load_client_tls_config L (tc\<lparr>client_tls_sslmode := VerifyFull\<rparr>) = load_client_tls_config L (tc\<lparr>client_tls_sslmode := VerifyCa\<rparr>)"
  by (simp add: load_client_tls_config_def)

lemma client_tls_verifies:
  assumes "load_client_tls_config L tc = Inr (Some c)" and "client_tls_sslmode tc = VerifyCa \<or> client_tls_sslmode tc = VerifyFull"
  shows "\<exists>roots. ct_client_roots c = Some roots \<and> verifier_built L roots"
  using assms by (auto simp: load_client_tls_config_def sum_bind_Inr_iff split: if_splits)

definition example_library :: tls_library where
  "example_library = \<lparr>pem_file_iter = \<lambda>f. Some [Some 1, None], key_from_pem_file = \<lambda>f. Inr 2, root_accepted = \<lambda>c. True,
     verifier_built = \<lambda>cs. cs \<noteq> [], cert_matches_key = \<lambda>cs k. True, tls_server_roots = [7]\<rparr>"

definition example_tls :: tls_config where
  "example_tls = \<lparr>client_tls_sslmode = Disable, client_tls_cert_file = None, client_tls_key_file = None, client_tls_ca_file = None,
     server_tls_sslmode = VerifyFull, server_tls_ca_file = Some (lit ''ca.pem''), server_tls_cert_file = None,
     server_tls_key_file = None\<rparr>"

theorem backend_tls_enforced_witness:
  "\<exists>mg b. new_manager example_library (lit ''db'') 5432 example_tls 1000 = Inr mg
     \<and> create_backend (\<lambda>h. True) (\<lambda>c h. st_roots c = Some [1]) mg
          \<lparr>io_in_time = True, io_connected = True, io_nodelay = True, io_write_ok = True, io_response = Some 83\<rparr> = Inr b
     \<and> (\<exists>c. pb_transport b = TlsTransport c \<and> st_roots c = Some [1])"
proof -
  let ?h = "\<lambda>c h. st_roots c = Some [1]"
  let ?io = "\<lparr>io_in_time = True, io_connected = True, io_nodelay = True, io_write_ok = True, io_response = Some 83\<rparr>"
  obtain mg where mg: "new_manager example_library (lit ''db'') 5432 example_tls 1000 = Inr mg"
    and "mg_tls mg = Some \<lparr>st_roots = Some [1], st_client_cert = None\<rparr>" and "mg_sslmode mg = VerifyFull"
    by (simp add: new_manager_def load_server_tls_config_def example_tls_def example_library_def load_ca_certs_def sum_bind_def
        List.map_filter_def)
  then obtain b where b: "create_backend (\<lambda>h. True) ?h mg ?io = Inr b"
    by (simp add: create_backend_def upgrade_backend_to_tls_def negotiate_backend_ssl_def sum_bind_def)
  have "requires_encryption (server_tls_sslmode example_tls)" by (simp add: requires_encryption_def example_tls_def)
  from backend_tls_enforced [OF mg b this] mg b show ?thesis by blast
qed

end
