(* ===== verification/Proxy_Server.thy ===== *)
theory Proxy_Server
  imports Client_Registry Backend_Link
begin

text \<open>
  The rest of \<open>proxy/server.rs\<close>: the pools and breakers created for the configured databases, the
  identity a connection is registered with and the pool it is sent to, the user file and its
  reloading, and the ticks of the background tasks.
\<close>

section \<open>Pools\<close>

text \<open>
  The pools of a start that succeeds: loading the TLS configuration of a pool, which may refuse it, is
  \<open>new_manager\<close> of \<open>Backend_Link\<close>.
\<close>

record pool_target =
  target_host :: rstr
  target_port :: nat
  target_database :: rstr
  target_user :: rstr
  target_password :: rstr

record pool_setup =
  setup_target :: pool_target
  setup_size :: nat
  setup_min_idle :: nat
  setup_breaker :: "breaker_config option"
  setup_retry :: "connection_retry_config option"
  setup_lifo :: bool
  setup_connect_timeout :: nat
  setup_manager :: pool_manager

definition target_of :: "database_config \<Rightarrow> pool_target" where
  "target_of db = \<lparr>target_host = db_host db, target_port = db_port db, target_database = db_database db,
     target_user = db_user db, target_password = db_password db\<rparr>"

definition retry_config_of :: "config \<Rightarrow> connection_retry_config option" where
  "retry_config_of cfg = (let rc = connection_retry (resilience cfg) in if cr_enabled rc then Some rc else None)"

definition create_pool_manager :: "bool \<Rightarrow> config \<Rightarrow> database_config \<Rightarrow> pool_setup run" where
  "create_pool_manager oc cfg db =
     (let perf = performance cfg; cb = circuit_breaker (resilience cfg);
          sz = (case db_pool_size db of Some n \<Rightarrow> n | None \<Rightarrow> pool_size perf)
      in run_map (\<lambda>wait_ms.
           \<lparr>setup_target = target_of db, setup_size = sz, setup_min_idle = min (pool_min_idle perf) sz,
            setup_breaker = (if cb_enabled cb then Some cb else None), setup_retry = retry_config_of cfg,
            setup_lifo = pool_lifo perf, setup_connect_timeout = connection_timeout_ms (backend cfg),
            setup_manager = new_pool_manager (new_wait_queue (pool_queue_depth perf))
              \<lparr>lifo = pool_lifo perf, cfg_queue_depth = pool_queue_depth perf, idle_unpin_secs = pool_idle_unpin_secs perf,
               wait_timeout_ms = wait_ms\<rparr>\<rparr>)
         (u64_mul oc (pool_timeout_secs perf) 1000))"

fun create_database_pools :: "bool \<Rightarrow> config \<Rightarrow> database_config list \<Rightarrow> (rstr \<times> pool_setup) list \<Rightarrow> (rstr \<times> pool_setup) list run" where
  "create_database_pools oc cfg [] pms = Ret pms"
| "create_database_pools oc cfg (db # dbs) pms =
     run_bind (create_pool_manager oc cfg db) (\<lambda>pm. create_database_pools oc cfg dbs (AList.update (db_name db) pm pms))"

definition create_pools :: "bool \<Rightarrow> config \<Rightarrow> (rstr \<times> pool_setup) list run" where
  "create_pools oc cfg =
     (if connection_pooling (performance cfg) = PoolDisabled then Ret []
      else run_bind (create_pool_manager oc cfg
               (default_route (new_router (databases cfg) (backend cfg) (pool_size (performance cfg)))))
             (\<lambda>pm. create_database_pools oc cfg (databases cfg) (AList.update (lit ''*'') pm [])))"

text \<open>The breakers registered for observation, by the name of their database.\<close>

definition register_breakers :: "nat \<Rightarrow> config \<Rightarrow> proxy_metrics \<Rightarrow> proxy_metrics" where
  "register_breakers now cfg mt =
     (if \<not> cb_enabled (circuit_breaker (resilience cfg)) then mt\<lparr>mt_breakers := []\<rparr>
      else if connection_pooling (performance cfg) = PoolDisabled then mt
      else mt\<lparr>mt_breakers := fold (\<lambda>name. AList.update name (new_breaker now))
                 (lit ''*'' # map db_name (databases cfg)) (mt_breakers mt)\<rparr>)"

definition pool_manager_for :: "rstr \<Rightarrow> (rstr \<times> 'p) list \<Rightarrow> 'p option" where
  "pool_manager_for db pms = (case map_of pms db of Some pm \<Rightarrow> Some pm | None \<Rightarrow> map_of pms (lit ''*''))"

definition warmup_pools :: "(rstr \<Rightarrow> nat \<Rightarrow> nat) \<Rightarrow> (rstr \<times> 'p) list \<Rightarrow> nat \<Rightarrow> nat" where
  "warmup_pools warm pms min_idle =
     (if pms = [] \<or> min_idle = 0 then 0 else sum_list (map (\<lambda>(name, pm). warm name min_idle) pms))"

section \<open>Background tasks\<close>

text \<open>One tick of the health check of the default backend; an error of the probe counts as unhealthy.\<close>

definition healthcheck_tick :: "nat \<Rightarrow> unit + bool \<Rightarrow> proxy_metrics \<Rightarrow> proxy_metrics" where
  "healthcheck_tick now outcome mt =
     (case map_of (mt_breakers mt) (lit ''*'') of
        None \<Rightarrow> mt
      | Some cb \<Rightarrow> mt\<lparr>mt_breakers := AList.update (lit ''*'')
            (report_health now (case outcome of Inr healthy \<Rightarrow> healthy | Inl _ \<Rightarrow> False) (cb_state cb) cb) (mt_breakers mt)\<rparr>)"

text \<open>The interval of the idle cleanup, when there is one.\<close>

definition cleanup_interval :: "config \<Rightarrow> (rstr \<times> 'p) list \<Rightarrow> nat option" where
  "cleanup_interval cfg pms =
     (let idle = pool_idle_unpin_secs (performance cfg) in if 0 < idle \<and> pms \<noteq> [] then Some (max 1 (idle div 2)) else None)"

definition saturation_monitored :: "config \<Rightarrow> bool" where
  "saturation_monitored cfg =
     (let t = pool_queue_saturation_warn_threshold (performance cfg) in 0 < t \<and> t < 1)"

definition announce_limits :: "config \<Rightarrow> proxy_metrics \<Rightarrow> proxy_metrics" where
  "announce_limits cfg mt =
     mt\<lparr>mt_max_connections := max_connections (proxy cfg),
        mt_pool := (mt_pool mt)\<lparr>pm_max_queue_depth := pool_queue_depth (performance cfg)\<rparr>\<rparr>"

section \<open>The user file\<close>

text \<open>\<open>files\<close> is what reading a path gives.\<close>

definition load_authenticator :: "(rstr \<Rightarrow> bool + rstr) \<Rightarrow> config \<Rightarrow> auth_error + users option" where
  "load_authenticator files cfg =
     (case auth_file (auth cfg) of
        Some f \<Rightarrow> (case from_file f (files f) of Inl e \<Rightarrow> Inl e | Inr users \<Rightarrow> Inr (Some users))
      | None \<Rightarrow> Inr None)"

definition apply_config_reload ::
    "(rstr \<Rightarrow> bool + rstr) \<Rightarrow> config \<Rightarrow> users option \<Rightarrow> (auth_error + unit) \<times> users option" where
  "apply_config_reload files cfg current =
     (case auth_file (auth cfg) of
        None \<Rightarrow> (Inr (), current)
      | Some f \<Rightarrow> (case from_file f (files f) of
            Inl e \<Rightarrow> (Inl e, current)
          | Inr users \<Rightarrow> (Inr (), Some users)))"

section \<open>A connection\<close>

definition ADMIN_DATABASE :: rstr where
  "ADMIN_DATABASE = lit ''pgbouncer''"

definition client_identity :: "bytes \<Rightarrow> rstr option \<times> rstr option \<times> bool" where
  "client_identity startup_data =
     (if startup_data = [] then (None, None, False)
      else case startup_parse startup_data of
             None \<Rightarrow> (None, None, False)
           | Some m \<Rightarrow>
               (let db = startup_database m
                in (db, startup_user m, (case db of Some d \<Rightarrow> eq_ignore_ascii_case d ADMIN_DATABASE | None \<Rightarrow> False))))"

definition entry_of :: "nat \<Rightarrow> rstr option \<Rightarrow> nat \<Rightarrow> bool \<Rightarrow> bytes \<Rightarrow> client_entry" where
  "entry_of cid client_addr now encrypted startup_data =
     (case client_identity startup_data of (db, user, is_admin) \<Rightarrow>
        \<lparr>entry_conn_id = cid, entry_addr = (case client_addr of Some a \<Rightarrow> a | None \<Rightarrow> lit ''unix''),
         entry_user = (case user of Some u \<Rightarrow> u | None \<Rightarrow> []), entry_database = (case db of Some d \<Rightarrow> d | None \<Rightarrow> []),
         entry_state = (if is_admin then Admin else Active), connect_time = now, last_request_time = now,
         entry_tls = encrypted\<rparr>)"

datatype 'p destination = ToConsole | ToHandler "'p option"

definition handle_client_connection :: "bytes \<Rightarrow> (rstr \<times> 'p) list \<Rightarrow> 'p destination" where
  "handle_client_connection startup_data pms =
     (case client_identity startup_data of (db, user, is_admin) \<Rightarrow>
        if is_admin then ToConsole
        else ToHandler (case db of Some d \<Rightarrow> pool_manager_for d pms | None \<Rightarrow> map_of pms (lit ''*'')))"

text \<open>
  The task of a TCP client up to its identification: the transport, the startup message and whether it
  came over TLS, or nothing when the task returns; and what the client is then registered as and sent to.
\<close>

definition tcp_startup ::
    "(nat \<Rightarrow> 's \<Rightarrow> (bytes \<times> 's) option) \<Rightarrow> ssl_startup_error + 's ssl_startup_result \<Rightarrow> ('s \<times> bytes \<times> bool) option" where
  "tcp_startup rd outcome =
     (case outcome of
        Inl _ \<Rightarrow> None
      | Inr (Upgraded transport) \<Rightarrow>
          (case read_startup_message rd transport of
             Inl _ \<Rightarrow> None
           | Inr (data, transport') \<Rightarrow> Some (transport', data, True))
      | Inr (Declined stream startup_data) \<Rightarrow> Some (stream, startup_data, False)
      | Inr (NoSslRequest stream startup_data) \<Rightarrow> Some (stream, startup_data, False)
      | Inr Rejected \<Rightarrow> None)"

definition tcp_connection ::
    "bool \<Rightarrow> (nat \<Rightarrow> 's \<Rightarrow> (bytes \<times> 's) option) \<Rightarrow> bool \<Rightarrow> bool \<Rightarrow> config \<Rightarrow> bool \<Rightarrow> 's \<Rightarrow> nat \<Rightarrow> rstr \<Rightarrow> nat
      \<Rightarrow> (rstr \<times> 'p) list \<Rightarrow> ('s \<times> client_entry \<times> 'p destination) option run" where
  "tcp_connection oc rd write_ok accept_ok cfg has_tls client_stream cid client_addr now pms =
     run_map (\<lambda>(outcome, _). map_option (\<lambda>(transport, startup_data, encrypted).
           (transport, entry_of cid (Some client_addr) now encrypted startup_data, handle_client_connection startup_data pms))
         (tcp_startup rd outcome))
       (handle_ssl_startup oc rd write_ok accept_ok (client_tls_sslmode (tls cfg)) has_tls client_stream)"

section \<open>Selecting a pool\<close>

lemma create_pool_manager_target: "create_pool_manager oc cfg db = Ret pm \<Longrightarrow> setup_target pm = target_of db"
  by (auto simp: create_pool_manager_def Let_def run_map_Ret_iff)

lemma create_database_pools_lookup:
  assumes "create_database_pools oc cfg dbs pms = Ret pms'"
  shows "map_option setup_target (map_of pms' name)
    = (case map_of (fold (\<lambda>db. AList.update (db_name db) db) dbs []) name of
         Some db \<Rightarrow> Some (target_of db) | None \<Rightarrow> map_option setup_target (map_of pms name))"
  using assms
proof (induction dbs arbitrary: pms' rule: rev_induct)
  case Nil
  then show ?case by simp
next
  case (snoc db dbs)
  have split: "create_database_pools oc cfg (xs @ [db]) ps = run_bind (create_database_pools oc cfg xs ps)
      (\<lambda>ps'. run_map (\<lambda>pm. AList.update (db_name db) pm ps') (create_pool_manager oc cfg db))" for xs ps
    by (induction xs arbitrary: ps) (auto simp: run_map_def run_bind_assoc)
  from snoc.prems obtain ps pm where "create_database_pools oc cfg dbs pms = Ret ps" and "create_pool_manager oc cfg db = Ret pm"
    and "pms' = AList.update (db_name db) pm ps"
    by (auto simp: split run_bind_Ret_iff run_map_Ret_iff)
  then show ?case using snoc.IH [of ps] create_pool_manager_target [of oc cfg db pm] by (auto simp: update_conv')
qed

lemma create_pool_manager_returns:
  "pool_timeout_secs (performance cfg) * 1000 < 2 ^ 64 \<Longrightarrow> \<exists>pm. create_pool_manager oc cfg db = Ret pm"
  by (simp add: create_pool_manager_def u64_mul_def Let_def)

lemma create_database_pools_returns:
  "pool_timeout_secs (performance cfg) * 1000 < 2 ^ 64 \<Longrightarrow> \<exists>pms'. create_database_pools oc cfg dbs pms = Ret pms'"
proof (induction dbs arbitrary: pms)
  case (Cons db dbs)
  obtain pm where "create_pool_manager oc cfg db = Ret pm" using create_pool_manager_returns [OF Cons.prems] by blast
  then show ?case using Cons.IH [OF Cons.prems] by simp
qed simp

lemma create_pools_lookup:
  assumes "create_pools oc cfg = Ret pms" and "connection_pooling (performance cfg) \<noteq> PoolDisabled"
  shows "map_option setup_target (map_of pms name)
    = (case map_of (routes (new_router (databases cfg) (backend cfg) (pool_size (performance cfg)))) name of
         Some db \<Rightarrow> Some (target_of db)
       | None \<Rightarrow> if name = lit ''*''
           then Some (target_of (default_route (new_router (databases cfg) (backend cfg) (pool_size (performance cfg))))) else None)"
proof -
  from assms obtain pm
    where pm: "create_pool_manager oc cfg (default_route (new_router (databases cfg) (backend cfg) (pool_size (performance cfg)))) = Ret pm"
      and "create_database_pools oc cfg (databases cfg) (AList.update (lit ''*'') pm []) = Ret pms"
    by (auto simp: create_pools_def run_bind_Ret_iff)
  from create_database_pools_lookup [OF this(2), of name] show ?thesis
    using create_pool_manager_target [OF pm] by (simp add: new_router_def split: option.splits)
qed

lemma no_route_star:
  assumes "lit ''*'' \<notin> db_name ` set dbs"
  shows "map_of (routes (new_router dbs be n)) (lit ''*'') = None"
proof -
  have "map_of (fold (\<lambda>db. AList.update (db_name db) db) dbs al) (lit ''*'') = map_of al (lit ''*'')" for al
    using assms by (induction dbs arbitrary: al) (auto simp: update_conv')
  then show ?thesis by (simp add: new_router_def)
qed


definition example_database :: database_config where
  "example_database = \<lparr>db_name = lit ''app'', db_host = lit ''db1'', db_port = 5432, db_database = lit ''app_prod'',
     db_user = lit ''app'', db_password = [], db_pool_size = None\<rparr>"

definition example_cfg :: config where
  "example_cfg = default_config\<lparr>databases := [example_database]\<rparr>"


text \<open>A database called "*" takes the default pool away: unknown names go to it, though the router names the default backend.\<close>

lemma star_database_takes_default_pool:
  assumes "create_pools oc cfg = Ret pms" and "connection_pooling (performance cfg) \<noteq> PoolDisabled"
    and "map_of (routes (new_router (databases cfg) (backend cfg) (pool_size (performance cfg)))) (lit ''*'') = Some db"
    and "map_of (routes (new_router (databases cfg) (backend cfg) (pool_size (performance cfg)))) name = None"
  shows "map_option setup_target (pool_manager_for name pms) = Some (target_of db)
    \<and> route (new_router (databases cfg) (backend cfg) (pool_size (performance cfg))) name
      = default_route (new_router (databases cfg) (backend cfg) (pool_size (performance cfg)))"
proof -
  have "name \<noteq> lit ''*''" using assms(3, 4) by auto
  then show ?thesis
    using create_pools_lookup [OF assms(1, 2), of name] create_pools_lookup [OF assms(1, 2), of "lit ''*''"] assms(3, 4)
    by (auto simp: pool_manager_for_def route_def split: option.splits)
qed

text \<open>Only a connection registered as an administrator reaches the console, and a UNIX client never does.\<close>

lemma console_is_admin:
  "handle_client_connection data pms = ToConsole
     \<longleftrightarrow> entry_state (entry_of cid client_addr now encrypted data) = Admin"
  by (simp add: handle_client_connection_def entry_of_def split: prod.splits)

lemma unix_client_no_console: "handle_client_connection [] pms \<noteq> ToConsole"
  by (simp add: handle_client_connection_def client_identity_def)

text \<open>A reload that fails leaves the users as they were.\<close>

lemma failed_reload_keeps_users: "apply_config_reload files cfg current = (Inl e, after) \<Longrightarrow> after = current"
  by (auto simp: apply_config_reload_def split: option.splits sum.splits)

text \<open>With a mode that requires encryption only clients on TLS are registered and served, the console included.\<close>

lemma served_client_encrypted:
  assumes "requires_encryption (client_tls_sslmode (tls cfg))"
    and "tcp_connection oc rd write_ok accept_ok cfg has_tls client_stream cid client_addr now pms = Ret (Some (tr, e, dest))"
  shows "entry_tls e"
proof -
  from assms(2) obtain outcome sent startup_data encrypted
    where h: "handle_ssl_startup oc rd write_ok accept_ok (client_tls_sslmode (tls cfg)) has_tls client_stream = Ret (outcome, sent)"
      and t: "tcp_startup rd outcome = Some (tr, startup_data, encrypted)"
      and e: "e = entry_of cid (Some client_addr) now encrypted startup_data"
    by (fastforce simp: tcp_connection_def run_map_Ret_iff eq_commute [of "Some (tr, e, dest)"])
  have "encrypted"
    using h t assms(1)
    by (auto simp: handle_ssl_startup_def tcp_startup_def run_map_Ret_iff requires_encryption_def
        split: sum.splits prod.splits if_splits ssl_startup_result.splits)
  then show ?thesis by (simp add: e entry_of_def split: prod.split)
qed

end
