(* ===== verification/Admin_Console.thy ===== *)
theory Admin_Console
  imports Proxy_Server
begin

text \<open>
  \<open>admin/commands.rs\<close>, \<open>admin/response.rs\<close> and \<open>handle_admin_connection\<close> of \<open>proxy/server.rs\<close>: the
  commands of the administration console, the tables they show, the messages they are sent as, and the
  session of a console client behind its password.

  What a command reads besides the shared state is in \<open>console_env\<close>: the version, the clock in
  nanoseconds and the uptime in seconds, the histogram library, the files, and how waiting for the
  drain ends.  The status of a backend pool is what the pool library reports.
\<close>

section \<open>Responses\<close>

datatype admin_response = RowSet "rstr list" "rstr list list" | CommandComplete rstr | AdminError rstr

definition build_row_description :: "bool \<Rightarrow> rstr list \<Rightarrow> bytes run" where
  "build_row_description oc columns =
     built oc 84 (be16 (int (length columns))
       @ concat (map (\<lambda>col. as_bytes col @ [0] @ be32 0 @ be16 0 @ be32 25 @ be16 (- 1) @ be32 (- 1) @ be16 0) columns))"

definition build_data_row :: "bool \<Rightarrow> rstr list \<Rightarrow> bytes run" where
  "build_data_row oc values =
     built oc 68 (be16 (int (length values)) @ concat (map (\<lambda>v. be32 (as_i32 (blen v)) @ as_bytes v) values))"

definition build_command_complete :: "bool \<Rightarrow> rstr \<Rightarrow> bytes run" where
  "build_command_complete oc tag = built oc 67 (as_bytes tag @ [0])"

definition admin_ready_for_query :: bytes where
  "admin_ready_for_query = [90, 0, 0, 0, 5, 73]"

definition admin_error_response :: "bool \<Rightarrow> rstr \<Rightarrow> bytes run" where
  "admin_error_response oc message =
     built oc 69 ((83 # as_bytes (lit ''ERROR'') @ [0]) @ (67 # as_bytes (lit ''42000'') @ [0])
       @ (77 # as_bytes message @ [0]) @ [0])"

fun build_data_rows :: "bool \<Rightarrow> rstr list list \<Rightarrow> bytes run" where
  "build_data_rows oc [] = Ret []"
| "build_data_rows oc (row # rows) =
     run_bind (build_data_row oc row) (\<lambda>b. run_map (\<lambda>bs. b @ bs) (build_data_rows oc rows))"

definition to_wire :: "bool \<Rightarrow> admin_response \<Rightarrow> bytes run" where
  "to_wire oc r =
     (case r of
        RowSet columns rows \<Rightarrow>
          run_bind (build_row_description oc columns) (\<lambda>d.
          run_bind (build_data_rows oc rows) (\<lambda>rs.
          run_map (\<lambda>c. d @ rs @ c @ admin_ready_for_query)
            (build_command_complete oc (lit ''SELECT '' @ show_nat (length rows)))))
      | CommandComplete tag \<Rightarrow> run_map (\<lambda>c. c @ admin_ready_for_query) (build_command_complete oc tag)
      | AdminError message \<Rightarrow> run_map (\<lambda>e. e @ admin_ready_for_query) (admin_error_response oc message))"

section \<open>Commands\<close>

datatype admin_command =
    ShowPools | ShowStats | ShowDatabases | ShowClients | ShowServers | ShowVersion | ShowConfig
  | PauseCmd "rstr option" | ResumeCmd "rstr option" | Reload | Shutdown bool | Kill "rstr option"

definition show_command :: "rstr \<Rightarrow> admin_command option" where
  "show_command w =
     (if w = lit ''POOLS'' then Some ShowPools
      else if w = lit ''STATS'' \<or> w = lit ''STATS_TOTALS'' \<or> w = lit ''STATS_AVERAGES'' then Some ShowStats
      else if w = lit ''DATABASES'' then Some ShowDatabases
      else if w = lit ''CLIENTS'' then Some ShowClients
      else if w = lit ''SERVERS'' then Some ShowServers
      else if w = lit ''VERSION'' then Some ShowVersion
      else if w = lit ''CONFIG'' then Some ShowConfig
      else None)"

definition parse_admin :: "unicode \<Rightarrow> rstr \<Rightarrow> admin_command option" where
  "parse_admin U sql =
     (case split_whitespace (to_uppercase U (trim sql)) of
        [] \<Rightarrow> None
      | w # ws \<Rightarrow>
          (let arg = (case ws of [] \<Rightarrow> None | d # _ \<Rightarrow> Some (to_lowercase U d))
           in if w = lit ''SHOW'' \<and> ws \<noteq> [] then show_command (hd ws)
              else if w = lit ''PAUSE'' then Some (PauseCmd arg)
              else if w = lit ''RESUME'' then Some (ResumeCmd arg)
              else if w = lit ''RELOAD'' then Some Reload
              else if w = lit ''SHUTDOWN'' then Some (Shutdown (ws \<noteq> [] \<and> hd ws = lit ''WAIT''))
              else if w = lit ''KILL'' then Some (Kill arg)
              else None))"

definition is_admin_command :: "unicode \<Rightarrow> rstr \<Rightarrow> bool" where
  "is_admin_command U sql =
     (let upper = to_uppercase U (trim sql)
      in case strip_prefix upper (lit ''SHOW '') of
           Some rest \<Rightarrow> (case split_whitespace (trim rest) of w # _ \<Rightarrow> show_command w \<noteq> None | [] \<Rightarrow> False)
         | None \<Rightarrow> list_ex (\<lambda>k. starts_with upper (lit k)) [''PAUSE'', ''RESUME'', ''RELOAD'', ''SHUTDOWN'', ''KILL''])"

section \<open>The console\<close>

record pool_info =
  status_addr :: rstr
  status_protocol :: rstr
  status_size :: nat
  status_available :: nat
  status_max_size :: nat

record console_pool =
  cp_manager :: pool_manager
  cp_status :: pool_info

datatype drain_wait = Drained | SignalLost | DrainTimeout

record console_env =
  env_unicode :: unicode
  env_version :: rstr
  env_now :: nat
  env_uptime :: nat
  env_hist :: histogram_reader
  env_files :: "rstr \<Rightarrow> bool + rstr"
  env_wait :: drain_wait

record console =
  console_config :: config
  console_pools :: "(rstr \<times> console_pool) list"
  console_server :: server_state
  console_users :: "users option"
  shutdown_listened :: bool
  shutdown_sent :: bool

record console_database =
  cd_name :: rstr
  cd_host :: rstr
  cd_port :: nat
  cd_database :: rstr
  cd_user :: rstr
  configured_pool_size :: nat
  pool_key :: rstr

definition database_entries :: "config \<Rightarrow> console_database list" where
  "database_entries cfg =
     \<lparr>cd_name = be_database (backend cfg), cd_host = be_host (backend cfg), cd_port = be_port (backend cfg),
      cd_database = be_database (backend cfg), cd_user = be_user (backend cfg),
      configured_pool_size = pool_size (performance cfg), pool_key = lit ''*''\<rparr>
     # map (\<lambda>db. \<lparr>cd_name = db_name db, cd_host = db_host db, cd_port = db_port db, cd_database = db_database db,
          cd_user = db_user db,
          configured_pool_size = (case db_pool_size db of Some n \<Rightarrow> n | None \<Rightarrow> pool_size (performance cfg)),
          pool_key = db_name db\<rparr>) (databases cfg)"

definition live_clients_per_pool_key :: "console \<Rightarrow> (rstr \<times> nat) list" where
  "live_clients_per_pool_key c =
     fold (\<lambda>e counts.
         if entry_state e = Admin then counts
         else (let key = (if map_of (console_pools c) (entry_database e) \<noteq> None then entry_database e else lit ''*'')
               in AList.update key ((case map_of counts key of Some n \<Rightarrow> n | None \<Rightarrow> 0) + 1) counts))
       (registry_snapshot (registry (console_server c))) []"

definition live_clients :: "console \<Rightarrow> rstr \<Rightarrow> nat" where
  "live_clients c key = (case map_of (live_clients_per_pool_key c) key of Some n \<Rightarrow> n | None \<Rightarrow> 0)"

fun pool_mode_str :: "pooling_strategy \<Rightarrow> rstr" where
  "pool_mode_str PoolDisabled = lit ''disabled''"
| "pool_mode_str PoolSession = lit ''session''"
| "pool_mode_str PoolTransaction = lit ''transaction''"
| "pool_mode_str PoolHybrid = lit ''hybrid''"

fun tls_mode_str :: "tls_sslmode \<Rightarrow> rstr" where
  "tls_mode_str Disable = lit ''disable''"
| "tls_mode_str AllowTls = lit ''allow''"
| "tls_mode_str Require = lit ''require''"
| "tls_mode_str VerifyCa = lit ''verify-ca''"
| "tls_mode_str VerifyFull = lit ''verify-full''"

fun auth_type_str :: "auth_type \<Rightarrow> rstr" where
  "auth_type_str Trust = lit ''trust''"
| "auth_type_str Md5 = lit ''md5''"
| "auth_type_str AuthScramSha256 = lit ''scram-sha-256''"
| "auth_type_str Cert = lit ''cert''"

definition bool_str :: "bool \<Rightarrow> rstr" where
  "bool_str b = (if b then lit ''yes'' else lit ''no'')"

definition opt_str :: "rstr option \<Rightarrow> rstr" where
  "opt_str v = (case v of Some s \<Rightarrow> s | None \<Rightarrow> lit ''<unset>'')"

text \<open>\<open>rsplit_once\<close>: at the last occurrence.\<close>

definition rsplit_once :: "rchar \<Rightarrow> rstr \<Rightarrow> (rstr \<times> rstr) option" where
  "rsplit_once q s = map_option (\<lambda>(a, b). (rev b, rev a)) (split_once q (rev s))"

definition split_host_port :: "rstr \<Rightarrow> rstr \<times> rstr" where
  "split_host_port a = (case rsplit_once 58 a of Some (host, port) \<Rightarrow> (host, port) | None \<Rightarrow> (a, lit ''0''))"

fun client_state_str :: "client_state \<Rightarrow> rstr" where
  "client_state_str Active = lit ''active''"
| "client_state_str Admin = lit ''active''"

section \<open>Tables\<close>

definition show_pools :: "console \<Rightarrow> admin_response" where
  "show_pools c =
     RowSet (map lit [''database'', ''user'', ''cl_active'', ''cl_waiting'', ''sv_active'', ''sv_idle'', ''sv_used'',
         ''sv_tested'', ''sv_login'', ''maxwait'', ''pool_mode''])
       (map (\<lambda>e.
          (case (case map_of (console_pools c) (pool_key e) of
                   Some p \<Rightarrow> (queue_depth (wait_q (cp_manager p)),
                              status_size (cp_status p) - status_available (cp_status p), status_available (cp_status p))
                 | None \<Rightarrow> (0, 0, 0)) of
             (cl_waiting, sv_active, sv_idle) \<Rightarrow>
               [cd_name e, cd_user e, show_nat (live_clients c (pool_key e)), show_nat cl_waiting, show_nat sv_active,
                show_nat sv_idle, lit ''0'', lit ''0'', lit ''0'', lit ''0'',
                pool_mode_str (connection_pooling (performance (console_config c)))]))
        (database_entries (console_config c)))"

text \<open>\<open>f64::round\<close> of a value that is not negative, and its digits.\<close>

definition f64_round_str :: "f64 \<Rightarrow> rstr" where
  "f64_round_str x = show_nat (nat \<lfloor>x + 1 / 2\<rfloor>)"

definition show_stats :: "console_env \<Rightarrow> console \<Rightarrow> admin_response" where
  "show_stats env c =
     (let q = mt_query (sv_metrics (console_server c));
          n = total_queries q;
          latency = get_latency_percentiles (env_hist env) q;
          avg = show_nat (n div max (env_uptime env) 1);
          time = show_nat (f64_as_usize (f64_mul (mean_micros latency) (f64_of_nat n)));
          mean = f64_round_str (mean_micros latency)
      in RowSet (map lit [''database'', ''total_xact_count'', ''total_query_count'', ''total_received'', ''total_sent'',
            ''total_xact_time'', ''total_query_time'', ''total_wait_time'', ''avg_xact_count'', ''avg_query_count'',
            ''avg_recv'', ''avg_sent'', ''avg_xact_time'', ''avg_query_time'', ''avg_wait_time''])
          [[be_database (backend (console_config c)), show_nat n, show_nat n, lit ''0'', lit ''0'', time, time, lit ''0'',
            avg, avg, lit ''0'', lit ''0'', mean, mean, lit ''0'']])"

definition show_databases :: "console \<Rightarrow> admin_response" where
  "show_databases c =
     RowSet (map lit [''name'', ''host'', ''port'', ''database'', ''force_user'', ''pool_size'', ''reserve_pool'',
         ''pool_mode'', ''max_connections'', ''current_connections'', ''paused'', ''disabled''])
       (map (\<lambda>e.
          (let p = map_of (console_pools c) (pool_key e)
           in [cd_name e, cd_host e, show_nat (cd_port e), cd_database e, [],
               show_nat (case p of Some p \<Rightarrow> status_max_size (cp_status p) | None \<Rightarrow> configured_pool_size e), lit ''0'',
               pool_mode_str (connection_pooling (performance (console_config c))),
               show_nat (max_connections (proxy (console_config c))), show_nat (live_clients c (pool_key e)),
               (case p of Some p \<Rightarrow> if accepting (cp_manager p) then lit ''0'' else lit ''1'' | None \<Rightarrow> lit ''0''),
               lit ''0'']))
        (database_entries (console_config c)))"

text \<open>\<open>Duration::as_secs_f64\<close> and \<open>{:.3}\<close>.\<close>

definition as_secs_f64 :: "nat \<Rightarrow> f64" where
  "as_secs_f64 nanos = f64_add (f64_of_nat (nanos div 10 ^ 9)) (f64_div (f64_of_nat (nanos mod 10 ^ 9)) 1000000000)"

definition fmt_millis :: "f64 \<Rightarrow> rstr" where
  "fmt_millis x =
     (let k = nat (round_half_even (x * 1000))
      in show_nat (k div 1000) @ [46, 48 + k div 100 mod 10, 48 + k div 10 mod 10, 48 + k mod 10])"

definition ago :: "console_env \<Rightarrow> nat \<Rightarrow> rstr" where
  "ago env t = fmt_millis (as_secs_f64 (env_now env - t)) @ lit ''s ago''"

definition peer_columns :: "rstr list" where
  "peer_columns = map lit [''type'', ''user'', ''database'', ''state'', ''addr'', ''port'', ''local_addr'', ''local_port'',
     ''connect_time'', ''request_time'', ''wait'', ''wait_us'', ''close_needed'', ''ptr'', ''link'', ''remote_pid'', ''tls'']"

definition show_clients :: "console_env \<Rightarrow> console \<Rightarrow> admin_response" where
  "show_clients env c =
     (case split_host_port (listen_address (proxy (console_config c))) of (local_addr, local_port) \<Rightarrow>
        RowSet peer_columns
          (map (\<lambda>e. case split_host_port (entry_addr e) of (a, port) \<Rightarrow>
              [lit ''C'', entry_user e, entry_database e, client_state_str (entry_state e), a, port, local_addr, local_port,
               ago env (connect_time e), ago env (last_request_time e), lit ''0'', lit ''0'', lit ''0'', lit ''0'', [],
               lit ''0'', if entry_tls e then lit ''1'' else lit ''0''])
            (sort_key entry_conn_id (registry_snapshot (registry (console_server c))))))"

record server_pool_snapshot =
  sp_database :: rstr
  sp_backend_addr :: rstr
  sp_protocol :: rstr
  sp_size :: nat
  sp_available :: nat
  sp_max_size :: nat

definition server_snapshot :: "console \<Rightarrow> server_pool_snapshot list" where
  "server_snapshot c =
     map (\<lambda>(db, p). \<lparr>sp_database = db, sp_backend_addr = status_addr (cp_status p), sp_protocol = status_protocol (cp_status p),
         sp_size = status_size (cp_status p), sp_available = status_available (cp_status p),
         sp_max_size = status_max_size (cp_status p)\<rparr>) (console_pools c)"

definition show_servers :: "console \<Rightarrow> admin_response" where
  "show_servers c =
     (let names = fold (\<lambda>e. AList.update (pool_key e) (cd_name e, cd_user e)) (database_entries (console_config c)) []
      in RowSet peer_columns
          (map (\<lambda>snap.
             (case split_host_port (sp_backend_addr snap) of (a, port) \<Rightarrow>
              case (case map_of names (sp_database snap) of Some nu \<Rightarrow> nu | None \<Rightarrow> (sp_database snap, [])) of (database, user) \<Rightarrow>
                [lit ''S'', user, database, if 0 < sp_available snap then lit ''idle'' else lit ''active'', a, port, [],
                 lit ''0'', [], [], lit ''0'', lit ''0'', lit ''0'', lit ''0'', [], lit ''0'', lit ''0'']))
            (server_snapshot c)))"

definition show_version :: "console_env \<Rightarrow> admin_response" where
  "show_version env = RowSet [lit ''version''] [[lit ''Scry '' @ env_version env]]"

section \<open>The configuration table\<close>

definition redacted :: rstr where
  "redacted = lit ''<redacted>''"

definition opt_secret_str :: "rstr option \<Rightarrow> rstr" where
  "opt_secret_str v = (case v of Some _ \<Rightarrow> redacted | None \<Rightarrow> lit ''<unset>'')"

definition required_secret_str :: "rstr \<Rightarrow> rstr" where
  "required_secret_str v = (if v = [] then lit ''<unset>'' else redacted)"

definition config_row :: "config \<Rightarrow> string \<Rightarrow> (config \<Rightarrow> rstr) \<Rightarrow> rstr list" where
  "config_row cfg key f = [lit key, f cfg, f default_config, bool_str False]"

definition pooling_rows :: "config \<Rightarrow> rstr list list" where
  "pooling_rows cfg =
     [config_row cfg ''pool_mode'' (\<lambda>c. pool_mode_str (connection_pooling (performance c))),
      config_row cfg ''max_client_conn'' (\<lambda>c. show_nat (max_connections (proxy c))),
      config_row cfg ''default_pool_size'' (\<lambda>c. show_nat (pool_size (performance c)))]"

definition proxy_rows :: "config \<Rightarrow> rstr list list" where
  "proxy_rows cfg =
     [config_row cfg ''proxy.listen_address'' (\<lambda>c. listen_address (proxy c)),
      config_row cfg ''proxy.shutdown_timeout_secs'' (\<lambda>c. show_nat (shutdown_timeout_secs (proxy c)))]"

definition backend_rows :: "config \<Rightarrow> rstr list list" where
  "backend_rows cfg =
     [config_row cfg ''backend.host'' (\<lambda>c. be_host (backend c)),
      config_row cfg ''backend.port'' (\<lambda>c. show_nat (be_port (backend c))),
      config_row cfg ''backend.database'' (\<lambda>c. be_database (backend c)),
      config_row cfg ''backend.user'' (\<lambda>c. be_user (backend c)),
      config_row cfg ''backend.password'' (\<lambda>c. required_secret_str (be_password (backend c)))]"

definition performance_rows :: "config \<Rightarrow> rstr list list" where
  "performance_rows cfg =
     [config_row cfg ''performance.pool_min_idle'' (\<lambda>c. show_nat (pool_min_idle (performance c))),
      config_row cfg ''performance.pool_timeout_secs'' (\<lambda>c. show_nat (pool_timeout_secs (performance c))),
      config_row cfg ''performance.query_timeout_secs'' (\<lambda>c. show_nat (query_timeout_secs (performance c)))]"

definition tls_rows :: "config \<Rightarrow> rstr list list" where
  "tls_rows cfg =
     [config_row cfg ''tls.client_tls_sslmode'' (\<lambda>c. tls_mode_str (client_tls_sslmode (tls c))),
      config_row cfg ''tls.server_tls_sslmode'' (\<lambda>c. tls_mode_str (server_tls_sslmode (tls c)))]"

definition auth_rows :: "config \<Rightarrow> rstr list list" where
  "auth_rows cfg =
     [config_row cfg ''auth.auth_type'' (\<lambda>c. auth_type_str (ac_auth_type (auth c))),
      config_row cfg ''auth.allow_trust'' (\<lambda>c. bool_str (allow_trust (auth c)))]"

definition admin_rows :: "config \<Rightarrow> rstr list list" where
  "admin_rows cfg =
     [config_row cfg ''admin.enabled'' (\<lambda>c. bool_str (admin_enabled (admin c))),
      config_row cfg ''admin.admin_password'' (\<lambda>c. opt_secret_str (admin_password (admin c)))]"

definition observability_rows :: "config \<Rightarrow> rstr list list" where
  "observability_rows cfg =
     [config_row cfg ''observability.enable_metrics_server'' (\<lambda>c. bool_str (enable_metrics_server (observability c))),
      config_row cfg ''observability.metrics_server_address'' (\<lambda>c. metrics_server_address (observability c)),
      config_row cfg ''observability.metrics_allow_non_loopback'' (\<lambda>c. bool_str (metrics_allow_non_loopback (observability c))),
      config_row cfg ''observability.enable_debug_endpoints'' (\<lambda>c. bool_str (enable_debug_endpoints (observability c)))]"

definition publisher_rows :: "config \<Rightarrow> rstr list list" where
  "publisher_rows cfg =
     [config_row cfg ''publisher.enabled'' (\<lambda>c. bool_str (pub_enabled (pub_config c))),
      config_row cfg ''publisher.publisher_type'' (\<lambda>c. publisher_type (pub_config c)),
      config_row cfg ''publisher.http_endpoint'' (\<lambda>c. opt_str (http_endpoint (pub_config c))),
      config_row cfg ''publisher.http_api_key'' (\<lambda>c. opt_secret_str (http_api_key (pub_config c))),
      config_row cfg ''publisher.anonymize'' (\<lambda>c. bool_str (pub_anonymize (pub_config c))),
      config_row cfg ''publisher.anonymize_salt'' (\<lambda>c. opt_secret_str (anonymize_salt (pub_config c)))]"

definition resilience_rows :: "config \<Rightarrow> rstr list list" where
  "resilience_rows cfg =
     [config_row cfg ''resilience.circuit_breaker.enabled'' (\<lambda>c. bool_str (cb_enabled (circuit_breaker (resilience c)))),
      config_row cfg ''resilience.healthcheck.active_enabled'' (\<lambda>c. bool_str (active_enabled (res_healthcheck (resilience c))))]"

definition show_config :: "config \<Rightarrow> admin_response" where
  "show_config cfg =
     RowSet (map lit [''key'', ''value'', ''default'', ''changeable''])
       (pooling_rows cfg @ proxy_rows cfg @ backend_rows cfg @ performance_rows cfg @ tls_rows cfg @ auth_rows cfg
         @ admin_rows cfg @ observability_rows cfg @ publisher_rows cfg @ resilience_rows cfg)"

section \<open>Control commands\<close>

definition resolve_pool_key :: "console \<Rightarrow> rstr \<Rightarrow> rstr option" where
  "resolve_pool_key c db =
     (if map_of (console_pools c) db \<noteq> None then Some db
      else case find (\<lambda>e. eq_ignore_ascii_case (cd_name e) db) (database_entries (console_config c)) of
             None \<Rightarrow> None
           | Some e \<Rightarrow> if map_of (console_pools c) (pool_key e) \<noteq> None then Some (pool_key e) else None)"

definition change_pool :: "(pool_manager \<Rightarrow> pool_manager) \<Rightarrow> rstr \<Rightarrow> console \<Rightarrow> console" where
  "change_pool f key c =
     c\<lparr>console_pools := map (\<lambda>(k, p). (k, if k = key then p\<lparr>cp_manager := f (cp_manager p)\<rparr> else p)) (console_pools c)\<rparr>"

definition change_pools :: "(pool_manager \<Rightarrow> pool_manager) \<Rightarrow> console \<Rightarrow> console" where
  "change_pools f c = c\<lparr>console_pools := map (\<lambda>(k, p). (k, p\<lparr>cp_manager := f (cp_manager p)\<rparr>)) (console_pools c)\<rparr>"

definition no_such_database :: "rstr \<Rightarrow> admin_response" where
  "no_such_database db = AdminError (lit ''no such database: '' @ db)"

definition pause_cmd :: "rstr option \<Rightarrow> console \<Rightarrow> admin_response \<times> console" where
  "pause_cmd database c =
     (case database of
        Some db \<Rightarrow> (case resolve_pool_key c db of
            Some key \<Rightarrow> (CommandComplete (lit ''PAUSE''), change_pool pause key c)
          | None \<Rightarrow> (no_such_database db, c))
      | None \<Rightarrow> (CommandComplete (lit ''PAUSE''), change_pools pause c))"

definition resume_cmd :: "rstr option \<Rightarrow> console \<Rightarrow> admin_response \<times> console" where
  "resume_cmd database c =
     (case database of
        Some db \<Rightarrow> (case resolve_pool_key c db of
            Some key \<Rightarrow> (CommandComplete (lit ''RESUME''), change_pool resume key c)
          | None \<Rightarrow> (no_such_database db, c))
      | None \<Rightarrow> (CommandComplete (lit ''RESUME''), change_pools resume c))"

text \<open>The message of a failed reload shows the outermost context only: the path.\<close>

definition reload_cmd :: "console_env \<Rightarrow> console \<Rightarrow> admin_response \<times> console" where
  "reload_cmd env c =
     (case apply_config_reload (env_files env) (console_config c) (console_users c) of
        (Inr _, users) \<Rightarrow> (CommandComplete (lit ''RELOAD''), c\<lparr>console_users := users\<rparr>)
      | (Inl _, users) \<Rightarrow>
          (AdminError (lit ''reload failed: Failed to reload auth file: ''
             @ (case auth_file (auth (console_config c)) of Some f \<Rightarrow> f | None \<Rightarrow> [])), c\<lparr>console_users := users\<rparr>))"

definition trigger_shutdown :: "console \<Rightarrow> bool \<times> console" where
  "trigger_shutdown c = (if shutdown_listened c then (True, c\<lparr>shutdown_sent := True\<rparr>) else (False, c))"

definition shutdown_cmd :: "bool \<Rightarrow> console_env \<Rightarrow> bool \<Rightarrow> console \<Rightarrow> (admin_response \<times> console) run" where
  "shutdown_cmd oc env wait c =
     (case trigger_shutdown c of
        (False, c') \<Rightarrow> Ret (AdminError (lit ''shutdown already in progress (or the server is no longer accepting the ''
            @ lit ''shutdown signal)''), c')
      | (True, c') \<Rightarrow>
          if \<not> wait then Ret (CommandComplete (lit ''SHUTDOWN''), c')
          else run_map (\<lambda>bound.
              (case env_wait env of
                 Drained \<Rightarrow> CommandComplete (lit ''SHUTDOWN'')
               | SignalLost \<Rightarrow> AdminError (lit ''shutdown initiated but drain completion signal was lost before confirming ''
                     @ lit ''within '' @ show_nat bound @ lit ''s (drain proceeding in background)'')
               | DrainTimeout \<Rightarrow> AdminError (lit ''shutdown initiated but drain did not complete within ''
                     @ show_nat bound @ lit ''s (drain proceeding '' @ lit ''in background)''), c'))
            (usize_add oc (shutdown_timeout_secs (proxy (console_config c))) 2))"

definition kill_cmd :: "rstr option \<Rightarrow> console \<Rightarrow> admin_response \<times> console" where
  "kill_cmd database c =
     (case database of
        None \<Rightarrow> (AdminError (lit ''KILL requires a database name (usage: KILL <db>)''), c)
      | Some db \<Rightarrow>
          if \<not> list_ex (\<lambda>e. eq_ignore_ascii_case (cd_name e) db \<or> eq_ignore_ascii_case (pool_key e) db)
               (database_entries (console_config c))
          then (no_such_database db, c)
          else (case kill_clients db (console_server c) of (killed, s) \<Rightarrow>
              (CommandComplete (lit ''KILL '' @ show_nat (length killed)), c\<lparr>console_server := s\<rparr>)))"

definition execute_admin :: "bool \<Rightarrow> console_env \<Rightarrow> rstr \<Rightarrow> console \<Rightarrow> (admin_response \<times> console) run" where
  "execute_admin oc env sql c =
     (case parse_admin (env_unicode env) sql of
        None \<Rightarrow> Ret (AdminError (lit ''Unknown admin command: '' @ sql), c)
      | Some cmd \<Rightarrow> (case cmd of
            ShowPools \<Rightarrow> Ret (show_pools c, c)
          | ShowStats \<Rightarrow> Ret (show_stats env c, c)
          | ShowDatabases \<Rightarrow> Ret (show_databases c, c)
          | ShowClients \<Rightarrow> Ret (show_clients env c, c)
          | ShowServers \<Rightarrow> Ret (show_servers c, c)
          | ShowVersion \<Rightarrow> Ret (show_version env, c)
          | ShowConfig \<Rightarrow> Ret (show_config (console_config c), c)
          | PauseCmd database \<Rightarrow> Ret (pause_cmd database c)
          | ResumeCmd database \<Rightarrow> Ret (resume_cmd database c)
          | Reload \<Rightarrow> Ret (reload_cmd env c)
          | Shutdown wait \<Rightarrow> shutdown_cmd oc env wait c
          | Kill database \<Rightarrow> Ret (kill_cmd database c)))"

section \<open>A console session\<close>

definition constant_time_eq :: "bytes \<Rightarrow> bytes \<Rightarrow> bool" where
  "constant_time_eq a b =
     (if length a \<noteq> length b then False else fold (\<lambda>(x, y) diff. or diff (xor x y)) (zip a b) 0 = 0)"

text \<open>The password that opens the console, when it is enabled and has one.\<close>

definition expected_password :: "admin_config \<Rightarrow> rstr option" where
  "expected_password ad =
     (case admin_password ad of Some pw \<Rightarrow> if admin_enabled ad \<and> pw \<noteq> [] then Some pw else None | None \<Rightarrow> None)"

text \<open>One read of a session: the query it holds, when it is a complete query message.\<close>

definition console_query :: "bool \<Rightarrow> bytes \<Rightarrow> rstr option run" where
  "console_query oc data =
     (if length data < 5 then Ret None
      else
        (let len = as_usize (i32_from_be (data ! 1) (data ! 2) (data ! 3) (data ! 4))
         in run_bind (usize_add oc 5 len) (\<lambda>a.
            run_bind (usize_sub oc a 4) (\<lambda>need.
              if length data < need then Ret None
              else run_bind (usize_sub oc need 1) (\<lambda>query_end.
                run_map (\<lambda>q. Some (from_utf8_lossy q)) (slice data 5 query_end))))))"

text \<open>
  The loop over the reads of an authenticated client.  The result holds the bytes written, the queries
  executed and the console after them; the reads end when the client closes the connection.
\<close>

fun console_loop :: "bool \<Rightarrow> console_env \<Rightarrow> bytes list \<Rightarrow> console \<Rightarrow> (bytes \<times> rstr list \<times> console) run" where
  "console_loop oc env [] c = Ret ([], [], c)"
| "console_loop oc env (data # reads) c =
     (if data = [] then Ret ([], [], c)
      else if hd data = 81 then
        run_bind (console_query oc data) (\<lambda>q.
          case q of
            None \<Rightarrow> console_loop oc env reads c
          | Some sql \<Rightarrow>
              run_bind (execute_admin oc env sql c) (\<lambda>(resp, c1).
              run_bind (to_wire oc resp) (\<lambda>out.
              run_map (\<lambda>(rest, sqls, c2). (out @ rest, sql # sqls, c2)) (console_loop oc env reads c1))))
      else if hd data = 88 then Ret ([], [], c)
      else console_loop oc env reads c)"

definition handle_admin_connection ::
    "bool \<Rightarrow> console_env \<Rightarrow> bytes \<Rightarrow> bytes list \<Rightarrow> console \<Rightarrow> (bytes \<times> rstr list \<times> console) run" where
  "handle_admin_connection oc env first_read reads c =
     (case expected_password (admin (console_config c)) of
        None \<Rightarrow> run_map (\<lambda>err. (err, [], c))
          (build_error_response oc (lit ''FATAL'') (lit ''28000'') (lit ''administrative console is disabled on this server''))
      | Some expected \<Rightarrow>
          run_bind (parse_password_message oc first_read) (\<lambda>provided.
            if (case provided of Some p \<Rightarrow> constant_time_eq (as_bytes p) (as_bytes expected) | None \<Rightarrow> False)
            then run_map (\<lambda>(out, sqls, c'). (build_auth_cleartext_password @ build_auth_ok @ admin_ready_for_query @ out, sqls, c'))
                   (console_loop oc env reads c)
            else run_map (\<lambda>err. (build_auth_cleartext_password @ err, [], c))
                   (build_error_response oc (lit ''FATAL'') (lit ''28P01'') (lit ''admin authentication failed''))))"

section \<open>The password\<close>

lemma xor_eq_0_iff_word: "xor a b = 0 \<longleftrightarrow> a = (b :: 8 word)"
proof
  assume "xor a b = 0"
  then have "xor (xor a b) b = xor 0 b" by simp
  then show "a = b" by (simp add: xor.assoc)
qed simp

lemma or_eq_0_iff_word: "or a b = 0 \<longleftrightarrow> a = 0 \<and> b = (0 :: 8 word)"
  by (auto simp: bit_eq_iff bit_or_iff)

lemma fold_diff_0:
  "length a = length b \<Longrightarrow> fold (\<lambda>(x, y) diff. or diff (xor x y)) (zip a b) d = (0 :: 8 word) \<longleftrightarrow> d = 0 \<and> a = b"
proof (induction a b arbitrary: d rule: list_induct2)
  case (Cons x xs y ys)
  have "fold (\<lambda>(x, y) diff. or diff (xor x y)) (zip (x # xs) (y # ys)) d
      = fold (\<lambda>(x, y) diff. or diff (xor x y)) (zip xs ys) (or d (xor x y))" by simp
  then show ?case by (simp only: Cons.IH or_eq_0_iff_word xor_eq_0_iff_word list.inject conj_assoc)
qed simp

lemma constant_time_eq_iff: "constant_time_eq a b \<longleftrightarrow> a = b"
  by (auto simp: constant_time_eq_def fold_diff_0)

text \<open>
  C15. A client of the console executes a command, or changes anything, only when the console is enabled
  with a password that is not empty and the client's first message carries exactly that password.
\<close>

theorem console_needs_password:
  assumes "handle_admin_connection oc env first_read reads c = Ret (out, sqls, c')" and "sqls \<noteq> [] \<or> c' \<noteq> c"
  shows "admin_enabled (admin (console_config c))
    \<and> (\<exists>pw p. admin_password (admin (console_config c)) = Some pw \<and> pw \<noteq> []
         \<and> parse_password_message oc first_read = Ret (Some p) \<and> as_bytes p = as_bytes pw)"
proof -
  from assms obtain pw where e: "expected_password (admin (console_config c)) = Some pw"
    by (auto simp: handle_admin_connection_def run_map_Ret_iff split: option.splits)
  then have "admin_enabled (admin (console_config c)) \<and> admin_password (admin (console_config c)) = Some pw \<and> pw \<noteq> []"
    by (auto simp: expected_password_def split: option.splits if_splits)
  moreover from assms e obtain p where "parse_password_message oc first_read = Ret (Some p)"
    and "constant_time_eq (as_bytes p) (as_bytes pw)"
    by (auto simp: handle_admin_connection_def run_bind_Ret_iff run_map_Ret_iff split: option.splits if_splits)
  ultimately show ?thesis by (simp add: constant_time_eq_iff)
qed

section \<open>Secrets\<close>

text \<open>A configuration with its secrets blanked out: only whether they are set, or empty, is left.\<close>

definition hide_secrets :: "config \<Rightarrow> config" where
  "hide_secrets cfg =
     cfg\<lparr>backend := (backend cfg)\<lparr>be_password := (if be_password (backend cfg) = [] then [] else [0])\<rparr>,
         databases := map (\<lambda>db. db\<lparr>db_password := []\<rparr>) (databases cfg),
         pub_config := (pub_config cfg)\<lparr>http_api_key := map_option (\<lambda>_. []) (http_api_key (pub_config cfg)),
           anonymize_salt := map_option (\<lambda>_. []) (anonymize_salt (pub_config cfg))\<rparr>,
         admin := (admin cfg)\<lparr>admin_password := map_option (\<lambda>_. []) (admin_password (admin cfg))\<rparr>\<rparr>"

lemmas config_row_defs = pooling_rows_def proxy_rows_def backend_rows_def performance_rows_def tls_rows_def auth_rows_def
  admin_rows_def observability_rows_def publisher_rows_def resilience_rows_def

lemma opt_secret_str_hidden [simp]: "opt_secret_str (map_option (\<lambda>_. []) v) = opt_secret_str v"
  by (cases v) (simp_all add: opt_secret_str_def)

lemma required_secret_str_hidden [simp]: "required_secret_str (if v = [] then [] else [0]) = required_secret_str v"
  by (simp add: required_secret_str_def)

lemma hide_secrets_simps [simp]:
  "proxy (hide_secrets cfg) = proxy cfg" "performance (hide_secrets cfg) = performance cfg"
  "auth (hide_secrets cfg) = auth cfg" "be_database (backend (hide_secrets cfg)) = be_database (backend cfg)"
  by (simp_all add: hide_secrets_def)

lemma database_entries_hidden [simp]: "database_entries (hide_secrets cfg) = database_entries cfg"
  by (simp add: database_entries_def hide_secrets_def split: option.split)

lemma show_config_hidden [simp]: "show_config (hide_secrets cfg) = show_config cfg"
  by (simp add: show_config_def config_row_defs config_row_def hide_secrets_def)

lemma execute_admin_config:
  assumes "hide_secrets cfg = hide_secrets (console_config c)"
  shows "execute_admin oc env sql (c\<lparr>console_config := cfg\<rparr>)
    = run_map (\<lambda>(r, c'). (r, c'\<lparr>console_config := cfg\<rparr>)) (execute_admin oc env sql c)"
proof -
  have eqs: "proxy cfg = proxy (console_config c)" "performance cfg = performance (console_config c)"
    "auth cfg = auth (console_config c)" "be_database (backend cfg) = be_database (backend (console_config c))"
    "database_entries cfg = database_entries (console_config c)" "show_config cfg = show_config (console_config c)"
    using assms hide_secrets_simps database_entries_hidden show_config_hidden by metis+
  have kept: "console_pools (c\<lparr>console_config := cfg\<rparr>) = console_pools c"
    "console_server (c\<lparr>console_config := cfg\<rparr>) = console_server c"
    "console_config (c\<lparr>console_config := cfg\<rparr>) = cfg" by simp_all
  have l: "live_clients (c\<lparr>console_config := cfg\<rparr>) = live_clients c"
    unfolding live_clients_def live_clients_per_pool_key_def kept by (rule refl)
  have snap: "server_snapshot (c\<lparr>console_config := cfg\<rparr>) = server_snapshot c" by (simp add: server_snapshot_def)
  have res: "resolve_pool_key (c\<lparr>console_config := cfg\<rparr>) db = resolve_pool_key c db" for db
    unfolding resolve_pool_key_def kept eqs by (rule refl)
  have p: "pause_cmd d (c\<lparr>console_config := cfg\<rparr>) = (case pause_cmd d c of (r, c') \<Rightarrow> (r, c'\<lparr>console_config := cfg\<rparr>))" for d
    by (simp add: pause_cmd_def res change_pool_def change_pools_def split: option.split)
  have r: "resume_cmd d (c\<lparr>console_config := cfg\<rparr>) = (case resume_cmd d c of (r, c') \<Rightarrow> (r, c'\<lparr>console_config := cfg\<rparr>))" for d
    by (simp add: resume_cmd_def res change_pool_def change_pools_def split: option.split)
  have rl: "reload_cmd env (c\<lparr>console_config := cfg\<rparr>) = (case reload_cmd env c of (r, c') \<Rightarrow> (r, c'\<lparr>console_config := cfg\<rparr>))"
    by (simp add: reload_cmd_def apply_config_reload_def eqs split: option.split sum.split)
  have k: "kill_cmd d (c\<lparr>console_config := cfg\<rparr>) = (case kill_cmd d c of (r, c') \<Rightarrow> (r, c'\<lparr>console_config := cfg\<rparr>))" for d
    by (simp add: kill_cmd_def eqs split: option.split prod.split)
  have sh: "shutdown_cmd oc env w (c\<lparr>console_config := cfg\<rparr>)
      = run_map (\<lambda>(r, c'). (r, c'\<lparr>console_config := cfg\<rparr>)) (shutdown_cmd oc env w c)" for w
    by (cases "usize_add oc (shutdown_timeout_secs (proxy (console_config c))) 2")
      (simp_all add: shutdown_cmd_def trigger_shutdown_def eqs)
  show ?thesis
    unfolding execute_admin_def p r rl k sh show_pools_def show_stats_def show_databases_def show_clients_def show_servers_def
      l snap kept eqs
    by (simp split: option.split admin_command.split prod.split)
qed

text \<open>
  C24. No command of the console gives a secret away: when two configurations differ only in the contents
  of the passwords, the API key and the salt, a whole session of an administrator receives the same bytes
  under both and changes everything else in the same way.
\<close>

theorem console_hides_secrets:
  assumes "hide_secrets cfg = hide_secrets (console_config c)"
  shows "console_loop oc env reads (c\<lparr>console_config := cfg\<rparr>)
    = run_map (\<lambda>(out, sqls, c'). (out, sqls, c'\<lparr>console_config := cfg\<rparr>)) (console_loop oc env reads c)"
  using assms
proof (induction reads arbitrary: c)
  case (Cons data reads)
  have keep: "console_config c1 = console_config c" if "execute_admin oc env sql c = Ret (resp, c1)" for sql resp c1
    using that
    by (auto simp: execute_admin_def pause_cmd_def resume_cmd_def change_pool_def change_pools_def reload_cmd_def shutdown_cmd_def
        trigger_shutdown_def kill_cmd_def run_map_Ret_iff split: option.splits admin_command.splits sum.splits prod.splits if_splits)
  have step: "run_bind (execute_admin oc env sql (c\<lparr>console_config := cfg\<rparr>)) (\<lambda>(resp, c1).
              run_bind (to_wire oc resp) (\<lambda>out.
              run_map (\<lambda>(rest, sqls, c2). (out @ rest, sql # sqls, c2)) (console_loop oc env reads c1)))
    = run_map (\<lambda>(out, sqls, c'). (out, sqls, c'\<lparr>console_config := cfg\<rparr>))
       (run_bind (execute_admin oc env sql c) (\<lambda>(resp, c1).
              run_bind (to_wire oc resp) (\<lambda>out.
              run_map (\<lambda>(rest, sqls, c2). (out @ rest, sql # sqls, c2)) (console_loop oc env reads c1))))" for sql
  proof (cases "execute_admin oc env sql c")
    case (Ret rc)
    obtain resp c1 where rc: "rc = (resp, c1)" by (cases rc)
    have "hide_secrets cfg = hide_secrets (console_config c1)" using keep Ret rc Cons.prems by simp
    from Cons.IH [OF this] show ?thesis
      by (cases "to_wire oc resp"; cases "console_loop oc env reads c1")
        (auto simp: execute_admin_config [OF Cons.prems] Ret rc)
  qed (simp add: execute_admin_config [OF Cons.prems])
  show ?case
  proof (cases "console_query oc data")
    case (Ret q)
    then show ?thesis using Cons.IH [OF Cons.prems] step by (cases q) simp_all
  qed (use Cons.IH [OF Cons.prems] in simp)
qed simp

section \<open>An example\<close>

definition console_example_env :: console_env where
  "console_example_env = \<lparr>env_unicode = plain_tables, env_version = lit ''0.1.0'', env_now = 0, env_uptime = 1,
     env_hist = \<lparr>value_at_quantile = \<lambda>h q. 0, hist_max = \<lambda>h. 0, hist_mean = \<lambda>h. 0\<rparr>, env_files = \<lambda>f. Inl True,
     env_wait = Drained\<rparr>"

definition example_pool :: console_pool where
  "example_pool = \<lparr>cp_manager = new_pool_manager (new_wait_queue 5) \<lparr>lifo = True, cfg_queue_depth = 5, idle_unpin_secs = 60,
       wait_timeout_ms = 1000\<rparr>,
     cp_status = \<lparr>status_addr = lit ''db1:5432'', status_protocol = lit ''postgres'', status_size = 0, status_available = 0,
       status_max_size = 4\<rparr>\<rparr>"

definition example_console :: console where
  "example_console = \<lparr>console_config = example_cfg\<lparr>admin := \<lparr>admin_enabled = True, admin_users = None, admin_password = Some (lit ''pw'')\<rparr>\<rparr>,
     console_pools = [(lit ''App'', example_pool), (lit ''app'', example_pool)], console_server = example_server,
     console_users = None, shutdown_listened = True, shutdown_sent = False\<rparr>"

lemma example_session:
  "\<exists>out. handle_admin_connection True console_example_env [112, 0, 0, 0, 7, 112, 119, 0] [[81, 0, 0, 0, 6, 88, 0]] example_console
     = Ret (out, [lit ''X''], example_console)"
proof -
  have p: "parse_password_message True [112, 0, 0, 0, 7, 112, 119, 0] = Ret (Some (lit ''pw''))"
    by (simp add: parse_password_message_def i32_from_be_def be_nat_def signed_of_def as_usize_def usize_add_def usize_sub_def
        usize_modulus_def slice_def from_utf8.simps str_simps)
  have q: "console_query True [81, 0, 0, 0, 6, 88, 0] = Ret (Some (lit ''X''))"
    by (simp add: console_query_def i32_from_be_def be_nat_def signed_of_def as_usize_def usize_add_def usize_sub_def
        usize_modulus_def slice_def from_utf8_lossy.simps str_simps)
  have e: "execute_admin True console_example_env (lit ''X'') example_console = Ret (AdminError (lit ''Unknown admin command: X''), example_console)"
    by (simp add: execute_admin_def console_example_env_def parse_admin_def str_simps split_whitespace.simps)
  have w: "\<exists>out. to_wire True (AdminError (lit ''Unknown admin command: X'')) = Ret out"
    by (simp add: to_wire_def admin_error_response_def built_frame length_utf8_enc len_utf8_def str_simps)
  have x: "expected_password (admin (console_config example_console)) = Some (lit ''pw'')"
    by (simp add: expected_password_def example_console_def lit_def)
  show ?thesis using p q e w x by (auto simp: handle_admin_connection_def constant_time_eq_iff)
qed

theorem console_needs_password_witness:
  "admin_enabled (admin (console_config example_console))
   \<and> parse_password_message True [112, 0, 0, 0, 7, 112, 119, 0] \<noteq> Ret None"
proof -
  obtain out where "handle_admin_connection True console_example_env [112, 0, 0, 0, 7, 112, 119, 0] [[81, 0, 0, 0, 6, 88, 0]] example_console
      = Ret (out, [lit ''X''], example_console)"
    using example_session by blast
  from console_needs_password [OF this] show ?thesis by auto
qed

theorem console_hides_secrets_witness:
  "console_loop True console_example_env [[81, 0, 0, 0, 16] @ as_bytes (lit ''SHOW CONFIG'') @ [0]]
      (example_console\<lparr>console_config := (console_config example_console)\<lparr>admin :=
         \<lparr>admin_enabled = True, admin_users = None, admin_password = Some (lit ''other'')\<rparr>\<rparr>\<rparr>)
    = run_map (\<lambda>(out, sqls, c'). (out, sqls, c'\<lparr>console_config := (console_config example_console)\<lparr>admin :=
         \<lparr>admin_enabled = True, admin_users = None, admin_password = Some (lit ''other'')\<rparr>\<rparr>\<rparr>))
       (console_loop True console_example_env [[81, 0, 0, 0, 16] @ as_bytes (lit ''SHOW CONFIG'') @ [0]] example_console)"
  by (rule console_hides_secrets) (simp add: hide_secrets_def example_console_def)

section \<open>Names of databases\<close>

lemma upper_not_white: "c < 128 \<Longrightarrow> is_whitespace (ascii_upper c) \<longleftrightarrow> is_whitespace c"
  by (auto simp: is_whitespace_def ascii_upper_def)

lemma lower_upper: "ascii_lower (ascii_upper c) = ascii_lower c"
  by (auto simp: ascii_lower_def ascii_upper_def)

lemma split_whitespace_last:
  assumes "w \<noteq> []" and "list_all (\<lambda>c. \<not> is_whitespace c) w"
  shows "split_whitespace w = [w]"
proof -
  have d: "dropWhile is_whitespace w = w" using assms by (cases w) auto
  have t: "takeWhile (\<lambda>c. \<not> is_whitespace c) w = w" "dropWhile (\<lambda>c. \<not> is_whitespace c) w = []"
    using assms(2) by (simp_all add: list_all_iff)
  show ?thesis unfolding split_whitespace.simps [of w] d t Let_def using assms(1) by (simp add: split_whitespace.simps [of "[]"])
qed

lemma trim_id: "s \<noteq> [] \<Longrightarrow> \<not> is_whitespace (hd s) \<Longrightarrow> \<not> is_whitespace (last s) \<Longrightarrow> trim s = s"
proof -
  have d: "dropWhile is_whitespace xs = xs" if "xs \<noteq> []" and "\<not> is_whitespace (hd xs)" for xs
    using that by (cases xs) simp_all
  assume "s \<noteq> []" and "\<not> is_whitespace (hd s)" and "\<not> is_whitespace (last s)"
  then show "trim s = s" by (simp add: trim_def d hd_rev)
qed

text \<open>A console command with one ASCII word as its argument: the argument arrives in lower case.\<close>

lemma parse_admin_argument:
  assumes "ascii name" and "name \<noteq> []" and "list_all (\<lambda>c. \<not> is_whitespace c) name"
    and "ascii key" and "key \<noteq> []" and "list_all (\<lambda>c. \<not> is_whitespace c) key"
  shows "split_whitespace (to_uppercase U (trim (key @ 32 # name))) = [map ascii_upper key, map ascii_upper name]"
    and "to_lowercase U (map ascii_upper name) = map ascii_lower name"
proof -
  have ends: "\<not> is_whitespace (hd (key @ 32 # name))" "\<not> is_whitespace (last (key @ 32 # name))"
    using assms by (auto simp: list_all_iff)
  have up: "list_all (\<lambda>c. \<not> is_whitespace c) (map ascii_upper s)" if "ascii s" "list_all (\<lambda>c. \<not> is_whitespace c) s" for s
    using that by (simp add: list_all_iff ascii_def upper_not_white)
  have a: "ascii (key @ 32 # name)" using assms(1, 4) by (simp add: ascii_def)
  have "to_uppercase U (trim (key @ 32 # name)) = map ascii_upper key @ 32 # map ascii_upper name"
    using trim_id [OF _ ends] to_uppercase_ascii [OF a] by (simp add: ascii_upper_def)
  then show "split_whitespace (to_uppercase U (trim (key @ 32 # name))) = [map ascii_upper key, map ascii_upper name]"
    using split_whitespace_word [OF _ up [OF assms(4, 6)]] split_whitespace_last [OF _ up [OF assms(1, 3)]] assms(2, 5) by simp
  have "ascii (map ascii_upper name)" using assms(1) by (auto simp: ascii_def list_all_iff ascii_upper_def)
  then show "to_lowercase U (map ascii_upper name) = map ascii_lower name"
    by (simp add: to_lowercase_ascii lower_upper)
qed

lemma parse_pause:
  assumes "ascii name" and "name \<noteq> []" and "list_all (\<lambda>c. \<not> is_whitespace c) name"
  shows "parse_admin U (lit ''PAUSE '' @ name) = Some (PauseCmd (Some (map ascii_lower name)))"
proof -
  have l: "lit ''PAUSE '' @ name = lit ''PAUSE'' @ 32 # name" and k: "ascii (lit ''PAUSE'')" "lit ''PAUSE'' \<noteq> []"
    "list_all (\<lambda>c. \<not> is_whitespace c) (lit ''PAUSE'')" "map ascii_upper (lit ''PAUSE'') = lit ''PAUSE''"
    "lit ''PAUSE'' \<noteq> lit ''SHOW''"
    by (simp_all add: str_simps)
  show ?thesis
    unfolding parse_admin_def l parse_admin_argument(1) [OF assms k(1, 2, 3)] k(4)
    using k(5) parse_admin_argument(2) [OF assms k(1, 2, 3)] by simp
qed

lemma map_of_change_pool:
  "map_of (console_pools (change_pool f key c)) k
    = (if k = key then map_option (\<lambda>p. p\<lparr>cp_manager := f (cp_manager p)\<rparr>) (map_of (console_pools c) k)
       else map_of (console_pools c) k)"
proof -
  have "map_of (map (\<lambda>(k, p). (k, if k = key then p\<lparr>cp_manager := f (cp_manager p)\<rparr> else p)) ps) k
    = (if k = key then map_option (\<lambda>p. p\<lparr>cp_manager := f (cp_manager p)\<rparr>) (map_of ps k) else map_of ps k)" for ps
    by (induction ps) auto
  from this [of "console_pools c"] show ?thesis by (simp add: change_pool_def split del: if_split)
qed

text \<open>
  PAUSE is documented to pause the one pool that is named.  The console lower-cases the name before
  it looks for the pool: when databases are configured under a name and under its lower-case form,
  pausing the first is answered with success, refuses every acquisition from the second and leaves the
  first as it was.
\<close>

lemma pause_hits_lowercase_pool:
  assumes "ascii name" and "name \<noteq> []" and "list_all (\<lambda>c. \<not> is_whitespace c) name"
    and "map ascii_lower name \<noteq> name" and "map_of (console_pools c) name = Some p"
    and "map_of (console_pools c) (map ascii_lower name) = Some q"
  shows "\<exists>c' q'. execute_admin oc env (lit ''PAUSE '' @ name) c = Ret (CommandComplete (lit ''PAUSE''), c')
    \<and> map_of (console_pools c') name = Some p
    \<and> map_of (console_pools c') (map ascii_lower name) = Some q'
    \<and> (\<forall>cid sticky got. fst (acquire_start cid sticky got (cp_manager q')) = Refused Paused)"
proof -
  let ?c = "change_pool pause (map ascii_lower name) c"
  have "execute_admin oc env (lit ''PAUSE '' @ name) c = Ret (CommandComplete (lit ''PAUSE''), ?c)"
    by (simp add: execute_admin_def parse_pause [OF assms(1, 2, 3)] pause_cmd_def resolve_pool_key_def assms(6))
  moreover have "map_of (console_pools ?c) name = Some p" using assms(4, 5) by (auto simp: map_of_change_pool)
  moreover have "map_of (console_pools ?c) (map ascii_lower name) = Some (q\<lparr>cp_manager := pause (cp_manager q)\<rparr>)"
    by (simp add: map_of_change_pool assms(6))
  moreover have "fst (acquire_start cid sticky got (cp_manager (q\<lparr>cp_manager := pause (cp_manager q)\<rparr>))) = Refused Paused" for cid sticky got
    by (simp add: acquire_start_def pause_def)
  ultimately show ?thesis by blast
qed

section \<open>Commands and messages\<close>

text \<open>The semicolon a client program leaves at the end of a statement is taken for a part of the last word.\<close>

lemma semicolon_refused:
  "parse_admin U (lit ''SHOW POOLS;'') = None" "parse_admin U (lit ''SHUTDOWN WAIT;'') = Some (Shutdown False)"
  by (simp_all add: parse_admin_def show_command_def str_simps split_whitespace.simps)

text \<open>The quick test accepts words that are not commands.\<close>

lemma quick_test_too_wide: "is_admin_command U (lit ''PAUSED'')" "parse_admin U (lit ''PAUSED'') = None"
  by (simp_all add: is_admin_command_def parse_admin_def str_simps split_whitespace.simps strip_prefix_def)

text \<open>A query message whose length field is less than its header brings the console's task down.\<close>

lemma short_query_panics: "console_loop oc env ([81, 0, 0, 0, 4] # reads) c = Panic"
  by (simp add: console_query_def i32_from_be_def be_nat_def signed_of_def as_usize_def usize_add_def usize_sub_def usize_modulus_def
      slice_def)

text \<open>A query that does not fit one read is dropped without an answer.\<close>

lemma split_query_dropped:
  assumes "data = 81 # be32 (int len) @ rest" and "length rest + 4 < len" and "len < 2 ^ 31"
  shows "console_loop oc env (data # reads) c = console_loop oc env reads c"
proof -
  obtain a b x y where q: "be32 (int len) = [a, b, x, y]" by (rule be32_elems)
  then have "i32_from_be a b x y = int len" using i32_be32 [of "int len"] assms(3) by simp
  then have "as_usize (i32_from_be a b x y) = len" using assms(3) by (simp add: as_usize_def)
  then have "console_query oc data = Ret None"
    using assms by (simp add: console_query_def q usize_add_def usize_sub_def usize_modulus_def)
  then show ?thesis using assms(1) by simp
qed

text \<open>A database called like the console makes the console's own clients a target of KILL.\<close>

lemma kill_targets_console:
  assumes "server_ok max_conns (console_server c)" and "registry_get cid (registry (console_server c)) = Some e"
    and "eq_ignore_ascii_case (entry_database e) ADMIN_DATABASE" and "db \<in> set (databases (console_config c))"
    and "db_name db = ADMIN_DATABASE"
  shows "registry_get cid (registry (console_server (snd (kill_cmd (Some ADMIN_DATABASE) c)))) = None"
proof -
  have d: "distinct (map fst (inner (registry (console_server c))))"
    and n: "\<And>k e. map_of (inner (registry (console_server c))) k = Some e \<Longrightarrow> entry_conn_id e = k"
    using assms(1) unfolding server_ok_def by blast+
  have "cid \<in> set (matched_clients ADMIN_DATABASE (registry (console_server c)))"
    using matched_clients_iff [OF d n] assms(2, 3) by (auto simp: registry_get_def)
  moreover have "\<exists>db \<in> set (databases (console_config c)). map ascii_lower (db_name db) = map ascii_lower ADMIN_DATABASE"
    using assms(4, 5) by metis
  then have "list_ex (\<lambda>e. eq_ignore_ascii_case (cd_name e) ADMIN_DATABASE \<or> eq_ignore_ascii_case (pool_key e) ADMIN_DATABASE)
      (database_entries (console_config c))"
    by (auto simp: database_entries_def list_ex_iff eq_ignore_ascii_case_def)
  ultimately show ?thesis
    using map_of_kill(1) [of ADMIN_DATABASE "console_server c"]
    by (simp add: kill_cmd_def registry_get_def case_prod_unfold)
qed

end
