(* ===== verification/Metrics_Export.thy ===== *)
theory Metrics_Export
  imports Health_Metrics Scry_Config "HOL-Library.List_Lexorder"
begin

text \<open>
  \<open>observability/prometheus.rs\<close> and \<open>observability/metrics_server.rs\<close>: the metrics as the text a scraper
  reads, the endpoints the metrics server mounts and what they answer.  Serving HTTP and rendering a
  reply as JSON are libraries; a handler's result is the record it hands over.
\<close>

section \<open>Numbers and lines\<close>

text \<open>\<open>{:.d}\<close> of a value that is not negative.\<close>

fun last_digits :: "nat \<Rightarrow> nat \<Rightarrow> rstr" where
  "last_digits 0 n = []"
| "last_digits (Suc d) n = last_digits d (n div 10) @ [48 + n mod 10]"

definition fmt_fixed :: "nat \<Rightarrow> f64 \<Rightarrow> rstr" where
  "fmt_fixed d x = (let k = nat (round_half_even (x * 10 ^ d)) in show_nat (k div 10 ^ d) @ [46] @ last_digits d k)"

definition head_lines :: "string \<Rightarrow> rstr \<Rightarrow> string \<Rightarrow> rstr" where
  "head_lines name help kind =
     lit ''# HELP '' @ lit name @ lit '' '' @ help @ [10] @ lit ''# TYPE '' @ lit name @ lit '' '' @ lit kind @ [10]"

definition sample_line :: "rstr \<Rightarrow> rstr \<Rightarrow> rstr" where
  "sample_line name v = name @ lit '' '' @ v @ [10]"

definition labelled_line :: "rstr \<Rightarrow> string \<Rightarrow> rstr \<Rightarrow> rstr \<Rightarrow> rstr" where
  "labelled_line name label lv v = name @ lit ''{'' @ lit label @ lit ''='' @ [34] @ lv @ [34] @ lit ''} '' @ v @ [10]"

definition metric :: "string \<Rightarrow> string \<Rightarrow> string \<Rightarrow> rstr \<Rightarrow> rstr" where
  "metric name help kind v = head_lines name (lit help) kind @ sample_line (lit name) v"

definition escape_label :: "rstr \<Rightarrow> rstr" where
  "escape_label v = str_replace [10] [92, 110] (str_replace [34] [92, 34] (str_replace [92] [92, 92] v))"

section \<open>The export\<close>

definition micros_secs :: "nat \<Rightarrow> rstr" where
  "micros_secs us = fmt_fixed 9 (f64_div (f64_of_nat us) 1000000)"

definition export_quantiles :: "rstr \<Rightarrow> latency_percentiles \<Rightarrow> rstr" where
  "export_quantiles name p =
     labelled_line name ''quantile'' (lit ''0.5'') (micros_secs (p50_micros p))
     @ labelled_line name ''quantile'' (lit ''0.9'') (micros_secs (p90_micros p))
     @ labelled_line name ''quantile'' (lit ''0.95'') (micros_secs (p95_micros p))
     @ labelled_line name ''quantile'' (lit ''0.99'') (micros_secs (p99_micros p))
     @ labelled_line name ''quantile'' (lit ''0.999'') (micros_secs (p999_micros p))"

definition export_query_counters :: "query_metrics \<Rightarrow> rstr" where
  "export_query_counters q =
     (let n = total_queries q; errors = total_errors q;
          rate = (if 0 < n then f64_div (f64_of_nat errors) (f64_of_nat n) else 0)
      in metric ''scry_queries_total'' ''Total number of queries processed'' ''counter'' (show_nat n)
       @ metric ''scry_query_errors_total'' ''Total number of query errors'' ''counter'' (show_nat errors)
       @ metric ''scry_query_error_rate'' ''Query error rate'' ''gauge'' (fmt_fixed 6 rate)
       @ metric ''scry_query_timeouts_total'' ''Total queries aborted due to query_timeout'' ''counter''
           (show_nat (total_query_timeouts q)))"

definition export_proxy_overhead_metrics :: "histogram_reader \<Rightarrow> query_metrics \<Rightarrow> rstr" where
  "export_proxy_overhead_metrics H q =
     head_lines ''scry_proxy_overhead_seconds''
       (lit ''Proxy'' @ [39] @ lit ''s own added latency (total minus backend execution time)'') ''summary''
     @ export_quantiles (lit ''scry_proxy_overhead_seconds'') (proxy_overhead_percentiles H q)"

definition summary_sum :: "latency_percentiles \<Rightarrow> nat \<Rightarrow> rstr" where
  "summary_sum p n = fmt_fixed 9 (f64_mul (f64_div (mean_micros p) 1000000) (f64_of_nat n))"

definition export_latency_metrics :: "histogram_reader \<Rightarrow> query_metrics \<Rightarrow> rstr" where
  "export_latency_metrics H q =
     (let p = get_latency_percentiles H q; n = total_queries q
      in head_lines ''scry_query_latency_seconds'' (lit ''Query latency in seconds'') ''summary''
       @ export_quantiles (lit ''scry_query_latency_seconds'') p
       @ sample_line (lit ''scry_query_latency_seconds_sum'') (summary_sum p n)
       @ sample_line (lit ''scry_query_latency_seconds_count'') (show_nat n))"

definition export_timeline_metrics :: "histogram_reader \<Rightarrow> query_metrics \<Rightarrow> rstr" where
  "export_timeline_metrics H q =
     head_lines ''scry_query_queue_time_seconds'' (lit ''Time spent waiting before pool acquisition'') ''summary''
     @ export_quantiles (lit ''scry_query_queue_time_seconds'') (get_queue_percentiles H q)
     @ head_lines ''scry_query_pool_acquire_seconds'' (lit ''Time spent acquiring connection from pool'') ''summary''
     @ export_quantiles (lit ''scry_query_pool_acquire_seconds'') (get_pool_acquire_percentiles H q)
     @ head_lines ''scry_query_backend_seconds'' (lit ''Time spent executing on backend database'') ''summary''
     @ export_quantiles (lit ''scry_query_backend_seconds'') (get_backend_percentiles H q)"

definition export_pool_metrics :: "bool \<Rightarrow> pool_metrics \<Rightarrow> rstr run" where
  "export_pool_metrics oc p =
     (let st = get_pool_status p
      in run_map (\<lambda>u.
          metric ''scry_pool_connections_total'' ''Current pool size (total connections)'' ''gauge'' (show_nat (ps_size st))
        @ metric ''scry_pool_connections_available'' ''Available connections in pool'' ''gauge'' (show_nat (ps_available st))
        @ metric ''scry_pool_connections_max'' ''Maximum pool size'' ''gauge'' (show_nat (ps_max_size st))
        @ metric ''scry_pool_utilization'' ''Pool utilization (0.0 to 1.0)'' ''gauge'' (fmt_fixed 4 u))
      (utilization oc st))"

definition pin_line :: "pool_metrics \<Rightarrow> string \<Rightarrow> pin_reason \<Rightarrow> rstr" where
  "pin_line p name r = labelled_line (lit ''scry_pool_pin_reason_total'') ''reason'' (lit name) (show_nat (pin_counts p r))"

definition export_pooling_metrics :: "histogram_reader \<Rightarrow> pool_metrics \<Rightarrow> rstr" where
  "export_pooling_metrics H p =
     metric ''scry_pool_connections_pinned'' ''Number of connections currently pinned'' ''gauge'' (show_nat (pm_pinned p))
     @ head_lines ''scry_pool_pin_reason_total'' (lit ''Pin events by reason'') ''counter''
     @ pin_line p ''prepared_statement'' Pin_PreparedStatement @ pin_line p ''session_variable'' Pin_SessionVariable
     @ pin_line p ''temp_table'' Pin_TempTable @ pin_line p ''cursor'' Pin_Cursor
     @ pin_line p ''advisory_lock'' Pin_AdvisoryLock @ pin_line p ''listen'' Pin_Listen
     @ pin_line p ''unknown_command'' Pin_UnknownCommand
     @ metric ''scry_pool_queue_depth'' ''Current wait queue depth'' ''gauge'' (show_nat (pm_queue_depth p))
     @ metric ''scry_pool_queue_max_depth'' ''Maximum wait queue depth (from config)'' ''gauge'' (show_nat (pm_max_queue_depth p))
     @ metric ''scry_pool_queue_saturation_ratio'' ''Queue saturation (0.0-1.0, alert if >0.8)'' ''gauge''
         (fmt_fixed 4 (get_queue_saturation p))
     @ metric ''scry_pool_queue_rejected_total'' ''Total requests rejected due to full queue'' ''counter''
         (show_nat (queue_rejected_total p))
     @ metric ''scry_requests_shed_total'' ''Total requests shed because a circuit breaker was open'' ''counter''
         (show_nat (requests_shed_total p))
     @ head_lines ''scry_pool_wait_seconds'' (lit ''Time spent waiting for connection'') ''summary''
     @ export_quantiles (lit ''scry_pool_wait_seconds'') (get_wait_percentiles H p)
     @ sample_line (lit ''scry_pool_wait_seconds_sum'') (summary_sum (get_wait_percentiles H p) (length (wait_histogram p)))
     @ sample_line (lit ''scry_pool_wait_seconds_count'') (show_nat (length (wait_histogram p)))"

definition export_connection_metrics :: "proxy_metrics \<Rightarrow> rstr" where
  "export_connection_metrics mt =
     metric ''scry_active_connections'' ''Current number of active client connections'' ''gauge'' (show_nat (mt_active_connections mt))
     @ metric ''scry_max_connections'' ''Maximum allowed client connections'' ''gauge'' (show_nat (mt_max_connections mt))
     @ metric ''scry_connections_rejected_total'' ''Total connections rejected due to max_connections limit'' ''counter''
         (show_nat (connections_rejected mt))
     @ head_lines ''scry_connection_timeouts_total'' (lit ''Total backend connect/acquire timeouts, by kind'') ''counter''
     @ labelled_line (lit ''scry_connection_timeouts_total'') ''kind'' (lit ''pool_wait'') (show_nat (pool_wait_timeouts (mt_pool mt)))
     @ labelled_line (lit ''scry_connection_timeouts_total'') ''kind'' (lit ''backend_connect'')
         (show_nat (backend_connect_timeouts (mt_pool mt)))"

definition export_uptime :: "nat \<Rightarrow> rstr" where
  "export_uptime uptime = metric ''scry_uptime_seconds'' ''Proxy uptime in seconds'' ''counter'' (show_nat uptime)"

definition NO_BREAKER_SENTINEL :: rstr where
  "NO_BREAKER_SENTINEL = lit ''none''"

definition circuit_breaker_metrics_all :: "proxy_metrics \<Rightarrow> (rstr \<times> breaker_metrics) list" where
  "circuit_breaker_metrics_all mt = sort_key fst (map (\<lambda>(name, cb). (name, get_metrics cb)) (mt_breakers mt))"

definition state_value :: "breaker_metrics \<Rightarrow> nat" where
  "state_value m = (if m_state m = ''open'' then 1 else if m_state m = ''half_open'' then 2 else 0)"

definition breaker_family :: "(rstr \<times> breaker_metrics) list \<Rightarrow> string \<Rightarrow> rstr \<Rightarrow> string \<Rightarrow> (breaker_metrics \<Rightarrow> nat) \<Rightarrow> rstr" where
  "breaker_family breakers name help kind f =
     head_lines name help kind
     @ (if breakers = [] then labelled_line (lit name) ''backend'' NO_BREAKER_SENTINEL (lit ''0'')
        else concat (map (\<lambda>(backend, cb). labelled_line (lit name) ''backend'' (escape_label backend) (show_nat (f cb))) breakers))"

definition export_circuit_breaker_metrics :: "proxy_metrics \<Rightarrow> rstr" where
  "export_circuit_breaker_metrics mt =
     (let breakers = circuit_breaker_metrics_all mt
      in breaker_family breakers ''scry_circuit_breaker_state''
           (lit ''Circuit breaker state (0=Closed, 1=Open, 2=HalfOpen); backend='' @ [34] @ lit ''none'' @ [34]
             @ lit '' is a sentinel meaning no per-backend breaker is currently registered'') ''gauge'' state_value
       @ breaker_family breakers ''scry_circuit_breaker_consecutive_failures'' (lit ''Consecutive failures in current window'')
           ''gauge'' m_failures
       @ breaker_family breakers ''scry_circuit_breaker_consecutive_successes'' (lit ''Consecutive successes in half-open state'')
           ''gauge'' m_successes
       @ breaker_family breakers ''scry_circuit_breaker_requests_allowed_total'' (lit ''Total requests allowed through'')
           ''counter'' m_allowed
       @ breaker_family breakers ''scry_circuit_breaker_requests_rejected_total'' (lit ''Total requests rejected (circuit open)'')
           ''counter'' m_rejected)"

definition export_metrics :: "bool \<Rightarrow> histogram_reader \<Rightarrow> nat \<Rightarrow> proxy_metrics \<Rightarrow> rstr run" where
  "export_metrics oc H uptime mt =
     run_map (\<lambda>pool.
       export_query_counters (mt_query mt) @ export_latency_metrics H (mt_query mt) @ export_timeline_metrics H (mt_query mt)
       @ export_proxy_overhead_metrics H (mt_query mt) @ pool @ export_pooling_metrics H (mt_pool mt)
       @ export_connection_metrics mt @ export_uptime uptime @ export_circuit_breaker_metrics mt)
     (export_pool_metrics oc (mt_pool mt))"

section \<open>The metrics server\<close>

record metrics_server_config =
  ms_listen_address :: rstr
  ms_enable_debug :: bool

definition default_metrics_server :: metrics_server_config where
  "default_metrics_server = \<lparr>ms_listen_address = lit ''127.0.0.1:9090'', ms_enable_debug = False\<rparr>"

text \<open>The endpoints mounted for the address the listener is bound to.\<close>

definition serve :: "metrics_server_config \<Rightarrow> ip_addr \<Rightarrow> rstr list" where
  "serve cfg bound_ip =
     (let mount_debug = (ms_enable_debug cfg \<and> is_loopback bound_ip)
      in [lit ''/metrics'', lit ''/health'']
         @ (if mount_debug then [lit ''/debug/pool'', lit ''/debug/timeline'', lit ''/debug/hotdata''] else []))"

record health_response =
  hr_status :: health_status
  hr_warnings :: "health_warning list"
  hr_avg_error_rate :: f64
  hr_avg_latency :: f64
  hr_avg_utilization :: f64
  hr_samples :: nat
  hr_uptime :: nat
  hr_version :: rstr

definition health_handler :: "nat \<Rightarrow> rstr \<Rightarrow> proxy_metrics \<Rightarrow> health_response" where
  "health_handler uptime version mt =
     (let hm = mt_health mt; b = hm_baseline hm
      in \<lparr>hr_status = get_status hm, hr_warnings = hm_warnings hm, hr_avg_error_rate = avg_error_rate b,
          hr_avg_latency = avg_latency_p99 b, hr_avg_utilization = avg_pool_utilization b, hr_samples = sample_count b,
          hr_uptime = uptime, hr_version = version\<rparr>)"

record pool_response =
  pr_current_size :: nat
  pr_available :: nat
  pr_max_size :: nat
  pr_utilization :: f64
  pr_in_use :: nat

definition pool_handler :: "bool \<Rightarrow> proxy_metrics \<Rightarrow> pool_response run" where
  "pool_handler oc mt =
     (let st = get_pool_status (mt_pool mt)
      in run_bind (utilization oc st) (\<lambda>u.
         run_map (\<lambda>used. \<lparr>pr_current_size = ps_size st, pr_available = ps_available st, pr_max_size = ps_max_size st,
             pr_utilization = u, pr_in_use = used\<rparr>) (usize_sub oc (ps_size st) (ps_available st))))"

record phase_breakdown =
  ph_queue_time :: f64
  ph_pool_acquire :: f64
  ph_backend :: f64
  ph_total :: f64

definition breakdown :: "(latency_percentiles_ms \<Rightarrow> f64) \<Rightarrow> histogram_reader \<Rightarrow> query_metrics \<Rightarrow> phase_breakdown" where
  "breakdown f H q = \<lparr>ph_queue_time = f (to_millis (get_queue_percentiles H q)),
     ph_pool_acquire = f (to_millis (get_pool_acquire_percentiles H q)), ph_backend = f (to_millis (get_backend_percentiles H q)),
     ph_total = f (to_millis (get_latency_percentiles H q))\<rparr>"

record timeline_response =
  tl_average :: phase_breakdown
  tl_p50 :: phase_breakdown
  tl_p95 :: phase_breakdown
  tl_p99 :: phase_breakdown

definition timeline_handler :: "histogram_reader \<Rightarrow> proxy_metrics \<Rightarrow> timeline_response" where
  "timeline_handler H mt =
     (let q = mt_query mt
      in \<lparr>tl_average = breakdown ms_mean H q, tl_p50 = breakdown p50 H q, tl_p95 = breakdown p95 H q,
          tl_p99 = breakdown p99 H q\<rparr>)"

record hot_data_response =
  hd_top :: "(rstr \<times> nat) list"
  hd_unique :: nat
  hd_decay :: f64

definition hotdata_handler :: "((rstr \<times> nat) list \<Rightarrow> (rstr \<times> nat) list) \<Rightarrow> proxy_metrics \<Rightarrow> hot_data_response" where
  "hotdata_handler iter mt =
     \<lparr>hd_top = get_top_k iter (tr_top (mt_hot_data mt)), hd_unique = unique_count (tr_top (mt_hot_data mt)),
      hd_decay = f64_round (99 / 100)\<rparr>"

section \<open>Labels\<close>

text \<open>A label value as a scraper reads it, up to its closing quote.\<close>

fun read_label :: "rstr \<Rightarrow> (rstr \<times> rstr) option" where
  "read_label [] = None"
| "read_label (c # s) =
     (if c = 34 then Some ([], s)
      else if c = 92 then
        (case s of
           [] \<Rightarrow> None
         | e # r \<Rightarrow> map_option (\<lambda>(v, t). ((if e = 110 then 10 else e) # v, t)) (read_label r))
      else if c = 10 then None
      else map_option (\<lambda>(v, t). (c # v, t)) (read_label s))"

definition escape_char :: "rchar \<Rightarrow> rstr" where
  "escape_char c = (if c = 92 then [92, 92] else if c = 34 then [92, 34] else if c = 10 then [92, 110] else [c])"

lemma replace_char: "str_replace [p] q s = concat (map (\<lambda>c. if c = p then q else [c]) s)"
  by (induction s) (simp_all add: str_replace.simps [of "[p]" q "[]"] str_replace.simps [of "[p]" q "_ # _"] starts_with_def)

lemma escape_label_chars: "escape_label v = concat (map escape_char v)"
  by (induction v) (simp_all add: escape_label_def replace_char escape_char_def)

text \<open>
  C33. A label value cannot break out of its quotes: whatever the name of a database, a scraper that
  reads the exported label finds the closing quote where the export put it and gets the name back.
\<close>

theorem label_roundtrip: "read_label (escape_label v @ 34 # rest) = Some (v, rest)"
  unfolding escape_label_chars by (induction v) (simp_all add: escape_char_def)

text \<open>The line of a breaker holds one line feed, at its end.\<close>

lemma label_one_line: "10 \<notin> set (escape_label v)"
  by (auto simp: escape_label_chars escape_char_def split: if_splits)

text \<open>The name reserved for "no breaker" is not reserved: a database may have it.\<close>

lemma sentinel_ambiguous:
  "export_circuit_breaker_metrics (mt\<lparr>mt_breakers := [(lit ''none'', new_breaker now)]\<rparr>)
     = export_circuit_breaker_metrics (mt\<lparr>mt_breakers := []\<rparr>)"
proof -
  have "escape_label (lit ''none'') = lit ''none''" by (simp add: escape_label_chars escape_char_def str_simps)
  moreover have "show_nat 0 = lit ''0''" by (simp add: show_nat.simps str_simps)
  ultimately show ?thesis
    by (simp add: export_circuit_breaker_metrics_def circuit_breaker_metrics_all_def breaker_family_def NO_BREAKER_SENTINEL_def
        get_metrics_def new_breaker_def state_value_def Let_def)
qed

text \<open>The program never sets the sizes of the pool, so the export never panics.\<close>

lemma export_returns: "gauges_unset mt \<Longrightarrow> \<exists>txt. export_metrics oc H uptime mt = Ret txt"
  by (simp add: export_metrics_def export_pool_metrics_def utilization_def get_pool_status_def gauges_unset_def)

end
