(* ===== verification/Spec2Isabelle.thy ===== *)
theory Spec2Isabelle
  imports Wire_Format Event_Pipeline Admin_Console Metrics_Export
begin

text \<open>
  A verification development for Scry, a transparent Postgres proxy (\<open>src/scry-proxy/src\<close>): a pooling
  proxy that sits between clients and backends, tracks the session state a client leaves behind, shares
  backend connections between clients, and reports anonymized events about the queries it forwards.

  \<^bold>\<open>The parts of the program and the theories that model them.\<close>  A client is accepted by the server,
  identified by its startup message and authenticated; its connection handler takes a backend connection
  from the pool manager of its database and forwards bytes in both directions, while the extractor, the
  command detector, the connection state and the statement cache follow what is forwarded.  At the end of
  a transaction the handler may give the connection back.  Completed queries become events, which a
  batching task hands to a publisher, and are counted in the metrics.

  \<^item> \<open>Scry_Prelude\<close>, \<open>Rust_Str\<close>, \<open>Rust_Net\<close>, \<open>Float64\<close>: the language and its library as far as the proxy uses
    them: computations that may panic, \<open>usize\<close> arithmetic in builds with and without overflow checks (the
    argument \<open>oc\<close>), byte strings, UTF-8 text, socket addresses, binary64 arithmetic on rationals.
  \<^item> \<open>Wire_Messages\<close>, \<open>Wire_Format\<close>, \<open>Backend_Scan\<close>: \<open>protocol/mod.rs\<close> and \<open>protocol/extractor.rs\<close>, the framing
    loop with its reassembly buffer, the payload parsers, and the scans of backend traffic.
  \<^item> \<open>Command_Detector\<close>, \<open>Connection_State\<close>, \<open>Lru\<close>, \<open>Stmt_Cache\<close>, \<open>Mode_Enforcer\<close>: the files of the same names
    in \<open>protocol/\<close> and \<open>proxy/\<close> (the statement cache is \<open>proxy/cache.rs\<close>), and \<open>proxy/transaction.rs\<close>; \<open>Lru\<close> is the
    store with least-recently-used eviction that two of them share.
  \<^item> \<open>Wait_Queue\<close>, \<open>Circuit_Breaker\<close>, \<open>Retry\<close>, \<open>Pool_Manager\<close>, \<open>Backend_Link\<close>: \<open>proxy/wait_queue.rs\<close>, \<open>resilience/\<close>,
    \<open>proxy/pool_manager.rs\<close>, \<open>proxy/tcp_pool.rs\<close>, \<open>protocol/postgres.rs\<close>, \<open>protocol/traits.rs\<close> and \<open>tls/\<close>, from
    waiting for a connection to opening, checking, resetting and handing on one.
  \<^item> \<open>Auth_Messages\<close>, \<open>Client_Auth\<close>, \<open>Backend_Auth\<close>: \<open>protocol/startup.rs\<close>, \<open>protocol/auth_messages.rs\<close>,
    \<open>tls/startup.rs\<close> and \<open>auth/\<close>, the first messages, the SSL negotiation with a client, the user file, and
    both sides of authentication.
  \<^item> \<open>Bind_Params\<close>, \<open>Query_Events\<close>, \<open>Event_Pipeline\<close>: \<open>protocol/bind.rs\<close>, \<open>protocol/anonymize.rs\<close>, the events built in
    \<open>proxy/connection.rs\<close>, \<open>proxy/event_batcher.rs\<close> and \<open>publisher/\<close>.
  \<^item> \<open>Connection_Startup\<close>, \<open>Connection_Handler\<close>: \<open>proxy/connection.rs\<close>, the startup of a session and its loop,
    with a step for every read, deadline and failure.
  \<^item> \<open>Scry_Config\<close>, \<open>Pgbouncer_Config\<close>: \<open>config/\<close> and \<open>routing/mod.rs\<close>, loading, defaults, the check at start-up
    and PgBouncer's settings.
  \<^item> \<open>Hot_Data\<close>, \<open>Health_Metrics\<close>, \<open>Metrics_Export\<close>: \<open>observability/\<close>, the sketch of frequent values, the timeline
    of a query, the counters, the health monitor, the text a scraper reads and the endpoints.
  \<^item> \<open>Client_Registry\<close>, \<open>Proxy_Server\<close>, \<open>Admin_Console\<close>: \<open>proxy/admin_handles.rs\<close>, \<open>proxy/server.rs\<close> and \<open>admin/\<close>,
    the accept loop, the tasks of the clients, pools and their selection, reload, draining, and the console.

  \<^bold>\<open>How state and operations correspond to the code.\<close>  A struct is a record and an enum a datatype with
  the source's constructors; a method that takes \<open>&mut self\<close> is a function that returns the new record.  A
  hash map is an association list with distinct keys, whose order no result depends on unless an order
  is an argument.  A panic is the outcome \<open>Panic\<close>, a \<open>Result\<close> a sum with the error on the left.  A lock is held
  for the whole of a modelled operation, so concurrency is the order of the operations: the wait queue,
  the pool manager, the statement stores and the server have a step relation whose reachable states are
  those of every interleaving.  Reads are lists of chunks, cut anywhere.

  \<^bold>\<open>What is an argument.\<close>  The hash functions and randomness of authentication, the SQL parser, Unicode case
  mapping beyond ASCII, the reading of floats from text, the deadpool library behind \<open>get\<close>, the TLS library, the
  HDR histogram, the file system, the clock and the outcomes of network operations.  Where a theorem relies
  on one of them it says so in a named hypothesis, and its witness instantiates it.

  \<^bold>\<open>What the lemmas show.\<close>
  \<^item> Wire: messages survive any cutting into reads, the extraction does not depend on the cutting, its
    buffer is bounded; the backend scan finds the last status on whole messages.
  \<^item> State: the statement map and its queue agree within the limit over every history, an unrecognised
    statement pins, a pin is dropped only by a command that releases it, replaying restores the state.
  \<^item> Pool: no backend connection has two holders over every interleaving, the wait queue counts its waiters,
    the breaker changes its state only for its documented causes and opens at its threshold, the retry
    loop ends within its attempts, a recycled connection was reset and found idle, required encryption
    towards a backend holds.
  \<^item> Clients: authentication needs the password, required TLS leaves no plaintext session, both startup
    paths agree, SCRAM succeeds against a server that follows it; an accepted configuration lets nobody
    in unauthenticated unless that was acknowledged.
  \<^item> Sessions: outside transaction pooling the bytes pass unchanged in both directions; a connection is
    given up only in a clean state; accepted statements of transaction mode leave no state.
  \<^item> Observation: an event depends on a query only through its anonymized form and fails closed, decoded
    parameters have the types of their OIDs, events are conserved from acceptance to the publisher, the hot
    data report is within its bounds, label values are read back exactly.
  \<^item> Server: the counters count the live tasks within the limit and the registry lists live clients, KILL
    reaches exactly the clients of a database, the pool of a client is the one its router names, the
    console needs its password and shows no secret.
  \<^item> Deviations: each is a theorem or a lemma about the same definitions, such as the panics and endless
    loops on hostile lengths, a forged or unread reply, the handshake that accepts an unsigned end, a
    health check that reports a starved pool whenever a client is connected.

  \<^bold>\<open>Interfaces.\<close>  The locales \<open>framing\<close>, \<open>lru_store\<close>, \<open>wake_queue\<close>, \<open>request_gate\<close>, \<open>event_publisher\<close> and \<open>wire_protocol\<close>
  state what one component relies on of another; each is interpreted on the model's definitions, the
  store and the publisher twice.

  \<^bold>\<open>Bounds.\<close>  No definition has fuel.  Loops over data are total functions with a measure; the two backend
  scans, which can loop forever on a length field of -1 in a build without overflow checks, are partial
  functions whose value \<open>None\<close> is not returning, and what they return on whole messages is proved as such.
  Lengths of traffic are below \<open>2 ^ 63\<close> where a cast to a signed length matters.  Counters wrap at \<open>2 ^ 64\<close>.

  \<^bold>\<open>Not modelled.\<close>  Binding listeners, signal handlers, logging and tracing, HTTP and JSON rendering, socket
  polling and the internals of the libraries named above are input and output or code of others.  The
  entry points (\<open>main.rs\<close>, \<open>lib.rs\<close>, \<open>proxy/mod.rs\<close>) only start the modelled parts in order.  \<open>test_support.rs\<close> is
  compiled for tests only, and \<open>benchmarks/\<close> is a load generator outside the proxy.  The forwarding methods of the
  protocol trait and of the transports have no behaviour of their own.
\<close>

end
